theory Spec2Isabelle
  imports Complex_Main "HOL-Library.Multiset"
begin

section \<open>JavaScript values as the pipeline uses them\<close>

text \<open>
  The three stages of the document pipeline are embedded here: the structural parser
  (\<^verbatim>\<open>src/lib/pptx/parser.ts\<close>), the accessibility validator
  (\<^verbatim>\<open>lib/pptx/validator\<close>) and the tagged-document generator
  (\<^verbatim>\<open>lib/pdf/generator\<close>).

  Conventions of the embedding.
  \<^item> A JavaScript string is a \<^typ>\<open>string\<close>; a character stands for one code unit in the
    range 0..255. The two glyphs of the report texts that lie beyond that range (the
    bullet and the check mark) are written as their UTF-8 bytes.
  \<^item> An optional field (\<^verbatim>\<open>f?: T\<close>) is an \<^typ>\<open>'a option\<close>; \<^verbatim>\<open>undefined\<close> is \<^term>\<open>None\<close>.
  \<^item> Counts and slide numbers are \<^typ>\<open>int\<close>; coordinates and confidences are \<^typ>\<open>rat\<close>
    (exact arithmetic; IEEE rounding, NaN and infinities are outside the model).
  \<^item> A \<^verbatim>\<open>Date\<close> object is the record \<open>js_date\<close> of what the code observes of it.
  \<^item> The declarations of \<^verbatim>\<open>lib/pptx/types\<close> are not among the sources; the records below
    carry the fields the three stages read and write. Style hints, the theme summary and
    the slide layout classification are read by none of the embedded operations and are
    left out.
\<close>

subsection \<open>Strings\<close>

text \<open>ECMAScript white space and line terminators, as \<^verbatim>\<open>trim\<close> and \<^verbatim>\<open>\s\<close> read them.\<close>

definition isWhiteSpace :: "char \<Rightarrow> bool" where
  "isWhiteSpace c =
     (c = CHR 0x09 \<or> c = CHR 0x0A \<or> c = CHR 0x0B \<or> c = CHR 0x0C \<or> c = CHR 0x0D
      \<or> c = CHR 0x20 \<or> c = CHR 0xA0)"

definition trim :: "string \<Rightarrow> string" where
  "trim s = rev (dropWhile isWhiteSpace (rev (dropWhile isWhiteSpace s)))"

text \<open>Truthiness of an optional string: \<^verbatim>\<open>undefined\<close> and \<^verbatim>\<open>""\<close> are falsy.\<close>

fun truthy :: "string option \<Rightarrow> bool" where
  "truthy None = False"
| "truthy (Some s) = (s \<noteq> [])"

text \<open>\<^verbatim>\<open>a || b\<close> on optional strings.\<close>

fun or_else :: "string option \<Rightarrow> string option \<Rightarrow> string option" where
  "or_else a b = (if truthy a then a else b)"

text \<open>\<^verbatim>\<open>s?.trim()\<close> read as a condition.\<close>

definition trimmed_truthy :: "string option \<Rightarrow> bool" where
  "trimmed_truthy s = (case s of None \<Rightarrow> False | Some t \<Rightarrow> trim t \<noteq> [])"

definition toLowerChar :: "char \<Rightarrow> char" where
  "toLowerChar c =
     (let n = (of_char c :: nat) in
      if (65 \<le> n \<and> n \<le> 90) \<or> (192 \<le> n \<and> n \<le> 222 \<and> n \<noteq> 215)
      then char_of (n + 32) else c)"

definition toLowerCase :: "string \<Rightarrow> string" where
  "toLowerCase s = map toLowerChar s"

text \<open>The \<^verbatim>\<open>i\<close> flag of a regular expression without the \<^verbatim>\<open>u\<close> flag folds the ASCII
  letters only (a code unit of 128 or more never matches an ASCII letter).\<close>

definition foldAscii :: "char \<Rightarrow> char" where
  "foldAscii c =
     (let n = (of_char c :: nat) in if 65 \<le> n \<and> n \<le> 90 then char_of (n + 32) else c)"

definition matchesIgnoreCase :: "string \<Rightarrow> string \<Rightarrow> bool" where
  "matchesIgnoreCase pat s = (map foldAscii s = map foldAscii pat)"

definition endsWith :: "string \<Rightarrow> string \<Rightarrow> bool" where
  "endsWith s suf = (length suf \<le> length s \<and> drop (length s - length suf) s = suf)"

definition isDigit :: "char \<Rightarrow> bool" where
  "isDigit c = (let n = (of_char c :: nat) in 48 \<le> n \<and> n \<le> 57)"

text \<open>\<^verbatim>\<open>/^prefix\d*$/\<close>.\<close>

definition prefixThenDigits :: "string \<Rightarrow> string \<Rightarrow> bool" where
  "prefixThenDigits pre s =
     (take (length pre) s = pre \<and> list_all isDigit (drop (length pre) s))"

text \<open>\<^verbatim>\<open>s.split(/\s+/).length\<close>: one more than the number of maximal runs of white space.\<close>

fun whiteSpaceRuns :: "bool \<Rightarrow> string \<Rightarrow> nat" where
  "whiteSpaceRuns prev [] = 0"
| "whiteSpaceRuns prev (c # cs) =
     (if isWhiteSpace c then (if prev then 0 else 1) + whiteSpaceRuns True cs
      else whiteSpaceRuns False cs)"

definition splitWhiteSpaceLength :: "string \<Rightarrow> nat" where
  "splitWhiteSpaceLength s = Suc (whiteSpaceRuns False s)"

text \<open>\<^verbatim>\<open>lines.join("\n")\<close>.\<close>

fun joinLines :: "string list \<Rightarrow> string" where
  "joinLines [] = []"
| "joinLines [l] = l"
| "joinLines (l # m # ls) = l @ [CHR 0x0A] @ joinLines (m # ls)"

subsection \<open>Numbers\<close>

text \<open>Decimal rendering of an integer inside a template string.\<close>

definition digitChar :: "nat \<Rightarrow> char" where
  "digitChar d = char_of (48 + d)"

fun showDigits :: "nat \<Rightarrow> nat \<Rightarrow> string" where
  "showDigits 0 n = [digitChar (n mod 10)]"
| "showDigits (Suc fuel) n =
     (if n < 10 then [digitChar n] else showDigits fuel (n div 10) @ [digitChar (n mod 10)])"

definition showNat :: "nat \<Rightarrow> string" where
  "showNat n = showDigits n n"

definition showInt :: "int \<Rightarrow> string" where
  "showInt i = (if i < 0 then ''-'' @ showNat (nat (- i)) else showNat (nat i))"

text \<open>\<^verbatim>\<open>Math.round\<close>: the nearest integer, a half rounding upwards. Its argument is exact
  here; the code rounds a product formed in double precision.\<close>

definition mathRound :: "rat \<Rightarrow> int" where
  "mathRound q = \<lfloor>q + 1 / 2\<rfloor>"

subsection \<open>Dates\<close>

text \<open>A \<^verbatim>\<open>Date\<close> as the validator observes it: its time value and the two renderings it asks
  the runtime for (\<^verbatim>\<open>toISOString()\<close> and \<^verbatim>\<open>toLocaleDateString("de-DE")\<close>).\<close>

record js_date =
  timeValue :: int
  isoString :: string
  localeDateStringDE :: string

text \<open>The clock: the k-th evaluation of \<^verbatim>\<open>new Date()\<close> that the code of an operation makes
  during one run yields \<open>clock k\<close>, counted from 0. Readings that a library takes for its
  own purposes are not counted.\<close>

type_synonym js_clock = "nat \<Rightarrow> js_date"

section \<open>Data model\<close>

datatype ElementType =
    E_title | E_subtitle | E_body | E_paragraph | E_list | E_listItem | E_table | E_image
  | E_shape | E_chart | E_smartart | E_group | E_textbox | E_footer | E_slideNumber | E_date
  | E_unknown

datatype SemanticRole =
    Role_H1 | Role_H2 | Role_P | Role_L | Role_LI | Role_Lbl | Role_LBody | Role_Table
  | Role_TR | Role_TH | Role_TD | Role_Figure | Role_Artifact | Role_Sect | Role_Span
  | Role_Part

datatype AltTextStatus = Alt_present | Alt_missing | Alt_decorative | Alt_needs_review

datatype Severity = Sev_error | Sev_warning | Sev_info

datatype IssueType =
    missing_document_title | missing_language | missing_metadata | missing_title
  | reading_order_unclear | overlapping_elements | empty_element | missing_alt_text
  | insufficient_alt_text | table_missing_headers | table_empty_cells | unclear_link_text
  | pseudo_table | background_not_decorative | flattened_content | grouped_content_order

record AccessibilityIssue =
  issue_id :: string
  issue_type :: IssueType
  severity :: Severity
  slideNumber :: "int option"
  elementId :: "string option"
  elementType :: "ElementType option"
  message :: string
  messageDE :: "string option"
  wcagCriteria :: "string option"
  pdfuaClause :: "string option"
  suggestion :: "string option"
  suggestionDE :: "string option"
  autoFixable :: bool
  issue_context :: "string option"

record Position =
  pos_x :: rat
  pos_y :: rat
  pos_width :: rat
  pos_height :: rat
  pos_zOrder :: rat

record RichTextRun =
  run_text :: string
  run_bold :: bool
  run_italic :: bool
  run_underline :: bool

record TableCell =
  cell_content :: string
  cell_richText :: "RichTextRun list"
  cell_isHeader :: bool
  cell_scope :: "string option"

record TableData =
  td_rows :: int
  td_columns :: int
  td_cells :: "TableCell list list"
  hasHeaderRow :: bool
  hasHeaderColumn :: bool

record ListItem =
  item_text :: string
  item_level :: int
  item_listType :: string

record ListData =
  items :: "ListItem list"

record ElementContent =
  content_text :: "string option"
  richText :: "RichTextRun list option"
  altText :: "string option"
  altTextStatus :: AltTextStatus
  longDescription :: "string option"

record SlideElement =
  el_id :: string
  el_type :: ElementType
  semanticRole :: SemanticRole
  position :: Position
  content :: ElementContent
  isDecorative :: bool
  isGrouped :: bool
  groupId :: "string option"
  hyperlink :: "string option"
  tableData :: "TableData option"
  listData :: "ListData option"
  el_issues :: "AccessibilityIssue list"

record Slide =
  slide_number :: int
  slide_id :: string
  elements :: "SlideElement list"
  readingOrder :: "string list"
  readingOrderConfidence :: rat
  backgroundElements :: "SlideElement list"
  slide_issues :: "AccessibilityIssue list"

record Metadata =
  md_title :: string
  md_author :: "string option"
  md_subject :: "string option"
  md_keywords :: "string list option"
  md_language :: string
  md_createdDate :: "js_date option"
  md_modifiedDate :: "js_date option"

record PresentationStats =
  totalElements :: int
  imagesWithAltText :: int
  imagesWithoutAltText :: int
  decorativeImages :: int
  tables :: int
  lists :: int
  links :: int

record Presentation =
  metadata :: Metadata
  slides :: "Slide list"
  pres_issues :: "AccessibilityIssue list"
  stats :: PresentationStats

record AutoFixOptions =
  generateMissingAltText :: bool
  markUncaptionedAsDecorative :: bool
  fixEmptyTitles :: bool
  setDocumentLanguage :: bool
  fixReadingOrder :: bool
  convertPseudoTables :: bool

record ExportOptions =
  pdfVersion :: string
  pdfUaConformance :: string
  embedFonts :: bool
  includeBookmarks :: bool
  includeLinks :: bool
  taggedPdf :: bool
  linearized :: bool

record ConversionProfile =
  profile_name :: string
  profile_id :: string
  tagMapping :: "(ElementType \<times> SemanticRole) list"
  autoFixOptions :: AutoFixOptions
  exportOptions :: ExportOptions

datatype WcagLevel = Wcag_A | Wcag_AA | Wcag_AAA | Wcag_none

datatype PdfUaLevel = PdfUa_1 | PdfUa_partial | PdfUa_none

record Conformance =
  wcagLevel :: WcagLevel
  pdfuaLevel :: PdfUaLevel
  bitvConformant :: bool

record ReportSummary =
  sum_total :: int
  sum_errors :: int
  sum_warnings :: int
  sum_info :: int
  sum_autoFixable :: int

record AccessibilityReport =
  timestamp :: js_date
  documentTitle :: string
  issues :: "AccessibilityIssue list"
  summary :: ReportSummary
  conformance :: Conformance
  overallScore :: int
  report_wcagLevel :: WcagLevel
  pdfuaConformant :: bool
  recommendations :: "string list"
  report_stats :: PresentationStats
  reportText :: string
  reportTextDE :: string

section \<open>Accessibility validator\<close>

subsection \<open>Document-level checks\<close>

definition validateDocument :: "Presentation \<Rightarrow> AccessibilityIssue list" where
  "validateDocument p =
     (let md = metadata p in
      (if \<not> trimmed_truthy (Some (md_title md)) then
         [\<lparr>issue_id = ''doc-no-title'', issue_type = missing_document_title,
           severity = Sev_error, slideNumber = None, elementId = None, elementType = None,
           message = ''Document title is missing'',
           messageDE = Some ''Dokumenttitel fehlt'',
           wcagCriteria = Some ''2.4.2'', pdfuaClause = Some ''7.1'',
           suggestion = Some ''Add a document title in File > Info > Properties'',
           suggestionDE = Some (''F'' @ [CHR 0xFC] @ ''gen Sie einen Dokumenttitel unter Datei > Info > Eigenschaften hinzu''),
           autoFixable = True, issue_context = None\<rparr>]
       else []) @
      (if md_language md = [] \<or> md_language md = ''und'' \<or> length (md_language md) < 2 then
         [\<lparr>issue_id = ''doc-no-language'', issue_type = missing_language,
           severity = Sev_error, slideNumber = None, elementId = None, elementType = None,
           message = ''Document language is not defined'',
           messageDE = Some ''Dokumentsprache ist nicht definiert'',
           wcagCriteria = Some ''3.1.1'', pdfuaClause = Some ''7.2'',
           suggestion = Some ''Set the document language in the presentation settings'',
           suggestionDE = Some (''Setzen Sie die Dokumentsprache in den Pr'' @ [CHR 0xE4] @ ''sentationseinstellungen''),
           autoFixable = True, issue_context = None\<rparr>]
       else []) @
      (if \<not> trimmed_truthy (md_author md) then
         [\<lparr>issue_id = ''doc-no-author'', issue_type = missing_metadata,
           severity = Sev_info, slideNumber = None, elementId = None, elementType = None,
           message = ''Document author is not set'',
           messageDE = Some ''Dokumentautor ist nicht gesetzt'',
           wcagCriteria = None, pdfuaClause = None,
           suggestion = Some ''Consider adding author information for better metadata'',
           suggestionDE = Some (''Erw'' @ [CHR 0xE4] @ ''gen Sie, Autorinformationen f'' @ [CHR 0xFC] @ ''r bessere Metadaten hinzuzuf'' @ [CHR 0xFC] @ ''gen''),
           autoFixable = False, issue_context = None\<rparr>]
       else []))"

subsection \<open>Slide title and reading order\<close>

definition validateSlideTitle :: "Slide \<Rightarrow> AccessibilityIssue list" where
  "validateSlideTitle slide =
     (case find (\<lambda>e. el_type e = E_title \<and> trimmed_truthy (content_text (content e)))
             (elements slide) of
        Some titleElement \<Rightarrow> []
      | None \<Rightarrow>
          [\<lparr>issue_id = ''slide-'' @ showInt (slide_number slide) @ ''-no-title'',
            issue_type = missing_title, severity = Sev_warning,
            slideNumber = Some (slide_number slide), elementId = None, elementType = None,
            message = ''Slide '' @ showInt (slide_number slide) @ '' has no title'',
            messageDE = Some (''Folie '' @ showInt (slide_number slide) @ '' hat keinen Titel''),
            wcagCriteria = Some ''2.4.2'', pdfuaClause = Some ''7.4'',
            suggestion = Some ''Add a title to enable navigation via headings'',
            suggestionDE = Some (''F'' @ [CHR 0xFC] @ ''gen Sie einen Titel hinzu, um Navigation '' @ [CHR 0xFC] @ ''ber '' @ [CHR 0xDC] @ ''berschriften zu erm'' @ [CHR 0xF6] @ ''glichen''),
            autoFixable = False, issue_context = None\<rparr>])"

text \<open>The bounding boxes of two elements intersect in both axes. The two sums are exact
  here; the code forms them in double precision.\<close>

definition overlap :: "SlideElement \<Rightarrow> SlideElement \<Rightarrow> bool" where
  "overlap e1 e2 =
     (let a = position e1; b = position e2;
          overlapX = (pos_x a < pos_x b + pos_width b \<and> pos_x a + pos_width a > pos_x b);
          overlapY = (pos_y a < pos_y b + pos_height b \<and> pos_y a + pos_height a > pos_y b)
      in overlapX \<and> overlapY)"

text \<open>The nested loops over \<open>i < j\<close>: for each element, the later elements it overlaps.\<close>

fun findOverlappingElements :: "SlideElement list \<Rightarrow> (SlideElement \<times> SlideElement) list" where
  "findOverlappingElements [] = []"
| "findOverlappingElements (e # es) =
     map (\<lambda>e'. (e, e')) (filter (overlap e) es) @ findOverlappingElements es"

definition overlapIssue :: "int \<Rightarrow> SlideElement \<times> SlideElement \<Rightarrow> AccessibilityIssue" where
  "overlapIssue n pr =
     (case pr of (elem1, elem2) \<Rightarrow>
        \<lparr>issue_id = ''slide-'' @ showInt n @ ''-overlap-'' @ el_id elem1 @ ''-'' @ el_id elem2,
         issue_type = overlapping_elements, severity = Sev_info,
         slideNumber = Some n, elementId = Some (el_id elem1), elementType = None,
         message = ''Elements '' @ [CHR 0x22] @ el_id elem1 @ [CHR 0x22] @ '' and '' @ [CHR 0x22] @ el_id elem2 @ [CHR 0x22] @ '' overlap'',
         messageDE = Some (''Elemente '' @ [CHR 0x22] @ el_id elem1 @ [CHR 0x22] @ '' und '' @ [CHR 0x22] @ el_id elem2 @ [CHR 0x22] @ '' '' @ [CHR 0xFC] @ ''berlappen sich''),
         wcagCriteria = Some ''1.3.2'', pdfuaClause = None,
         suggestion = Some ''Ensure overlapping elements have correct reading order'',
         suggestionDE = Some (''Stellen Sie sicher, dass '' @ [CHR 0xFC] @ ''berlappende Elemente die richtige Lesereihenfolge haben''),
         autoFixable = False, issue_context = None\<rparr>)"

definition orderUncertainIssues :: "Slide \<Rightarrow> AccessibilityIssue list" where
  "orderUncertainIssues slide =
     (if readingOrderConfidence slide < 7 / 10 then
        [\<lparr>issue_id = ''slide-'' @ showInt (slide_number slide) @ ''-order-uncertain'',
          issue_type = reading_order_unclear, severity = Sev_warning,
          slideNumber = Some (slide_number slide), elementId = None, elementType = None,
          message = ''Reading order on slide '' @ showInt (slide_number slide) @ '' may be incorrect'',
          messageDE = Some (''Lesereihenfolge auf Folie '' @ showInt (slide_number slide) @ '' ist m'' @ [CHR 0xF6] @ ''glicherweise unkorrekt''),
          wcagCriteria = Some ''1.3.2'', pdfuaClause = Some ''7.1'',
          suggestion = Some ''Review and manually adjust reading order if needed'',
          suggestionDE = Some ([CHR 0xDC] @ ''berpr'' @ [CHR 0xFC] @ ''fen und ggf. manuell anpassen''),
          autoFixable = False,
          issue_context = Some (''Confidence: '' @ showInt (mathRound (readingOrderConfidence slide * 100)) @ ''%'')\<rparr>]
      else [])"

text \<open>The second half of \<^verbatim>\<open>validateReadingOrder\<close>: one issue per overlapping pair.\<close>

definition overlapIssues :: "Slide \<Rightarrow> AccessibilityIssue list" where
  "overlapIssues slide =
     map (overlapIssue (slide_number slide)) (findOverlappingElements (elements slide))"

definition validateReadingOrder :: "Slide \<Rightarrow> AccessibilityIssue list" where
  "validateReadingOrder slide = orderUncertainIssues slide @ overlapIssues slide"

subsection \<open>Element checks\<close>

definition getElementTypeName :: "ElementType \<Rightarrow> string" where
  "getElementTypeName t =
     (case t of E_image \<Rightarrow> ''Image'' | E_chart \<Rightarrow> ''Chart'' | E_smartart \<Rightarrow> ''SmartArt''
      | E_table \<Rightarrow> ''Table'' | _ \<Rightarrow> ''Element'')"

definition getElementTypeNameDE :: "ElementType \<Rightarrow> string" where
  "getElementTypeNameDE t =
     (case t of E_image \<Rightarrow> ''Bild'' | E_chart \<Rightarrow> ''Diagramm'' | E_smartart \<Rightarrow> ''SmartArt''
      | E_table \<Rightarrow> ''Tabelle'' | _ \<Rightarrow> ''Element'')"

definition imageExtensions :: "string list" where
  "imageExtensions = [''jpg'', ''jpeg'', ''png'', ''gif'', ''bmp'', ''svg'', ''webp'']"

definition genericWords :: "string list" where
  "genericWords =
     [''bild'', ''image'', ''foto'', ''photo'', ''grafik'', ''graphic'', ''diagramm'', ''chart'',
      ''logo'', ''icon'', ''screenshot'']"

text \<open>The fifteen generic patterns in their order; the two numbered ones admit trailing
  digits.\<close>

definition isLowQualityAltText :: "string \<Rightarrow> bool" where
  "isLowQualityAltText alt =
     (let lowered = trim (toLowerCase alt) in
      if list_ex (\<lambda>ext. endsWith (map foldAscii lowered) (''.'' @ ext)) imageExtensions then True
      else if list_ex (\<lambda>w. lowered = w) genericWords
              \<or> prefixThenDigits ''img'' lowered \<or> prefixThenDigits ''picture'' lowered
              \<or> lowered = ''untitled'' \<or> lowered = ''placeholder'' then True
      else if splitWhiteSpaceLength lowered < 2 then True
      else False)"

definition validateImageAltText :: "SlideElement \<Rightarrow> int \<Rightarrow> AccessibilityIssue list" where
  "validateImageAltText element n =
     (if isDecorative element then []
      else if altTextStatus (content element) = Alt_missing
              \<or> \<not> trimmed_truthy (altText (content element)) then
        [\<lparr>issue_id = ''slide-'' @ showInt n @ ''-'' @ el_id element @ ''-no-alt'',
          issue_type = missing_alt_text, severity = Sev_error,
          slideNumber = Some n, elementId = Some (el_id element),
          elementType = Some (el_type element),
          message = getElementTypeName (el_type element) @ '' is missing alt text'',
          messageDE = Some (getElementTypeNameDE (el_type element) @ '' hat keinen Alternativtext''),
          wcagCriteria = Some ''1.1.1'', pdfuaClause = Some ''7.3'',
          suggestion = Some ''Add descriptive alt text or mark as decorative'',
          suggestionDE = Some (''F'' @ [CHR 0xFC] @ ''gen Sie beschreibenden Alt-Text hinzu oder markieren Sie als dekorativ''),
          autoFixable = False, issue_context = None\<rparr>]
      else if truthy (altText (content element))
              \<and> isLowQualityAltText (the (altText (content element))) then
        [\<lparr>issue_id = ''slide-'' @ showInt n @ ''-'' @ el_id element @ ''-poor-alt'',
          issue_type = insufficient_alt_text, severity = Sev_warning,
          slideNumber = Some n, elementId = Some (el_id element),
          elementType = Some (el_type element),
          message = ''Alt text may not be sufficiently descriptive'',
          messageDE = Some (''Alt-Text ist m'' @ [CHR 0xF6] @ ''glicherweise nicht ausreichend beschreibend''),
          wcagCriteria = Some ''1.1.1'', pdfuaClause = Some ''7.3'',
          suggestion = Some ''Review alt text: avoid file names, generic descriptions, or overly short text'',
          suggestionDE = Some ([CHR 0xDC] @ ''berpr'' @ [CHR 0xFC] @ ''fen Sie den Alt-Text: Vermeiden Sie Dateinamen, generische Beschreibungen oder zu kurzen Text''),
          autoFixable = False,
          issue_context = Some (''Current: '' @ [CHR 0x22] @ the (altText (content element)) @ [CHR 0x22])\<rparr>]
      else [])"

definition emptyCellCount :: "TableData \<Rightarrow> nat" where
  "emptyCellCount td = length (filter (\<lambda>cell. trim (cell_content cell) = []) (concat (td_cells td)))"

definition validateTableStructure :: "SlideElement \<Rightarrow> int \<Rightarrow> AccessibilityIssue list" where
  "validateTableStructure element n =
     (case tableData element of
        None \<Rightarrow> []
      | Some td \<Rightarrow>
          (if \<not> hasHeaderRow td \<and> \<not> hasHeaderColumn td \<and> td_rows td > 1 then
             [\<lparr>issue_id = ''slide-'' @ showInt n @ ''-'' @ el_id element @ ''-no-header'',
               issue_type = table_missing_headers, severity = Sev_warning,
               slideNumber = Some n, elementId = Some (el_id element),
               elementType = Some E_table,
               message = ''Table has no defined header row or column'',
               messageDE = Some ''Tabelle hat keine definierte Kopfzeile oder -spalte'',
               wcagCriteria = Some ''1.3.1'', pdfuaClause = Some ''7.5'',
               suggestion = Some ''Mark the first row as header for screen reader navigation'',
               suggestionDE = Some (''Markieren Sie die erste Zeile als Kopf f'' @ [CHR 0xFC] @ ''r Screenreader-Navigation''),
               autoFixable = True, issue_context = None\<rparr>]
           else []) @
          (if emptyCellCount td > 0 then
             [\<lparr>issue_id = ''slide-'' @ showInt n @ ''-'' @ el_id element @ ''-empty-cells'',
               issue_type = table_empty_cells, severity = Sev_info,
               slideNumber = Some n, elementId = Some (el_id element),
               elementType = Some E_table,
               message = ''Table has '' @ showNat (emptyCellCount td) @ '' empty cells'',
               messageDE = Some (''Tabelle hat '' @ showNat (emptyCellCount td) @ '' leere Zellen''),
               wcagCriteria = Some ''1.3.1'', pdfuaClause = None,
               suggestion = Some (''Consider using '' @ [CHR 0x22] @ ''-'' @ [CHR 0x22] @ '' or '' @ [CHR 0x22] @ ''N/A'' @ [CHR 0x22] @ '' for intentionally empty cells''),
               suggestionDE = Some (''Erwaegen Sie '' @ [CHR 0x22] @ ''-'' @ [CHR 0x22] @ '' oder '' @ [CHR 0x22] @ ''k.A.'' @ [CHR 0x22] @ '' fuer absichtlich leere Zellen''),
               autoFixable = False, issue_context = None\<rparr>]
           else []))"

definition unclearPatterns :: "string list" where
  "unclearPatterns =
     [''hier'', ''klick'', ''click here'', ''more'', ''mehr'', ''link'', ''read more'',
      ''weiterlesen'', ''details'']"

definition validateLink :: "SlideElement \<Rightarrow> int \<Rightarrow> AccessibilityIssue list" where
  "validateLink element n =
     (let txt = (case content_text (content element) of None \<Rightarrow> [] | Some t \<Rightarrow> trim t) in
      if list_ex (\<lambda>pat. matchesIgnoreCase pat txt) unclearPatterns then
        [\<lparr>issue_id = ''slide-'' @ showInt n @ ''-'' @ el_id element @ ''-unclear-link'',
          issue_type = unclear_link_text, severity = Sev_warning,
          slideNumber = Some n, elementId = Some (el_id element), elementType = None,
          message = ''Link text '' @ [CHR 0x22] @ txt @ [CHR 0x22] @ '' is not descriptive'',
          messageDE = Some (''Linktext '' @ [CHR 0x22] @ txt @ [CHR 0x22] @ '' ist nicht beschreibend''),
          wcagCriteria = Some ''2.4.4'', pdfuaClause = Some ''7.17'',
          suggestion = Some ''Use descriptive link text that explains the destination'',
          suggestionDE = Some (''Verwenden Sie beschreibenden Linktext, der das Ziel erkl'' @ [CHR 0xE4] @ ''rt''),
          autoFixable = False, issue_context = None\<rparr>]
      else [])"

definition emptyElementIssues :: "SlideElement \<Rightarrow> int \<Rightarrow> AccessibilityIssue list" where
  "emptyElementIssues element n =
     (if (el_type element = E_body \<or> el_type element = E_textbox)
         \<and> \<not> trimmed_truthy (content_text (content element))
         \<and> \<not> isDecorative element then
        [\<lparr>issue_id = ''slide-'' @ showInt n @ ''-'' @ el_id element @ ''-empty'',
          issue_type = empty_element, severity = Sev_info,
          slideNumber = Some n, elementId = Some (el_id element),
          elementType = Some (el_type element),
          message = ''Empty text element that is not marked as decorative'',
          messageDE = Some ''Leeres Textelement, das nicht als dekorativ markiert ist'',
          wcagCriteria = None, pdfuaClause = None,
          suggestion = Some ''Remove empty element or mark as decorative'',
          suggestionDE = Some ''Leeres Element entfernen oder als dekorativ markieren'',
          autoFixable = True, issue_context = None\<rparr>]
      else [])"

definition validateElement :: "SlideElement \<Rightarrow> int \<Rightarrow> AccessibilityIssue list" where
  "validateElement element n =
     (if el_type element = E_image \<or> el_type element = E_chart \<or> el_type element = E_smartart
      then validateImageAltText element n else []) @
     (if el_type element = E_table then validateTableStructure element n else []) @
     (if truthy (hyperlink element) then validateLink element n else []) @
     emptyElementIssues element n"

subsection \<open>Pseudo-tables and background elements\<close>

text \<open>The row band of a text box: \<^verbatim>\<open>Math.round(y / 30) * 30\<close>.\<close>

definition rowKey :: "SlideElement \<Rightarrow> int" where
  "rowKey tb = mathRound (pos_y (position tb) / 30) * 30"

text \<open>The \<^verbatim>\<open>Map\<close> from row band to text boxes, as the list of its entries in insertion
  order. One loop step: create the band's entry when it is new, then push the text box.\<close>

definition addToRow ::
  "(int \<times> SlideElement list) list \<Rightarrow> SlideElement \<Rightarrow> (int \<times> SlideElement list) list" where
  "addToRow rws tb =
     (let y = rowKey tb;
          rws' = (if y \<in> set (map fst rws) then rws else rws @ [(y, [])])
      in map (\<lambda>(k, r). if k = y then (k, r @ [tb]) else (k, r)) rws')"

definition groupRows :: "SlideElement list \<Rightarrow> (int \<times> SlideElement list) list" where
  "groupRows tbs = foldl addToRow [] tbs"

definition validatePseudoTables :: "Slide \<Rightarrow> AccessibilityIssue list" where
  "validatePseudoTables slide =
     (let textboxes = filter (\<lambda>e. el_type e = E_textbox) (elements slide) in
      if length textboxes < 4 then []
      else
        let rws = groupRows textboxes;
            rowSizes = map (\<lambda>r. length (snd r)) rws;
            firstSize = (case rowSizes of [] \<Rightarrow> None | s # _ \<Rightarrow> Some s);
            allSameSize = (length rowSizes > 1 \<and> list_all (\<lambda>s. Some s = firstSize) rowSizes);
            hasMultipleRowsAndCols =
              (length rws \<ge> 2 \<and> (case firstSize of None \<Rightarrow> 0 | Some s \<Rightarrow> s) \<ge> 2)
        in if allSameSize \<and> hasMultipleRowsAndCols then
             [\<lparr>issue_id = ''slide-'' @ showInt (slide_number slide) @ ''-pseudo-table'',
               issue_type = pseudo_table, severity = Sev_warning,
               slideNumber = Some (slide_number slide), elementId = None, elementType = None,
               message = ''Text boxes arranged like a table detected'',
               messageDE = Some ''Textfelder in Tabellenanordnung erkannt'',
               wcagCriteria = Some ''1.3.1'', pdfuaClause = Some ''7.5'',
               suggestion = Some ''Convert to a real table for proper accessibility markup'',
               suggestionDE = Some (''Konvertieren Sie in eine echte Tabelle f'' @ [CHR 0xFC] @ ''r korrektes Accessibility-Markup''),
               autoFixable = False,
               issue_context = Some (showNat (length rws) @ '' rows '' @ [CHR 0xD7] @ '' ''
                 @ (case firstSize of None \<Rightarrow> ''undefined'' | Some s \<Rightarrow> showNat s)
                 @ '' columns of textboxes'')\<rparr>]
           else [])"

definition validateBackgroundElement :: "SlideElement \<Rightarrow> int \<Rightarrow> AccessibilityIssue list" where
  "validateBackgroundElement element n =
     (if el_type element = E_image \<and> \<not> isDecorative element then
        [\<lparr>issue_id = ''slide-'' @ showInt n @ ''-bg-'' @ el_id element @ ''-not-decorative'',
          issue_type = background_not_decorative, severity = Sev_info,
          slideNumber = Some n, elementId = Some (el_id element),
          elementType = Some (el_type element),
          message = ''Background image should be marked as decorative'',
          messageDE = Some ''Hintergrundbild sollte als dekorativ markiert sein'',
          wcagCriteria = None, pdfuaClause = Some ''7.18'',
          suggestion = Some ''Mark background images as decorative (artifact)'',
          suggestionDE = Some ''Markieren Sie Hintergrundbilder als dekorativ (Artefakt)'',
          autoFixable = True, issue_context = None\<rparr>]
      else [])"

subsection \<open>One slide, and the issues the model already carries\<close>

definition validateSlide :: "Slide \<Rightarrow> AccessibilityIssue list" where
  "validateSlide slide =
     validateSlideTitle slide @
     validateReadingOrder slide @
     concat (map (\<lambda>element. validateElement element (slide_number slide)) (elements slide)) @
     validatePseudoTables slide @
     concat (map (\<lambda>bgElement. validateBackgroundElement bgElement (slide_number slide))
                 (backgroundElements slide))"

definition collectPresentationIssues :: "Presentation \<Rightarrow> AccessibilityIssue list" where
  "collectPresentationIssues p =
     pres_issues p @
     concat (map (\<lambda>slide. slide_issues slide @ concat (map el_issues (elements slide)))
                 (slides p))"

subsection \<open>Report\<close>

text \<open>The filter with its growing \<^verbatim>\<open>seen\<close> set: the first issue of each id is kept.\<close>

fun dedupFrom :: "string set \<Rightarrow> AccessibilityIssue list \<Rightarrow> AccessibilityIssue list" where
  "dedupFrom seen [] = []"
| "dedupFrom seen (i # rest) =
     (if issue_id i \<in> seen then dedupFrom seen rest
      else i # dedupFrom (insert (issue_id i) seen) rest)"

definition deduplicateIssues :: "AccessibilityIssue list \<Rightarrow> AccessibilityIssue list" where
  "deduplicateIssues is = dedupFrom {} is"

definition calculateScore :: "int \<Rightarrow> int \<Rightarrow> int \<Rightarrow> int" where
  "calculateScore errors warnings infos =
     (let score0 = 100;
          score1 = score0 - errors * 15;
          score2 = score1 - warnings * 5;
          score3 = score2 - infos * 1
      in max 0 score3)"

definition determineConformance :: "int \<Rightarrow> int \<Rightarrow> Conformance" where
  "determineConformance errors warnings =
     (if errors = 0 \<and> warnings = 0 then
        \<lparr>wcagLevel = Wcag_AAA, pdfuaLevel = PdfUa_1, bitvConformant = True\<rparr>
      else if errors = 0 then
        \<lparr>wcagLevel = Wcag_AA, pdfuaLevel = PdfUa_1, bitvConformant = True\<rparr>
      else if errors \<le> 3 then
        \<lparr>wcagLevel = Wcag_A, pdfuaLevel = PdfUa_partial, bitvConformant = False\<rparr>
      else
        \<lparr>wcagLevel = Wcag_none, pdfuaLevel = PdfUa_none, bitvConformant = False\<rparr>)"

definition slideNumberTruthy :: "AccessibilityIssue \<Rightarrow> bool" where
  "slideNumberTruthy i = (case slideNumber i of None \<Rightarrow> False | Some n \<Rightarrow> n \<noteq> 0)"

definition bullet :: string where
  "bullet = [CHR 0xE2, CHR 0x80, CHR 0xA2]"

definition checkMark :: string where
  "checkMark = [CHR 0xE2, CHR 0x9C, CHR 0x85]"

definition errorLines :: "AccessibilityIssue \<Rightarrow> string list" where
  "errorLines i =
     [bullet @ '' '' @ message i] @
     (if slideNumberTruthy i then [''  Slide: '' @ showInt (the (slideNumber i))] else []) @
     (if truthy (wcagCriteria i) then [''  WCAG: '' @ the (wcagCriteria i)] else []) @
     [[]]"

definition warningLines :: "AccessibilityIssue \<Rightarrow> string list" where
  "warningLines i =
     [bullet @ '' '' @ message i] @
     (if slideNumberTruthy i then [''  Slide: '' @ showInt (the (slideNumber i))] else []) @
     [[]]"

definition generateSummary ::
  "Presentation \<Rightarrow> js_date \<Rightarrow> int \<Rightarrow> int \<Rightarrow> AccessibilityIssue list \<Rightarrow> string" where
  "generateSummary p now errors warnings is =
     joinLines
       ([''=== Accessibility Report ==='' @ [CHR 0x0A],
         ''Document: '' @ (if md_title (metadata p) \<noteq> [] then md_title (metadata p) else ''Untitled''),
         ''Date: '' @ isoString now @ [CHR 0x0A]] @
        (if errors = 0 \<and> warnings = 0
         then [checkMark @ '' No accessibility issues found.'' @ [CHR 0x0A]]
         else [''Found '' @ showInt errors @ '' error(s) and '' @ showInt warnings @ '' warning(s).'' @ [CHR 0x0A]]) @
        (if errors > 0
         then [''--- Errors (must fix) ---''] @
              concat (map errorLines (filter (\<lambda>i. severity i = Sev_error) is))
         else []) @
        (if warnings > 0
         then [''--- Warnings (should fix) ---''] @
              concat (map warningLines (filter (\<lambda>i. severity i = Sev_warning) is))
         else []))"

text \<open>The German titles of the WCAG criteria table.\<close>

definition wcagTitleDE :: "string \<Rightarrow> string" where
  "wcagTitleDE c =
     (if c = ''1.1.1'' then ''Nicht-Text-Inhalt''
      else if c = ''1.3.1'' then ''Informationen und Beziehungen''
      else if c = ''1.3.2'' then ''Bedeutungstragende Reihenfolge''
      else if c = ''1.4.3'' then ''Kontrast (Minimum)''
      else if c = ''2.4.2'' then ''Seite mit Titel versehen''
      else if c = ''2.4.4'' then ''Linkzweck (im Kontext)''
      else if c = ''2.4.6'' then [CHR 0xDC] @ ''berschriften und Beschriftungen''
      else if c = ''3.1.1'' then ''Sprache der Seite''
      else if c = ''3.1.2'' then ''Sprache von Teilen''
      else if c = ''4.1.2'' then ''Name, Rolle, Wert''
      else [])"

definition messageOrDE :: "AccessibilityIssue \<Rightarrow> string" where
  "messageOrDE i = (if truthy (messageDE i) then the (messageDE i) else message i)"

definition errorLinesDE :: "AccessibilityIssue \<Rightarrow> string list" where
  "errorLinesDE i =
     [bullet @ '' '' @ messageOrDE i] @
     (if slideNumberTruthy i then [''  Folie: '' @ showInt (the (slideNumber i))] else []) @
     (if truthy (wcagCriteria i)
      then [''  WCAG: '' @ the (wcagCriteria i) @ '' - '' @ wcagTitleDE (the (wcagCriteria i))]
      else []) @
     (if truthy (suggestionDE i) then [''  Empfehlung: '' @ the (suggestionDE i)] else []) @
     [[]]"

definition warningLinesDE :: "AccessibilityIssue \<Rightarrow> string list" where
  "warningLinesDE i =
     [bullet @ '' '' @ messageOrDE i] @
     (if slideNumberTruthy i then [''  Folie: '' @ showInt (the (slideNumber i))] else []) @
     (if truthy (suggestionDE i) then [''  Empfehlung: '' @ the (suggestionDE i)] else []) @
     [[]]"

definition generateSummaryDE ::
  "Presentation \<Rightarrow> js_date \<Rightarrow> int \<Rightarrow> int \<Rightarrow> AccessibilityIssue list \<Rightarrow> string" where
  "generateSummaryDE p now errors warnings is =
     joinLines
       ([''=== Barrierefreiheits-Pr'' @ [CHR 0xFC] @ ''fbericht ==='' @ [CHR 0x0A],
         ''Dokument: '' @ (if md_title (metadata p) \<noteq> [] then md_title (metadata p) else ''Ohne Titel''),
         ''Datum: '' @ localeDateStringDE now @ [CHR 0x0A]] @
        (if errors = 0 \<and> warnings = 0
         then [checkMark @ '' Keine Barrierefreiheitsprobleme gefunden.'' @ [CHR 0x0A]]
         else [showInt errors @ '' Fehler und '' @ showInt warnings @ '' Warnungen gefunden.'' @ [CHR 0x0A]]) @
        (if errors > 0
         then [''--- Fehler (m'' @ [CHR 0xFC] @ ''ssen behoben werden) ---''] @
              concat (map errorLinesDE (filter (\<lambda>i. severity i = Sev_error) is))
         else []) @
        (if warnings > 0
         then [''--- Warnungen (sollten behoben werden) ---''] @
              concat (map warningLinesDE (filter (\<lambda>i. severity i = Sev_warning) is))
         else []))"

definition generateRecommendations :: "AccessibilityIssue list \<Rightarrow> string list" where
  "generateRecommendations is =
     (let issueTypes = set (map issue_type is) in
      (if missing_alt_text \<in> issueTypes
       then [''Add alternative text to all meaningful images. In PowerPoint: Right-click image > Edit Alt Text.'']
       else []) @
      (if missing_title \<in> issueTypes \<or> missing_document_title \<in> issueTypes
       then [''Ensure all slides have titles and the document has a title. This aids navigation with assistive technology.'']
       else []) @
      (if table_missing_headers \<in> issueTypes
       then [''Mark table headers properly. In PowerPoint: Table Design > Header Row checkbox.'']
       else []) @
      (if reading_order_unclear \<in> issueTypes
       then [''Review reading order using the Selection Pane (Home > Arrange > Selection Pane).'']
       else []) @
      (if pseudo_table \<in> issueTypes
       then [''Convert text boxes arranged as tables into real tables for proper structure and accessibility.'']
       else []) @
      (if missing_language \<in> issueTypes
       then [''Set the document language in File > Options > Language.'']
       else []))"

definition countSeverity :: "Severity \<Rightarrow> AccessibilityIssue list \<Rightarrow> int" where
  "countSeverity sev is = int (length (filter (\<lambda>i. severity i = sev) is))"

text \<open>The report of the issues collected so far. The clock is read three times: by the
  English summary, for the \<^verbatim>\<open>timestamp\<close> field, and by the German summary.\<close>

definition generateReport ::
  "Presentation \<Rightarrow> js_clock \<Rightarrow> AccessibilityIssue list \<Rightarrow> AccessibilityReport" where
  "generateReport p clock is =
     (let uniqueIssues = deduplicateIssues is;
          errorCount = countSeverity Sev_error uniqueIssues;
          warningCount = countSeverity Sev_warning uniqueIssues;
          infoCount = countSeverity Sev_info uniqueIssues;
          score = calculateScore errorCount warningCount infoCount;
          conf = determineConformance errorCount warningCount;
          summaryText = generateSummary p (clock 0) errorCount warningCount uniqueIssues
      in \<lparr>timestamp = clock 1,
          documentTitle = (if md_title (metadata p) \<noteq> [] then md_title (metadata p) else ''Unbenannt''),
          issues = uniqueIssues,
          summary = \<lparr>sum_total = int (length uniqueIssues), sum_errors = errorCount,
                     sum_warnings = warningCount, sum_info = infoCount,
                     sum_autoFixable = int (length (filter autoFixable uniqueIssues))\<rparr>,
          conformance = conf,
          overallScore = score,
          report_wcagLevel = wcagLevel conf,
          pdfuaConformant = (errorCount = 0),
          recommendations = generateRecommendations uniqueIssues,
          report_stats = stats p,
          reportText = summaryText,
          reportTextDE = generateSummaryDE p (clock 2) errorCount warningCount uniqueIssues\<rparr>)"

text \<open>All issues of a run before deduplication, in the order they are pushed.\<close>

definition allIssues :: "Presentation \<Rightarrow> AccessibilityIssue list" where
  "allIssues p =
     validateDocument p @ concat (map validateSlide (slides p)) @ collectPresentationIssues p"

text \<open>The profile is stored by the constructor and read by no check.\<close>

definition validate :: "Presentation \<Rightarrow> ConversionProfile \<Rightarrow> js_clock \<Rightarrow> AccessibilityReport" where
  "validate p profile clock = generateReport p clock (allIssues p)"

section \<open>Tagged-document generator\<close>

text \<open>
  The generator keeps an in-memory structure tree beside the document it draws. The model
  carries what \<^verbatim>\<open>generate\<close> leaves in the document information dictionary, the catalog
  markers, the bookmarks, the structure tree, and on every page the drawing calls (text
  lines and rectangles) it has made there.
\<close>

datatype AttributeValue = PageRef nat | AttrString string

datatype PDFStructureElement =
  StructElem (se_role: SemanticRole) (se_kids: "PDFStructureElement list")
    (se_attributes: "(string \<times> AttributeValue) list option")
    (se_actualText: "string option") (se_altText: "string option") (se_lang: "string option")

record GeneratorOptions =
  opt_profile :: "ConversionProfile option"
  opt_documentTitle :: "string option"
  opt_language :: "string option"
  opt_includeBookmarks :: "bool option"
  opt_embedFonts :: "bool option"

definition generatorDefaultProfile :: ConversionProfile where
  "generatorDefaultProfile =
     \<lparr>profile_name = ''Standard'', profile_id = ''standard'',
      tagMapping = [(E_title, Role_H1), (E_subtitle, Role_H2), (E_body, Role_P),
                    (E_list, Role_L), (E_listItem, Role_LI), (E_table, Role_Table),
                    (E_image, Role_Figure), (E_chart, Role_Figure), (E_smartart, Role_Figure)],
      autoFixOptions = \<lparr>generateMissingAltText = False, markUncaptionedAsDecorative = False,
                         fixEmptyTitles = True, setDocumentLanguage = True,
                         fixReadingOrder = True, convertPseudoTables = False\<rparr>,
      exportOptions = \<lparr>pdfVersion = ''1.7'', pdfUaConformance = ''PDF/UA-1'', embedFonts = True,
                        includeBookmarks = True, includeLinks = True, taggedPdf = True,
                        linearized = False\<rparr>\<rparr>"

text \<open>The constructor: the options as given by the caller (every field optional) become
  the options the generator keeps.\<close>

definition newPdfUaGenerator :: "GeneratorOptions \<Rightarrow> GeneratorOptions" where
  "newPdfUaGenerator options =
     \<lparr>opt_profile = Some (case opt_profile options of Some pr \<Rightarrow> pr | None \<Rightarrow> generatorDefaultProfile),
      opt_documentTitle = opt_documentTitle options,
      opt_language = (if truthy (opt_language options) then opt_language options else Some ''de''),
      opt_includeBookmarks = Some (case opt_includeBookmarks options of Some b \<Rightarrow> b | None \<Rightarrow> True),
      opt_embedFonts = Some (case opt_embedFonts options of Some b \<Rightarrow> b | None \<Rightarrow> True)\<rparr>"

record PdfInfo =
  info_title :: "string option"
  info_language :: "string option"
  info_author :: "string option"
  info_subject :: "string option"
  info_keywords :: "string list option"
  info_creator :: "string option"
  info_producer :: "string option"
  info_creationDate :: "js_date option"
  info_modificationDate :: "js_date option"

definition emptyInfo :: PdfInfo where
  "emptyInfo =
     \<lparr>info_title = None, info_language = None, info_author = None, info_subject = None,
      info_keywords = None, info_creator = None, info_producer = None,
      info_creationDate = None, info_modificationDate = None\<rparr>"

definition setMetadata :: "GeneratorOptions \<Rightarrow> js_clock \<Rightarrow> Presentation \<Rightarrow> PdfInfo \<Rightarrow> PdfInfo" where
  "setMetadata opts clock p doc =
     (let ttl = (if truthy (opt_documentTitle opts) then the (opt_documentTitle opts)
                 else if md_title (metadata p) \<noteq> [] then md_title (metadata p)
                 else ''Unbenannte Pr'' @ [CHR 0xE4] @ ''sentation'');
          lang = (if truthy (opt_language opts) then the (opt_language opts)
                  else if md_language (metadata p) \<noteq> [] then md_language (metadata p)
                  else ''de'');
          doc1 = doc\<lparr>info_title := Some ttl, info_language := Some lang\<rparr>;
          doc2 = (if truthy (md_author (metadata p))
                  then doc1\<lparr>info_author := md_author (metadata p)\<rparr> else doc1);
          doc3 = (if truthy (md_subject (metadata p))
                  then doc2\<lparr>info_subject := md_subject (metadata p)\<rparr> else doc2);
          doc4 = (if md_keywords (metadata p) \<noteq> None
                  then doc3\<lparr>info_keywords := md_keywords (metadata p)\<rparr> else doc3)
      in doc4\<lparr>info_creator := Some ''Barrierefreiheit-Plattform PDF/UA Generator'',
              info_producer := Some ''Barrierefreiheit-Plattform (https://barrierefreiheit.example.de)'',
              info_creationDate := Some (clock 0),
              info_modificationDate := Some (clock 1)\<rparr>)"

definition setPdfUaIdentifier :: "PdfInfo \<Rightarrow> PdfInfo" where
  "setPdfUaIdentifier doc =
     (let existingSubject = (if truthy (info_subject doc) then the (info_subject doc) else [])
      in doc\<lparr>info_subject :=
               Some (existingSubject @ (if existingSubject \<noteq> [] then '' | '' else [])
                     @ ''PDF/UA-1 (ISO 14289-1)'')\<rparr>)"

subsection \<open>Reading order\<close>

text \<open>\<^verbatim>\<open>new Map(elements.map(e => [e.id, e]))\<close>: a later element replaces an earlier one of
  the same id, so a lookup finds the last element carrying the id.\<close>

definition elementMap :: "SlideElement list \<Rightarrow> string \<Rightarrow> SlideElement option" where
  "elementMap es = map_of (rev (map (\<lambda>e. (el_id e, e)) es))"

definition getOrderedElements :: "Slide \<Rightarrow> SlideElement list" where
  "getOrderedElements slide =
     List.map_filter (elementMap (elements slide)) (readingOrder slide) @
     filter (\<lambda>element. el_id element \<notin> set (readingOrder slide)) (elements slide)"

subsection \<open>Page content\<close>

text \<open>
  The drawing calls a page receives, in the order in which they are made. The fonts are
  the four standard fonts that \<^verbatim>\<open>loadFonts\<close> embeds under the keys \<^verbatim>\<open>regular\<close>,
  \<^verbatim>\<open>bold\<close>, \<^verbatim>\<open>italic\<close> and \<^verbatim>\<open>boldItalic\<close>. The width of a text in a font at a size
  (\<^verbatim>\<open>font.widthOfTextAtSize\<close>) is a matter of the PDF library: it is the parameter
  \<open>fonts\<close> of the operations below. The library's own treatment of the strings it is asked
  to draw (their encoding, and its refusal of characters the font cannot encode) is not
  part of the model.
\<close>

datatype FontKey = Font_regular | Font_bold | Font_italic | Font_boldItalic

type_synonym FontMetrics = "FontKey \<Rightarrow> string \<Rightarrow> rat \<Rightarrow> rat"

datatype Color = RGB rat rat rat

datatype DrawOp =
    DrawText (op_string: string) (op_x: rat) (op_y: rat) (op_size: rat) (op_font: FontKey)
      (op_color: Color)
  | DrawRectangle (op_left: rat) (op_bottom: rat) (op_width: rat) (op_height: rat)
      (op_borderWidth: "rat option") (op_borderColor: "Color option") (op_fill: Color)
      (op_opacity: "rat option")

text \<open>\<^verbatim>\<open>COLORS\<close> and \<^verbatim>\<open>DEFAULTS\<close>.\<close>

definition colorText :: Color where
  "colorText = RGB (1 / 10) (1 / 10) (1 / 10)"

definition colorHeading :: Color where
  "colorHeading = RGB 0 (294 / 1000) (463 / 1000)"

definition pageWidth :: rat where
  "pageWidth = 84189 / 100"

definition pageHeight :: rat where
  "pageHeight = 59528 / 100"

definition margin :: rat where
  "margin = 50"

definition titleSize :: rat where
  "titleSize = 28"

definition subtitleSize :: rat where
  "subtitleSize = 20"

definition bodySize :: rat where
  "bodySize = 12"

definition lineHeightFactor :: rat where
  "lineHeightFactor = 14 / 10"

text \<open>\<^verbatim>\<open>a || b\<close> on numbers: zero is falsy.\<close>

definition orDefault :: "rat \<Rightarrow> rat \<Rightarrow> rat" where
  "orDefault a b = (if a = 0 then b else a)"

text \<open>\<^verbatim>\<open>sanitizeForWinAnsi\<close>. Of the keys of the replacement table only the two guillemets
  are code units of the model; the final removal of the characters above \<^verbatim>\<open>0xFF\<close> removes
  nothing there.\<close>

definition sanitizeForWinAnsi :: "string \<Rightarrow> string" where
  "sanitizeForWinAnsi txt =
     concat (map (\<lambda>c. if c = CHR 0xAB then ''<<'' else if c = CHR 0xBB then ''>>'' else [c]) txt)"

text \<open>\<^verbatim>\<open>s.split(/\s+/)\<close>: the pieces between the maximal runs of white space; a run at
  either end leaves an empty piece there. \<open>inGap\<close> tells that the previous character was
  white space, \<open>piece\<close> is the piece read so far.\<close>

fun splitWhiteSpace :: "bool \<Rightarrow> string \<Rightarrow> string \<Rightarrow> string list" where
  "splitWhiteSpace inGap piece [] = [piece]"
| "splitWhiteSpace inGap piece (c # cs) =
     (if isWhiteSpace c
      then (if inGap then splitWhiteSpace True piece cs else piece # splitWhiteSpace True [] cs)
      else splitWhiteSpace False (piece @ [c]) cs)"

text \<open>\<^verbatim>\<open>wrapText\<close>: one step of the loop over the words, on the pair of the lines pushed so
  far and the current line; then the function.\<close>

definition wrapStep ::
  "FontMetrics \<Rightarrow> FontKey \<Rightarrow> rat \<Rightarrow> rat \<Rightarrow> string list \<times> string \<Rightarrow> string \<Rightarrow> string list \<times> string" where
  "wrapStep fonts font fontSize maxWidth st word =
     (let currentLine = snd st;
          testLine = (if currentLine \<noteq> [] then currentLine @ '' '' @ word else word);
          width = fonts font testLine fontSize
      in if width > maxWidth \<and> currentLine \<noteq> [] then (fst st @ [currentLine], word)
         else (fst st, testLine))"

definition wrapText :: "FontMetrics \<Rightarrow> string \<Rightarrow> FontKey \<Rightarrow> rat \<Rightarrow> rat \<Rightarrow> string list" where
  "wrapText fonts txt font fontSize maxWidth =
     (let sanitizedText = sanitizeForWinAnsi txt;
          wrds = splitWhiteSpace False [] sanitizedText;
          st = foldl (wrapStep fonts font fontSize maxWidth) ([], []) wrds;
          lns = (if snd st \<noteq> [] then fst st @ [snd st] else fst st)
      in if lns \<noteq> [] then lns else [[]])"

text \<open>The loop of the text renderers: step down one line, then draw it. The result is the
  drawing calls and the last baseline.\<close>

fun drawLinesBelow ::
  "rat \<Rightarrow> rat \<Rightarrow> rat \<Rightarrow> rat \<Rightarrow> FontKey \<Rightarrow> Color \<Rightarrow> string list \<Rightarrow> DrawOp list \<times> rat" where
  "drawLinesBelow x y lineHeight fontSize font color [] = ([], y)"
| "drawLinesBelow x y lineHeight fontSize font color (line # rest) =
     (let y1 = y - lineHeight;
          r = drawLinesBelow x y1 lineHeight fontSize font color rest
      in (DrawText line x y1 fontSize font color # fst r, snd r))"

text \<open>The loop of the figure renderers and of the list items: draw a line, then step down.
  The result is the drawing calls and the baseline after the last step.\<close>

fun drawLinesFrom ::
  "rat \<Rightarrow> rat \<Rightarrow> rat \<Rightarrow> rat \<Rightarrow> FontKey \<Rightarrow> Color \<Rightarrow> string list \<Rightarrow> DrawOp list \<times> rat" where
  "drawLinesFrom x y lineHeight fontSize font color [] = ([], y)"
| "drawLinesFrom x y lineHeight fontSize font color (line # rest) =
     (let r = drawLinesFrom x (y - lineHeight) lineHeight fontSize font color rest
      in (DrawText line x y fontSize font color # fst r, snd r))"

subsection \<open>Rendering the elements\<close>

text \<open>What a renderer returns, together with the drawing calls it has made on the page.\<close>

record Rendered =
  r_drawn :: "DrawOp list"
  r_structure :: PDFStructureElement
  r_nextY :: rat

definition textOrEmpty :: "SlideElement \<Rightarrow> string" where
  "textOrEmpty element =
     (if truthy (content_text (content element)) then the (content_text (content element)) else [])"

definition renderTitle :: "FontMetrics \<Rightarrow> GeneratorOptions \<Rightarrow> SlideElement \<Rightarrow> rat \<Rightarrow> Rendered" where
  "renderTitle fonts opts element startY =
     (let font = Font_bold; txt = textOrEmpty element; fontSize = titleSize;
          lineHeight = fontSize * (12 / 10);
          maxWidth = pageWidth - 2 * margin;
          lns = wrapText fonts txt font fontSize maxWidth;
          d = drawLinesBelow margin startY lineHeight fontSize font colorHeading lns
      in \<lparr>r_drawn = fst d,
          r_structure = StructElem Role_H1 [] None (Some txt) None (opt_language opts),
          r_nextY = snd d - fontSize * (1 / 2)\<rparr>)"

definition renderSubtitle :: "FontMetrics \<Rightarrow> GeneratorOptions \<Rightarrow> SlideElement \<Rightarrow> rat \<Rightarrow> Rendered" where
  "renderSubtitle fonts opts element startY =
     (let font = Font_bold; txt = textOrEmpty element; fontSize = subtitleSize;
          lineHeight = fontSize * (12 / 10);
          maxWidth = pageWidth - 2 * margin;
          lns = wrapText fonts txt font fontSize maxWidth;
          d = drawLinesBelow margin startY lineHeight fontSize font colorHeading lns
      in \<lparr>r_drawn = fst d,
          r_structure = StructElem Role_H2 [] None (Some txt) None (opt_language opts),
          r_nextY = snd d - fontSize * (4 / 10)\<rparr>)"

definition renderParagraph :: "FontMetrics \<Rightarrow> GeneratorOptions \<Rightarrow> SlideElement \<Rightarrow> rat \<Rightarrow> Rendered" where
  "renderParagraph fonts opts element startY =
     (let font = Font_regular; txt = textOrEmpty element; fontSize = bodySize;
          lineHeight = fontSize * lineHeightFactor;
          lns = wrapText fonts txt font fontSize (pageWidth - 2 * margin);
          d = drawLinesBelow margin startY lineHeight fontSize font colorText lns
      in \<lparr>r_drawn = fst d,
          r_structure = StructElem Role_P [] None (Some txt) None (opt_language opts),
          r_nextY = snd d - fontSize * (1 / 2)\<rparr>)"

text \<open>The loop over the items of a list, from item \<open>i\<close> at height \<open>y\<close>: the drawing calls,
  the \<open>LI\<close> nodes, and the height after the last item.\<close>

fun renderListItems ::
  "FontMetrics \<Rightarrow> nat \<Rightarrow> rat \<Rightarrow> ListItem list \<Rightarrow> DrawOp list \<times> PDFStructureElement list \<times> rat" where
  "renderListItems fonts i y [] = ([], [], y)"
| "renderListItems fonts i y (item # rest) =
     (let font = Font_regular; fontSize = bodySize; lineHeight = fontSize * lineHeightFactor;
          indent = 20;
          y1 = y - lineHeight;
          bulletText = (if item_listType item = ''ordered'' then showNat (i + 1) @ ''.'' else ''-'');
          bulletIndent = rat_of_int (item_level item) * indent;
          bulletOp = DrawText (sanitizeForWinAnsi bulletText) (margin + bulletIndent) y1 fontSize font
                       colorText;
          textX = margin + bulletIndent + 15;
          lns = wrapText fonts (item_text item) font fontSize
                  (pageWidth - 2 * margin - bulletIndent - 15);
          d = drawLinesFrom textX y1 lineHeight fontSize font colorText lns;
          y2 = snd d + lineHeight;
          liStructure =
            StructElem Role_LI
              [StructElem Role_Lbl [] None (Some bulletText) None None,
               StructElem Role_LBody [] None (Some (item_text item)) None None]
              None None None None;
          r = renderListItems fonts (Suc i) y2 rest
      in (bulletOp # fst d @ fst r, liStructure # fst (snd r), snd (snd r)))"

definition renderList :: "FontMetrics \<Rightarrow> GeneratorOptions \<Rightarrow> SlideElement \<Rightarrow> rat \<Rightarrow> Rendered" where
  "renderList fonts opts element startY =
     (let r = renderListItems fonts 0 startY
                (case listData element of None \<Rightarrow> [] | Some ld \<Rightarrow> items ld)
      in \<lparr>r_drawn = fst r,
          r_structure = StructElem Role_L (fst (snd r)) None None None (opt_language opts),
          r_nextY = snd (snd r) - bodySize * (1 / 2)\<rparr>)"

text \<open>The cells of a table row from column \<open>colIndex\<close>, with the row's lower edge at \<open>y\<close>: for
  each cell its frame, its text cut to 50 characters, and its node.\<close>

fun renderCells ::
  "bool \<Rightarrow> rat \<Rightarrow> rat \<Rightarrow> nat \<Rightarrow> TableCell list \<Rightarrow> DrawOp list \<times> PDFStructureElement list" where
  "renderCells isHeaderRow colWidth y colIndex [] = ([], [])"
| "renderCells isHeaderRow colWidth y colIndex (cell # rest) =
     (let fontSize = bodySize; cellPadding = 8; rowHeight = fontSize * 2 + cellPadding * 2;
          x = margin + rat_of_nat colIndex * colWidth;
          cellFont = (if cell_isHeader cell \<or> isHeaderRow then Font_bold else Font_regular);
          frame = DrawRectangle x y colWidth rowHeight (Some (1 / 2))
                    (Some (RGB (7 / 10) (7 / 10) (7 / 10)))
                    (if isHeaderRow then RGB (95 / 100) (95 / 100) (95 / 100) else RGB 1 1 1) None;
          textY = y + rowHeight / 2 - fontSize / 3;
          label = DrawText (sanitizeForWinAnsi (take 50 (cell_content cell))) (x + cellPadding) textY
                    fontSize cellFont colorText;
          cellStructure =
            StructElem (if cell_isHeader cell \<or> isHeaderRow then Role_TH else Role_TD) []
              (if truthy (cell_scope cell)
               then Some [(''Scope'', AttrString (the (cell_scope cell)))] else None)
              (Some (cell_content cell)) None None;
          r = renderCells isHeaderRow colWidth y (Suc colIndex) rest
      in (frame # label # fst r, cellStructure # snd r))"

fun renderRows ::
  "TableData \<Rightarrow> rat \<Rightarrow> nat \<Rightarrow> rat \<Rightarrow> TableCell list list \<Rightarrow>
     DrawOp list \<times> PDFStructureElement list \<times> rat" where
  "renderRows td colWidth rowIndex y [] = ([], [], y)"
| "renderRows td colWidth rowIndex y (row # rest) =
     (let rowHeight = bodySize * 2 + 8 * 2;
          isHeaderRow = (rowIndex = 0 \<and> hasHeaderRow td);
          y1 = y - rowHeight;
          c = renderCells isHeaderRow colWidth y1 0 row;
          rowStructure = StructElem Role_TR (snd c) None None None None;
          r = renderRows td colWidth (Suc rowIndex) y1 rest
      in (fst c @ fst r, rowStructure # fst (snd r), snd (snd r)))"

definition renderTable :: "FontMetrics \<Rightarrow> GeneratorOptions \<Rightarrow> SlideElement \<Rightarrow> rat \<Rightarrow> Rendered" where
  "renderTable fonts opts element startY =
     (case tableData element of
        None \<Rightarrow>
          \<lparr>r_drawn = [], r_structure = StructElem Role_Table [] None None None None,
           r_nextY = startY\<rparr>
      | Some td \<Rightarrow>
          (let availableWidth = pageWidth - 2 * margin;
               colWidth = availableWidth / orDefault (rat_of_int (td_columns td)) 1;
               r = renderRows td colWidth 0 startY (td_cells td)
           in \<lparr>r_drawn = fst r,
               r_structure = StructElem Role_Table (fst (snd r)) None None None (opt_language opts),
               r_nextY = snd (snd r) - bodySize * (1 / 2)\<rparr>))"

text \<open>The placeholder box of an image, a chart or a SmartArt graphic: a rectangle below
  \<open>startY\<close> that is high enough for the wrapped text, and the text lines inside it.\<close>

definition renderImage :: "FontMetrics \<Rightarrow> GeneratorOptions \<Rightarrow> SlideElement \<Rightarrow> rat \<Rightarrow> Rendered" where
  "renderImage fonts opts element startY =
     (let width = min (orDefault (pos_width (position element)) 200) (pageWidth - 2 * margin);
          alt = (if truthy (altText (content element)) then the (altText (content element))
                 else ''[Bild ohne Alternativtext]'');
          font = Font_italic; fontSize = 10; lineHeight = fontSize * (14 / 10); textPadding = 10;
          maxTextWidth = width - 2 * textPadding;
          lns = wrapText fonts alt font fontSize maxTextWidth;
          textBlockHeight = rat_of_nat (length lns) * lineHeight + 2 * textPadding;
          minHeight = orDefault (pos_height (position element)) 150;
          height = max minHeight textBlockHeight;
          y = startY - height;
          box = DrawRectangle margin y width height (Some 1) (Some (RGB (8 / 10) (8 / 10) (8 / 10)))
                  (RGB (95 / 100) (95 / 100) (95 / 100)) None;
          d = drawLinesFrom (margin + textPadding) (y + height - textPadding - fontSize) lineHeight
                fontSize font (RGB (1 / 2) (1 / 2) (1 / 2)) lns
      in \<lparr>r_drawn = box # fst d,
          r_structure = StructElem Role_Figure [] None None (Some alt) (opt_language opts),
          r_nextY = y - 10\<rparr>)"

definition renderChart :: "FontMetrics \<Rightarrow> GeneratorOptions \<Rightarrow> SlideElement \<Rightarrow> rat \<Rightarrow> Rendered" where
  "renderChart fonts opts element startY =
     (let width = min (orDefault (pos_width (position element)) 300) (pageWidth - 2 * margin);
          font = Font_italic; fontSize = 10; lineHeight = fontSize * (14 / 10); textPadding = 10;
          maxTextWidth = width - 2 * textPadding;
          alt = (if truthy (altText (content element)) then the (altText (content element))
                 else ''[Diagramm ohne Beschreibung]'');
          displayText = ''[Diagramm] '' @ alt;
          lns = wrapText fonts displayText font fontSize maxTextWidth;
          textBlockHeight = rat_of_nat (length lns) * lineHeight + 2 * textPadding;
          minHeight = orDefault (pos_height (position element)) 200;
          height = max minHeight textBlockHeight;
          y = startY - height;
          box = DrawRectangle margin y width height (Some 1) (Some colorHeading)
                  (RGB (98 / 100) (98 / 100) 1) None;
          d = drawLinesFrom (margin + textPadding) (y + height - textPadding - fontSize) lineHeight
                fontSize font colorHeading lns
      in \<lparr>r_drawn = box # fst d,
          r_structure =
            StructElem Role_Figure [] None None
              (Some (if truthy (altText (content element)) then the (altText (content element))
                     else if truthy (longDescription (content element))
                          then the (longDescription (content element))
                     else ''Diagramm''))
              (opt_language opts),
          r_nextY = y - 10\<rparr>)"

definition renderSmartArt :: "FontMetrics \<Rightarrow> GeneratorOptions \<Rightarrow> SlideElement \<Rightarrow> rat \<Rightarrow> Rendered" where
  "renderSmartArt fonts opts element startY =
     (let width = min (orDefault (pos_width (position element)) 300) (pageWidth - 2 * margin);
          font = Font_regular; fontSize = 10; lineHeight = fontSize * (14 / 10); textPadding = 10;
          maxTextWidth = width - 2 * textPadding;
          alt = (if truthy (altText (content element)) then the (altText (content element))
                 else ''[SmartArt-Grafik]'');
          lns = wrapText fonts alt font fontSize maxTextWidth;
          textBlockHeight = rat_of_nat (length lns) * lineHeight + 2 * textPadding;
          minHeight = orDefault (pos_height (position element)) 200;
          height = max minHeight textBlockHeight;
          y = startY - height;
          box = DrawRectangle margin y width height (Some 1) (Some (RGB (7 / 10) (7 / 10) (7 / 10)))
                  (RGB (97 / 100) (97 / 100) (97 / 100)) None;
          d = drawLinesFrom (margin + textPadding) (y + height - textPadding - fontSize) lineHeight
                fontSize font colorText lns
      in \<lparr>r_drawn = box # fst d,
          r_structure =
            StructElem (if truthy (altText (content element)) then Role_Figure else Role_L) [] None
              None (altText (content element)) (opt_language opts),
          r_nextY = y - 10\<rparr>)"

definition renderElement :: "FontMetrics \<Rightarrow> GeneratorOptions \<Rightarrow> SlideElement \<Rightarrow> rat \<Rightarrow> Rendered" where
  "renderElement fonts opts element startY =
     (case el_type element of
        E_title \<Rightarrow> renderTitle fonts opts element startY
      | E_subtitle \<Rightarrow> renderSubtitle fonts opts element startY
      | E_body \<Rightarrow> renderParagraph fonts opts element startY
      | E_paragraph \<Rightarrow> renderParagraph fonts opts element startY
      | E_textbox \<Rightarrow> renderParagraph fonts opts element startY
      | E_list \<Rightarrow> renderList fonts opts element startY
      | E_table \<Rightarrow> renderTable fonts opts element startY
      | E_image \<Rightarrow> renderImage fonts opts element startY
      | E_chart \<Rightarrow> renderChart fonts opts element startY
      | E_smartart \<Rightarrow> renderSmartArt fonts opts element startY
      | _ \<Rightarrow> renderParagraph fonts opts element startY)"

text \<open>\<^verbatim>\<open>renderArtifact\<close>: the drawing calls made for a decorative element. Only an image is
  drawn, as a pale rectangle at the element's position.\<close>

definition renderArtifact :: "SlideElement \<Rightarrow> DrawOp list" where
  "renderArtifact element =
     (if el_type element = E_image then
        (let width = min (orDefault (pos_width (position element)) 100) 200;
             height = orDefault (pos_height (position element)) 100;
             x = orDefault (pos_x (position element)) margin;
             y = orDefault (pageHeight - pos_y (position element) - height) margin
         in [DrawRectangle x y width height None None (RGB (9 / 10) (9 / 10) (9 / 10))
               (Some (3 / 10))])
      else [])"

text \<open>The loop of \<^verbatim>\<open>renderSlide\<close> over the ordered elements, from height \<open>y\<close>: a decorative
  element is handed to \<^verbatim>\<open>renderArtifact\<close> and the loop continues; any other element is
  rendered, its structure element is pushed onto the page's kids, and the next element
  starts below it. The result is the drawing calls of the page and the kids.\<close>

fun renderElements ::
  "FontMetrics \<Rightarrow> GeneratorOptions \<Rightarrow> rat \<Rightarrow> SlideElement list \<Rightarrow>
     DrawOp list \<times> PDFStructureElement list" where
  "renderElements fonts opts y [] = ([], [])"
| "renderElements fonts opts y (element # rest) =
     (if isDecorative element then
        (let r = renderElements fonts opts y rest in (renderArtifact element @ fst r, snd r))
      else
        (let renderedElement = renderElement fonts opts element y;
             r = renderElements fonts opts (r_nextY renderedElement) rest
         in (r_drawn renderedElement @ fst r, r_structure renderedElement # snd r)))"

record Bookmark =
  bm_title :: string
  bm_pageIndex :: nat

record GeneratorState =
  gs_info :: PdfInfo
  gs_pageCount :: nat
  gs_pages :: "DrawOp list list"
  gs_structureTree :: "PDFStructureElement list"
  gs_bookmarks :: "Bookmark list"
  gs_marked :: bool
  gs_displayDocTitle :: bool

definition renderSlide ::
  "FontMetrics \<Rightarrow> GeneratorOptions \<Rightarrow> GeneratorState \<Rightarrow> Slide \<Rightarrow> GeneratorState" where
  "renderSlide fonts opts st slide =
     (let pageIndex = gs_pageCount st;
          orderedElements = getOrderedElements slide;
          r = renderElements fonts opts (pageHeight - margin) orderedElements;
          pageStructure =
            StructElem Role_Part (snd r) (Some [(''Pg'', PageRef pageIndex)]) None None None;
          titleElement = find (\<lambda>e. el_type e = E_title) orderedElements;
          newBookmarks =
            (case titleElement of
               None \<Rightarrow> []
             | Some t \<Rightarrow>
                 (if truthy (content_text (content t))
                  then [\<lparr>bm_title = the (content_text (content t)), bm_pageIndex = pageIndex\<rparr>]
                  else []))
      in st\<lparr>gs_pageCount := Suc pageIndex,
             gs_pages := gs_pages st @ [fst r],
             gs_structureTree := gs_structureTree st @ [pageStructure],
             gs_bookmarks := gs_bookmarks st @ newBookmarks\<rparr>)"

definition initialState :: GeneratorState where
  "initialState =
     \<lparr>gs_info = emptyInfo, gs_pageCount = 0, gs_pages = [], gs_structureTree = [],
      gs_bookmarks = [], gs_marked = False, gs_displayDocTitle = False\<rparr>"

text \<open>\<^verbatim>\<open>generate\<close>, up to the call of the library's \<^verbatim>\<open>save\<close>: the state of the document
  and of the generator when the bytes are written.\<close>

definition generate ::
  "FontMetrics \<Rightarrow> GeneratorOptions \<Rightarrow> js_clock \<Rightarrow> Presentation \<Rightarrow> GeneratorState" where
  "generate fonts opts clock p =
     (let st1 = initialState\<lparr>gs_info := setMetadata opts clock p emptyInfo\<rparr>;
          st2 = foldl (renderSlide fonts opts) st1 (slides p);
          st3 = st2\<lparr>gs_marked := True, gs_displayDocTitle := True\<rparr>
      in st3\<lparr>gs_info := setPdfUaIdentifier (gs_info st3)\<rparr>)"

text \<open>\<^verbatim>\<open>generateAccessiblePdf(presentation, options)\<close>.\<close>

definition generateAccessiblePdf ::
  "FontMetrics \<Rightarrow> Presentation \<Rightarrow> GeneratorOptions \<Rightarrow> js_clock \<Rightarrow> GeneratorState" where
  "generateAccessiblePdf fonts p options clock =
     generate fonts (newPdfUaGenerator options) clock p"

text \<open>No option given at all: \<^verbatim>\<open>new PdfUaGenerator()\<close>.\<close>

definition noOptions :: GeneratorOptions where
  "noOptions =
     \<lparr>opt_profile = None, opt_documentTitle = None, opt_language = None,
      opt_includeBookmarks = None, opt_embedFonts = None\<rparr>"

text \<open>The options the conversion route builds from the parsed model and the selected
  profile.\<close>

definition routeOptions :: "ConversionProfile \<Rightarrow> Presentation \<Rightarrow> GeneratorOptions" where
  "routeOptions conversionProfile p =
     \<lparr>opt_profile = Some conversionProfile,
      opt_documentTitle = Some (md_title (metadata p)),
      opt_language = Some (md_language (metadata p)),
      opt_includeBookmarks = Some (includeBookmarks (exportOptions conversionProfile)),
      opt_embedFonts = Some (embedFonts (exportOptions conversionProfile))\<rparr>"

section \<open>Structural parser\<close>

text \<open>
  The XML of a slide as the XML reader hands it over: a node is a record of the children
  and attributes the parser looks up, each optional. An attribute holding a length is
  given by its integer value (\<^verbatim>\<open>parseInt\<close> of a well-formed attribute).

  The reader hands over an element that has neither attributes nor children as the empty
  string. Every lookup in it yields \<^verbatim>\<open>undefined\<close> and every test of it fails, so at all
  places but one such an element is not told apart from an absent one: it is \<^term>\<open>None\<close>.
  (In particular \<open>rPr_hlinkClick = None\<close> stands for a run without a hyperlink node or
  with an empty one, and \<open>Some None\<close> for a hyperlink node that has attributes but no
  relationship id.) The one place is the list of paragraphs, where \<^verbatim>\<open>indexOf\<close> compares
  the entries: there an empty paragraph is the entry \<^term>\<open>None\<close>, and a paragraph with
  content is an object of its own.
\<close>

record xml_rPr =
  rPr_b :: bool
  rPr_i :: bool
  rPr_u :: bool
  rPr_hlinkClick :: "string option option"

record xml_run =
  run_t :: "string list option"
  run_rPr :: "xml_rPr option"

record xml_paragraph =
  par_runs :: "xml_run list option"

record xml_txBody =
  tx_paragraphs :: "xml_paragraph option list option"

record xml_ext =
  adec_decorative :: "string option option"

record xml_cNvPr =
  cnv_id :: "string option"
  cnv_name :: "string option"
  cnv_descr :: "string option"
  cnv_title :: "string option"
  cnv_extLst :: "xml_ext list option option"

record xml_xfrm =
  off_x :: "int option"
  off_y :: "int option"
  ext_cx :: "int option"
  ext_cy :: "int option"

record xml_spPr =
  a_xfrm :: "xml_xfrm option"

record xml_nvSpPr =
  nv_cNvPr :: "xml_cNvPr option"
  nv_phType :: "string option"

record xml_sp =
  sp_nvSpPr :: "xml_nvSpPr option"
  sp_spPr :: "xml_spPr option"
  sp_txBody :: "xml_txBody option"

record xml_pic =
  pic_nvPicPr :: "xml_cNvPr option option"
  pic_spPr :: "xml_spPr option"

record xml_tc =
  tc_txBody :: "xml_txBody option"

record xml_tr =
  tr_cells :: "xml_tc list option"

record xml_tbl =
  tbl_rows :: "xml_tr list option"

text \<open>\<^verbatim>\<open>EMU_TO_PX = 914400 / 96\<close>.\<close>

definition EMU_TO_PX :: rat where
  "EMU_TO_PX = 914400 / 96"

definition extractPosition :: "xml_spPr option \<Rightarrow> Position" where
  "extractPosition spPr =
     (let xfrm = (case spPr of None \<Rightarrow> None | Some sp \<Rightarrow> a_xfrm sp);
          attr = (\<lambda>sel. case xfrm of None \<Rightarrow> 0
                          | Some xf \<Rightarrow> (case sel xf of None \<Rightarrow> 0 | Some v \<Rightarrow> rat_of_int v))
      in \<lparr>pos_x = attr off_x / EMU_TO_PX, pos_y = attr off_y / EMU_TO_PX,
          pos_width = attr ext_cx / EMU_TO_PX, pos_height = attr ext_cy / EMU_TO_PX,
          pos_zOrder = 0\<rparr>)"

definition runText :: "xml_run \<Rightarrow> string" where
  "runText r = (case run_t r of None \<Rightarrow> [] | Some ts \<Rightarrow> concat ts)"

definition runRich :: "xml_run \<Rightarrow> RichTextRun" where
  "runRich r =
     \<lparr>run_text = runText r,
      run_bold = (case run_rPr r of None \<Rightarrow> False | Some pr \<Rightarrow> rPr_b pr),
      run_italic = (case run_rPr r of None \<Rightarrow> False | Some pr \<Rightarrow> rPr_i pr),
      run_underline = (case run_rPr r of None \<Rightarrow> False | Some pr \<Rightarrow> rPr_u pr)\<rparr>"

definition paragraphRuns :: "xml_paragraph option \<Rightarrow> xml_run list" where
  "paragraphRuns par =
     (case par of None \<Rightarrow> []
      | Some q \<Rightarrow> (case par_runs q of None \<Rightarrow> [] | Some rs \<Rightarrow> rs))"

text \<open>\<^verbatim>\<open>paragraphs.indexOf(p)\<close> for the paragraph \<open>p\<close> met at index \<open>i\<close>: an object is found
  at its own index, the empty string at the index of the first empty paragraph.\<close>

definition indexOfParagraph ::
  "xml_paragraph option list \<Rightarrow> nat \<Rightarrow> xml_paragraph option \<Rightarrow> nat" where
  "indexOfParagraph paragraphs i par =
     (case par of Some q \<Rightarrow> i | None \<Rightarrow> length (takeWhile (\<lambda>q. q \<noteq> None) paragraphs))"

text \<open>The loop over the paragraphs: the text of the runs, then a line break when the
  paragraph is found before the last index.\<close>

fun paragraphsFrom ::
  "xml_paragraph option list \<Rightarrow> nat \<Rightarrow> xml_paragraph option list \<Rightarrow> string" where
  "paragraphsFrom paragraphs i [] = []"
| "paragraphsFrom paragraphs i (par # rest) =
     concat (map runText (paragraphRuns par)) @
     (if indexOfParagraph paragraphs i par < length paragraphs - 1 then [CHR 0x0A] else []) @
     paragraphsFrom paragraphs (Suc i) rest"

definition paragraphsText :: "xml_paragraph option list \<Rightarrow> string" where
  "paragraphsText paragraphs = paragraphsFrom paragraphs 0 paragraphs"

definition bodyParagraphs :: "xml_txBody option \<Rightarrow> xml_paragraph option list" where
  "bodyParagraphs txBody =
     (case txBody of None \<Rightarrow> []
      | Some b \<Rightarrow> (case tx_paragraphs b of None \<Rightarrow> [] | Some ps \<Rightarrow> ps))"

definition extractTextContent :: "xml_txBody option \<Rightarrow> string \<times> RichTextRun list" where
  "extractTextContent txBody =
     (paragraphsText (bodyParagraphs txBody),
      map runRich (concat (map paragraphRuns (bodyParagraphs txBody))))"

text \<open>The first extension that carries the decorative marker decides.\<close>

fun decorativeIn :: "xml_ext list \<Rightarrow> bool" where
  "decorativeIn [] = False"
| "decorativeIn (ext # rest) =
     (case adec_decorative ext of
        Some v \<Rightarrow> (v = Some ''1'' \<or> v = Some ''true'')
      | None \<Rightarrow> decorativeIn rest)"

definition extractDecorativeFlag :: "xml_ext list option option \<Rightarrow> bool" where
  "extractDecorativeFlag extLst =
     (case extLst of None \<Rightarrow> False
      | Some exts \<Rightarrow> decorativeIn (case exts of None \<Rightarrow> [] | Some es \<Rightarrow> es))"

record AltTextInfo =
  ati_altText :: "string option"
  ati_isDecorative :: bool
  ati_longDescription :: "string option"

definition extractAltText :: "xml_cNvPr option \<Rightarrow> AltTextInfo" where
  "extractAltText cNvPr =
     (case cNvPr of
        None \<Rightarrow> \<lparr>ati_altText = None, ati_isDecorative = False, ati_longDescription = None\<rparr>
      | Some c \<Rightarrow>
          (let descr = cnv_descr c; ttl = cnv_title c;
               decorative = extractDecorativeFlag (cnv_extLst c)
           in \<lparr>ati_altText = or_else descr ttl,
               ati_isDecorative = (decorative \<or> descr = Some [] \<or> descr = Some '' ''),
               ati_longDescription = (if truthy ttl \<and> truthy descr then descr else None)\<rparr>))"

definition determineAltTextStatus :: "string option \<Rightarrow> bool \<Rightarrow> ElementType \<Rightarrow> AltTextStatus" where
  "determineAltTextStatus alt decorative elementType' =
     (if decorative then Alt_decorative
      else if \<not> truthy alt then Alt_missing
      else if trim (the alt) = [] then Alt_missing
      else Alt_present)"

text \<open>\<^verbatim>\<open>s.includes(sub)\<close>.\<close>

fun includesStr :: "string \<Rightarrow> string \<Rightarrow> bool" where
  "includesStr [] sub = (sub = [])"
| "includesStr (c # cs) sub = (take (length sub) (c # cs) = sub \<or> includesStr cs sub)"

definition placeholderTypeMap :: "(string \<times> ElementType) list" where
  "placeholderTypeMap =
     [(''title'', E_title), (''ctrTitle'', E_title), (''subTitle'', E_subtitle),
      (''body'', E_body), (''dt'', E_date), (''ftr'', E_footer), (''sldNum'', E_slideNumber)]"

definition mapPlaceholderToType :: "string \<Rightarrow> string \<Rightarrow> ElementType" where
  "mapPlaceholderToType phType name =
     (case map_of placeholderTypeMap phType of
        Some t \<Rightarrow> t
      | None \<Rightarrow>
          (let lowerName = toLowerCase name in
           if includesStr lowerName ''title'' then E_title
           else if includesStr lowerName ''subtitle'' then E_subtitle
           else if includesStr lowerName ''content'' \<or> includesStr lowerName ''body'' then E_body
           else E_textbox))"

definition mapTypeToRole :: "ElementType \<Rightarrow> SemanticRole" where
  "mapTypeToRole t =
     (case t of
        E_title \<Rightarrow> Role_H1 | E_subtitle \<Rightarrow> Role_H2 | E_body \<Rightarrow> Role_P | E_paragraph \<Rightarrow> Role_P
      | E_list \<Rightarrow> Role_L | E_listItem \<Rightarrow> Role_LI | E_table \<Rightarrow> Role_Table
      | E_image \<Rightarrow> Role_Figure | E_shape \<Rightarrow> Role_Figure | E_chart \<Rightarrow> Role_Figure
      | E_smartart \<Rightarrow> Role_Figure | E_group \<Rightarrow> Role_Sect | E_textbox \<Rightarrow> Role_P
      | E_footer \<Rightarrow> Role_Artifact | E_slideNumber \<Rightarrow> Role_Artifact | E_date \<Rightarrow> Role_Artifact
      | E_unknown \<Rightarrow> Role_Span)"

text \<open>The relationship id of the first run that carries a hyperlink node with content.\<close>

fun firstHyperlink :: "xml_run list \<Rightarrow> string option" where
  "firstHyperlink [] = None"
| "firstHyperlink (r # rest) =
     (case run_rPr r of
        None \<Rightarrow> firstHyperlink rest
      | Some pr \<Rightarrow> (case rPr_hlinkClick pr of Some rid \<Rightarrow> rid | None \<Rightarrow> firstHyperlink rest))"

definition extractHyperlink :: "xml_txBody option \<Rightarrow> string option" where
  "extractHyperlink txBody = firstHyperlink (concat (map paragraphRuns (bodyParagraphs txBody)))"

text \<open>\<^verbatim>\<open>parseShape\<close>. The argument \<open>now\<close> is the reading of \<^verbatim>\<open>Date.now()\<close> used when the node
  has no id; the result is \<^term>\<open>None\<close> where the source returns \<^verbatim>\<open>null\<close>.\<close>

definition parseShape :: "int \<Rightarrow> xml_sp \<Rightarrow> int \<Rightarrow> SlideElement option" where
  "parseShape now shp slideNo =
     (case sp_nvSpPr shp of
        None \<Rightarrow> None
      | Some nvSpPr \<Rightarrow>
          (let cNvPr = nv_cNvPr nvSpPr;
               idAttr = (case cNvPr of None \<Rightarrow> None | Some c \<Rightarrow> cnv_id c);
               ident = (if truthy idAttr then the idAttr else ''shape-'' @ showInt now);
               nameAttr = (case cNvPr of None \<Rightarrow> None | Some c \<Rightarrow> cnv_name c);
               name = (if truthy nameAttr then the nameAttr else []);
               phType = (if truthy (nv_phType nvSpPr) then the (nv_phType nvSpPr) else []);
               elementType' = mapPlaceholderToType phType name;
               role = mapTypeToRole elementType';
               pos = extractPosition (sp_spPr shp);
               tc = extractTextContent (sp_txBody shp);
               alt = extractAltText cNvPr;
               link = extractHyperlink (sp_txBody shp);
               found =
                 (if elementType' = E_title \<and> trim (fst tc) = [] then
                    [\<lparr>issue_id = ''issue-'' @ ident @ ''-empty-title'', issue_type = missing_title,
                      severity = Sev_error, slideNumber = Some slideNo, elementId = Some ident,
                      elementType = Some elementType',
                      message = ''Slide title is empty'', messageDE = Some ''Folientitel ist leer'',
                      wcagCriteria = Some ''2.4.2'', pdfuaClause = Some ''7.1'',
                      suggestion = Some ''Add a meaningful title to the slide'',
                      suggestionDE = Some (''F'' @ [CHR 0xFC] @ ''gen Sie einen aussagekr'' @ [CHR 0xE4] @ ''ftigen Titel hinzu''),
                      autoFixable = False, issue_context = None\<rparr>]
                  else [])
           in Some
                \<lparr>el_id = ident, el_type = elementType', semanticRole = role, position = pos,
                 content = \<lparr>content_text = Some (fst tc), richText = Some (snd tc),
                            altText = ati_altText alt,
                            altTextStatus = determineAltTextStatus (ati_altText alt)
                                              (ati_isDecorative alt) elementType',
                            longDescription = None\<rparr>,
                 isDecorative = ati_isDecorative alt, isGrouped = False, groupId = None,
                 hyperlink = link, tableData = None, listData = None, el_issues = found\<rparr>))"

definition parsePicture :: "int \<Rightarrow> xml_pic \<Rightarrow> int \<Rightarrow> SlideElement option" where
  "parsePicture now pic slideNo =
     (case pic_nvPicPr pic of
        None \<Rightarrow> None
      | Some cNvPr \<Rightarrow>
          (let idAttr = (case cNvPr of None \<Rightarrow> None | Some c \<Rightarrow> cnv_id c);
               ident = (if truthy idAttr then the idAttr else ''pic-'' @ showInt now);
               nameAttr = (case cNvPr of None \<Rightarrow> None | Some c \<Rightarrow> cnv_name c);
               name = (if truthy nameAttr then the nameAttr else []);
               alt = extractAltText cNvPr;
               pos = extractPosition (pic_spPr pic);
               status = determineAltTextStatus (ati_altText alt) (ati_isDecorative alt) E_image;
               found =
                 (if status = Alt_missing \<and> \<not> ati_isDecorative alt then
                    [\<lparr>issue_id = ''issue-'' @ ident @ ''-missing-alt'', issue_type = missing_alt_text,
                      severity = Sev_error, slideNumber = Some slideNo, elementId = Some ident,
                      elementType = Some E_image,
                      message = ''Image '' @ [CHR 0x22] @ name @ [CHR 0x22] @ '' is missing alt text'',
                      messageDE = Some (''Bild '' @ [CHR 0x22] @ name @ [CHR 0x22] @ '' hat keinen Alternativtext''),
                      wcagCriteria = Some ''1.1.1'', pdfuaClause = Some ''7.3'',
                      suggestion = Some ''Add descriptive alt text or mark as decorative'',
                      suggestionDE = Some (''F'' @ [CHR 0xFC] @ ''gen Sie beschreibenden Alt-Text hinzu oder markieren Sie als dekorativ''),
                      autoFixable = False, issue_context = Some name\<rparr>]
                  else [])
           in Some
                \<lparr>el_id = ident, el_type = E_image,
                 semanticRole = (if ati_isDecorative alt then Role_Artifact else Role_Figure),
                 position = pos,
                 content = \<lparr>content_text = None, richText = None, altText = ati_altText alt,
                            altTextStatus = status,
                            longDescription = ati_longDescription alt\<rparr>,
                 isDecorative = ati_isDecorative alt, isGrouped = False, groupId = None,
                 hyperlink = None, tableData = None, listData = None, el_issues = found\<rparr>))"

subsection \<open>Tables\<close>

definition rowCells :: "xml_tr \<Rightarrow> xml_tc list" where
  "rowCells row = (case tr_cells row of None \<Rightarrow> [] | Some cs \<Rightarrow> cs)"

definition parseCell :: "nat \<Rightarrow> xml_tc \<Rightarrow> TableCell" where
  "parseCell rowIndex cell =
     (let tc = extractTextContent (tc_txBody cell); isHeader = (rowIndex = 0)
      in \<lparr>cell_content = fst tc, cell_richText = snd tc, cell_isHeader = isHeader,
          cell_scope = (if isHeader then Some ''col'' else None)\<rparr>)"

text \<open>The loop over the rows, threading the table data: the first row fixes the column
  count; every cell of the first row sets the header flag; the row's cells are pushed.\<close>

fun parseRows :: "nat \<Rightarrow> xml_tr list \<Rightarrow> TableData \<Rightarrow> TableData" where
  "parseRows rowIndex [] td = td"
| "parseRows rowIndex (row # rest) td =
     (let cells = rowCells row;
          td1 = (if rowIndex = 0 then td\<lparr>td_columns := int (length cells)\<rparr> else td);
          td2 = (if rowIndex = 0 \<and> cells \<noteq> [] then td1\<lparr>hasHeaderRow := True\<rparr> else td1);
          td3 = td2\<lparr>td_cells := td_cells td2 @ [map (parseCell rowIndex) cells]\<rparr>
      in parseRows (Suc rowIndex) rest td3)"

text \<open>\<^verbatim>\<open>parseTable\<close>. Its \<open>xfrm\<close> argument is the frame's transform node, which
  \<^verbatim>\<open>extractPosition\<close> reads as it reads a shape's properties.\<close>

definition parseTable :: "xml_tbl \<Rightarrow> string \<Rightarrow> xml_spPr option \<Rightarrow> int \<Rightarrow> SlideElement" where
  "parseTable tbl ident xfrm slideNo =
     (let rws = (case tbl_rows tbl of None \<Rightarrow> [] | Some rs \<Rightarrow> rs);
          td0 = \<lparr>td_rows = int (length rws), td_columns = 0, td_cells = [],
                 hasHeaderRow = False, hasHeaderColumn = False\<rparr>;
          td = parseRows 0 rws td0;
          found =
            (if \<not> hasHeaderRow td \<and> td_rows td > 1 then
               [\<lparr>issue_id = ''issue-'' @ ident @ ''-no-header'', issue_type = table_missing_headers,
                 severity = Sev_warning, slideNumber = Some slideNo, elementId = Some ident,
                 elementType = Some E_table,
                 message = ''Table has no header row defined'',
                 messageDE = Some ''Tabelle hat keine Kopfzeile definiert'',
                 wcagCriteria = Some ''1.3.1'', pdfuaClause = Some ''7.5'',
                 suggestion = Some ''Mark the first row as table header'',
                 suggestionDE = Some ''Markieren Sie die erste Zeile als Tabellenkopf'',
                 autoFixable = True, issue_context = None\<rparr>]
             else [])
      in \<lparr>el_id = ident, el_type = E_table, semanticRole = Role_Table,
          position = extractPosition xfrm,
          content = \<lparr>content_text = None, richText = None, altText = None,
                     altTextStatus = Alt_present, longDescription = None\<rparr>,
          isDecorative = False, isGrouped = False, groupId = None, hyperlink = None,
          tableData = Some td, listData = None, el_issues = found\<rparr>)"

section \<open>Notions used to state the properties\<close>

text \<open>The ids the overlap check of \<^const>\<open>validateReadingOrder\<close> builds for a presentation.\<close>

definition overlapIds :: "Presentation \<Rightarrow> string set" where
  "overlapIds p = issue_id ` set (concat (map overlapIssues (slides p)))"

text \<open>The ids the overlap check would build for the same overlapping pairs with the two
  elements of each pair taken in the other order.\<close>

definition swappedOverlapIds :: "Presentation \<Rightarrow> string set" where
  "swappedOverlapIds p =
     issue_id ` set (concat (map (\<lambda>slide.
        map (\<lambda>pr. overlapIssue (slide_number slide) (snd pr, fst pr))
            (findOverlappingElements (elements slide))) (slides p)))"

text \<open>The issues the validator's own checks create (before the issues carried by the model
  are appended).\<close>

definition ruleIssues :: "Presentation \<Rightarrow> AccessibilityIssue list" where
  "ruleIssues p = validateDocument p @ concat (map validateSlide (slides p))"

text \<open>The id of a finding as a function of check type, slide number and element id.\<close>

definition checkId :: "IssueType \<Rightarrow> int option \<Rightarrow> string option \<Rightarrow> string" where
  "checkId t n e =
     (let sl = ''slide-'' @ showInt (case n of Some k \<Rightarrow> k | None \<Rightarrow> 0);
          el = (case e of Some x \<Rightarrow> x | None \<Rightarrow> [])
      in case t of
           missing_document_title \<Rightarrow> ''doc-no-title''
         | missing_language \<Rightarrow> ''doc-no-language''
         | missing_metadata \<Rightarrow> ''doc-no-author''
         | missing_title \<Rightarrow> sl @ ''-no-title''
         | reading_order_unclear \<Rightarrow> sl @ ''-order-uncertain''
         | empty_element \<Rightarrow> sl @ ''-'' @ el @ ''-empty''
         | missing_alt_text \<Rightarrow> sl @ ''-'' @ el @ ''-no-alt''
         | insufficient_alt_text \<Rightarrow> sl @ ''-'' @ el @ ''-poor-alt''
         | table_missing_headers \<Rightarrow> sl @ ''-'' @ el @ ''-no-header''
         | table_empty_cells \<Rightarrow> sl @ ''-'' @ el @ ''-empty-cells''
         | unclear_link_text \<Rightarrow> sl @ ''-'' @ el @ ''-unclear-link''
         | pseudo_table \<Rightarrow> sl @ ''-pseudo-table''
         | background_not_decorative \<Rightarrow> sl @ ''-bg-'' @ el @ ''-not-decorative''
         | _ \<Rightarrow> [])"

text \<open>Two slides that differ at most in the order of their elements.\<close>

definition elementsPermuted :: "Slide \<Rightarrow> Slide \<Rightarrow> bool" where
  "elementsPermuted s s' =
     (s' = s\<lparr>elements := elements s'\<rparr> \<and> mset (elements s') = mset (elements s))"

text \<open>\<open>precedes xs a b\<close>: some occurrence of \<open>a\<close> in the list comes before some occurrence
  of \<open>b\<close>.\<close>

fun precedes :: "'a list \<Rightarrow> 'a \<Rightarrow> 'a \<Rightarrow> bool" where
  "precedes [] a b = False"
| "precedes (x # xs) a b = ((x = a \<and> b \<in> set xs) \<or> precedes xs a b)"

text \<open>The second slide lists every two overlapping elements of the first in the same
  relative order as the first does.\<close>

definition overlapOrderKept :: "Slide \<Rightarrow> Slide \<Rightarrow> bool" where
  "overlapOrderKept s s' =
     (\<forall>a \<in> set (elements s). \<forall>b \<in> set (elements s).
        overlap a b \<longrightarrow> (precedes (elements s') a b \<longleftrightarrow> precedes (elements s) a b))"

text \<open>An element that overlaps another element of the slide; and two slides of which the
  first lists no element twice and the second lists the elements that overlap another one
  in the same order as the first (so that only elements that overlap nothing else have
  moved among them).\<close>

definition overlapsAnother :: "Slide \<Rightarrow> SlideElement \<Rightarrow> bool" where
  "overlapsAnother s e = (\<exists>x \<in> set (elements s). x \<noteq> e \<and> overlap e x)"

definition unrelatedMoved :: "Slide \<Rightarrow> Slide \<Rightarrow> bool" where
  "unrelatedMoved s s' =
     (distinct (elements s) \<and>
      filter (overlapsAnother s) (elements s') = filter (overlapsAnother s) (elements s))"

text \<open>A document whose metadata gives the document check nothing to report: a title that is
  not blank, a language tag, an author.\<close>

definition documentDescribed :: "Presentation \<Rightarrow> bool" where
  "documentDescribed p =
     (trim (md_title (metadata p)) \<noteq> [] \<and> 2 \<le> length (md_language (metadata p)) \<and>
      md_language (metadata p) \<noteq> ''und'' \<and> trimmed_truthy (md_author (metadata p)))"

text \<open>A text element that gives the element checks nothing to report: neither an image, a
  chart, a SmartArt graphic nor a table; no hyperlink; a text that is not blank; no finding
  carried from the parser.\<close>

definition quietElement :: "SlideElement \<Rightarrow> bool" where
  "quietElement e =
     (el_type e \<noteq> E_image \<and> el_type e \<noteq> E_chart \<and> el_type e \<noteq> E_smartart \<and>
      el_type e \<noteq> E_table \<and> \<not> truthy (hyperlink e) \<and>
      trimmed_truthy (content_text (content e)) \<and> el_issues e = [])"

text \<open>No element of the list overlaps a later one.\<close>

fun noOverlap :: "SlideElement list \<Rightarrow> bool" where
  "noOverlap [] = True"
| "noOverlap (e # es) = ((\<forall>e' \<in> set es. \<not> overlap e e') \<and> noOverlap es)"

text \<open>A slide that gives the slide-level checks nothing to report: it has a title element
  with a text that is not blank, its reading order confidence is at least 0.7, no two of
  its elements overlap, every background image is decorative, and it carries no finding
  of the parser.\<close>

definition quietSlide :: "Slide \<Rightarrow> bool" where
  "quietSlide s =
     ((\<exists>e \<in> set (elements s). el_type e = E_title \<and> trimmed_truthy (content_text (content e))) \<and>
      7 / 10 \<le> readingOrderConfidence s \<and> noOverlap (elements s) \<and>
      (\<forall>b \<in> set (backgroundElements s). el_type b = E_image \<longrightarrow> isDecorative b) \<and>
      slide_issues s = [])"

definition textBoxes :: "Slide \<Rightarrow> SlideElement list" where
  "textBoxes s = filter (\<lambda>e. el_type e = E_textbox) (elements s)"

text \<open>The text boxes lie in \<open>r\<close> row bands of \<open>c\<close> boxes each.\<close>

definition isGrid :: "nat \<Rightarrow> nat \<Rightarrow> SlideElement list \<Rightarrow> bool" where
  "isGrid r c tbs =
     (length (remdups (map rowKey tbs)) = r \<and>
      (\<forall>k \<in> set (map rowKey tbs). length (filter (\<lambda>tb. rowKey tb = k) tbs) = c))"

section \<open>Sample inputs\<close>

definition epoch :: js_date where
  "epoch = \<lparr>timeValue = 0, isoString = ''1970-01-01T00:00:00.000Z'',
            localeDateStringDE = ''1.1.1970''\<rparr>"

definition nextDay :: js_date where
  "nextDay = \<lparr>timeValue = 86400000, isoString = ''1970-01-02T00:00:00.000Z'',
              localeDateStringDE = ''2.1.1970''\<rparr>"

definition clockAt :: "js_date \<Rightarrow> js_clock" where
  "clockAt d = (\<lambda>k. d)"

text \<open>Font metrics in which every character is half as wide as the font is high.\<close>

definition halfEm :: FontMetrics where
  "halfEm font txt fontSize = rat_of_nat (length txt) * fontSize / 2"

text \<open>The validator's own default profile (\<^verbatim>\<open>getDefaultProfile\<close>).\<close>

definition validatorDefaultProfile :: ConversionProfile where
  "validatorDefaultProfile =
     \<lparr>profile_name = ''Standard'', profile_id = ''standard'', tagMapping = [],
      autoFixOptions = \<lparr>generateMissingAltText = False, markUncaptionedAsDecorative = False,
                         fixEmptyTitles = False, setDocumentLanguage = True,
                         fixReadingOrder = False, convertPseudoTables = False\<rparr>,
      exportOptions = \<lparr>pdfVersion = ''1.7'', pdfUaConformance = ''PDF/UA-1'', embedFonts = True,
                        includeBookmarks = True, includeLinks = True, taggedPdf = True,
                        linearized = False\<rparr>\<rparr>"

definition sampleIssue :: "string \<Rightarrow> Severity \<Rightarrow> AccessibilityIssue" where
  "sampleIssue ident sev =
     \<lparr>issue_id = ident, issue_type = flattened_content, severity = sev, slideNumber = Some 1,
      elementId = None, elementType = None, message = ''Sample finding'', messageDE = None,
      wcagCriteria = None, pdfuaClause = None, suggestion = None, suggestionDE = None,
      autoFixable = False, issue_context = None\<rparr>"

definition sampleMetadata :: "string \<Rightarrow> string \<Rightarrow> Metadata" where
  "sampleMetadata ttl lang =
     \<lparr>md_title = ttl, md_author = Some ''Referat Z1'', md_subject = None, md_keywords = None,
      md_language = lang, md_createdDate = None, md_modifiedDate = None\<rparr>"

definition noStats :: PresentationStats where
  "noStats =
     \<lparr>totalElements = 0, imagesWithAltText = 0, imagesWithoutAltText = 0, decorativeImages = 0,
      tables = 0, lists = 0, links = 0\<rparr>"

text \<open>An element of the given id and type with its top left corner at \<open>(x, y)\<close>, 150 wide
  and 50 high, carrying the given text.\<close>

definition sampleElement ::
  "string \<Rightarrow> ElementType \<Rightarrow> rat \<Rightarrow> rat \<Rightarrow> string option \<Rightarrow> SlideElement" where
  "sampleElement ident t x y txt =
     \<lparr>el_id = ident, el_type = t, semanticRole = Role_P,
      position = \<lparr>pos_x = x, pos_y = y, pos_width = 150, pos_height = 50, pos_zOrder = 0\<rparr>,
      content = \<lparr>content_text = txt, richText = None, altText = None,
                 altTextStatus = (if t = E_image then Alt_missing else Alt_present),
                 longDescription = None\<rparr>,
      isDecorative = False, isGrouped = False, groupId = None, hyperlink = None,
      tableData = None, listData = None, el_issues = []\<rparr>"

definition sampleSlide :: "int \<Rightarrow> SlideElement list \<Rightarrow> Slide" where
  "sampleSlide n es =
     \<lparr>slide_number = n, slide_id = ''slide-'' @ showInt n, elements = es,
      readingOrder = map el_id es, readingOrderConfidence = 1, backgroundElements = [],
      slide_issues = []\<rparr>"

definition samplePresentation :: "Slide list \<Rightarrow> Presentation" where
  "samplePresentation ss =
     \<lparr>metadata = sampleMetadata ''Jahresbericht'' ''de'', slides = ss, pres_issues = [],
      stats = noStats\<rparr>"

text \<open>Three slides: a title slide; a slide with a title and an image that has neither a
  description nor a title attribute; a slide with a title and six text boxes in two rows
  of three.\<close>

definition scenarioSlides :: "Slide list" where
  "scenarioSlides =
     [sampleSlide 1 [sampleElement ''t1'' E_title 0 0 (Some ''Bericht'')],
      sampleSlide 2 [sampleElement ''t2'' E_title 0 0 (Some ''Lage''),
                     sampleElement ''img1'' E_image 0 100 None],
      sampleSlide 3 [sampleElement ''t3'' E_title 0 0 (Some ''Zahlen''),
                     sampleElement ''b11'' E_textbox 0 100 (Some ''Jahr''),
                     sampleElement ''b12'' E_textbox 200 100 (Some ''Plan''),
                     sampleElement ''b13'' E_textbox 400 100 (Some ''Ist''),
                     sampleElement ''b21'' E_textbox 0 200 (Some ''2024''),
                     sampleElement ''b22'' E_textbox 200 200 (Some ''10''),
                     sampleElement ''b23'' E_textbox 400 200 (Some ''12'')]]"

definition scenarioPresentation :: Presentation where
  "scenarioPresentation = samplePresentation scenarioSlides"

text \<open>The same three slides with the image of slide 2 as the parser builds it from a picture
  node that has an id and a name but neither a description nor a title.\<close>

definition barePicture :: xml_pic where
  "barePicture =
     \<lparr>pic_nvPicPr = Some (Some \<lparr>cnv_id = Some ''4'', cnv_name = Some ''Grafik 3'',
                                    cnv_descr = None, cnv_title = None, cnv_extLst = None\<rparr>),
      pic_spPr = Some \<lparr>a_xfrm = Some \<lparr>off_x = Some 0, off_y = Some 952500,
                                         ext_cx = Some 1428750, ext_cy = Some 476250\<rparr>\<rparr>\<rparr>"

definition parsedScenario :: Presentation where
  "parsedScenario =
     samplePresentation
       [scenarioSlides ! 0,
        sampleSlide 2 [sampleElement ''t2'' E_title 0 0 (Some ''Lage''),
                       the (parsePicture 0 barePicture 2)],
        scenarioSlides ! 2]"

text \<open>Two text elements whose boxes intersect, in both orders.\<close>

definition overlapAB :: Presentation where
  "overlapAB =
     samplePresentation
       [sampleSlide 1 [sampleElement ''a'' E_title 0 0 (Some ''Titel''),
                       sampleElement ''b'' E_paragraph 100 20 (Some ''Text'')]]"

definition overlapBA :: Presentation where
  "overlapBA =
     samplePresentation
       [(sampleSlide 1 [sampleElement ''a'' E_title 0 0 (Some ''Titel''),
                        sampleElement ''b'' E_paragraph 100 20 (Some ''Text'')])
          \<lparr>elements := [sampleElement ''b'' E_paragraph 100 20 (Some ''Text''),
                        sampleElement ''a'' E_title 0 0 (Some ''Titel'')]\<rparr>]"

text \<open>Three text elements, the first two of which intersect while the third lies apart,
  and the same slide with the third element moved to the front.\<close>

definition threeBoxes :: "SlideElement list" where
  "threeBoxes =
     [sampleElement ''a'' E_title 0 0 (Some ''Titel''),
      sampleElement ''b'' E_paragraph 100 20 (Some ''Text''),
      sampleElement ''c'' E_paragraph 0 300 (Some ''Fazit'')]"

definition overlapABC :: Presentation where
  "overlapABC = samplePresentation [sampleSlide 1 threeBoxes]"

definition overlapCAB :: "Slide list" where
  "overlapCAB =
     [(sampleSlide 1 threeBoxes)\<lparr>elements := [threeBoxes ! 2, threeBoxes ! 0, threeBoxes ! 1]\<rparr>]"

text \<open>A shape node without an id attribute that holds one run of text, and the slide the
  parser builds from a title placeholder and a text box of that kind when it reads both
  within one millisecond: both elements receive the same fallback id, and the reading
  order lists the ids of the elements.\<close>

definition idlessShape :: "string \<Rightarrow> string option \<Rightarrow> string \<Rightarrow> xml_sp" where
  "idlessShape name ph txt =
     \<lparr>sp_nvSpPr =
        Some \<lparr>nv_cNvPr = Some \<lparr>cnv_id = None, cnv_name = Some name, cnv_descr = None,
                                 cnv_title = None, cnv_extLst = None\<rparr>,
              nv_phType = ph\<rparr>,
      sp_spPr = None,
      sp_txBody =
        Some \<lparr>tx_paragraphs =
          Some [Some \<lparr>par_runs = Some [\<lparr>run_t = Some [txt], run_rPr = None\<rparr>]\<rparr>]\<rparr>\<rparr>"

definition collidingIdSlide :: Slide where
  "collidingIdSlide =
     (let es = [the (parseShape 1700000000000 (idlessShape ''Titel 1'' (Some ''title'') ''Lagebericht'') 1),
                the (parseShape 1700000000000 (idlessShape ''Textfeld 2'' None ''Der Bericht'') 1)]
      in \<lparr>slide_number = 1, slide_id = ''slide-1'', elements = es, readingOrder = map el_id es,
          readingOrderConfidence = 1, backgroundElements = [], slide_issues = []\<rparr>)"

text \<open>A slide of three elements whose reading order has three entries and names the first
  element twice.\<close>

definition repeatedOrderSlide :: Slide where
  "repeatedOrderSlide =
     (sampleSlide 1 [sampleElement ''a'' E_title 0 0 (Some ''Titel''),
                     sampleElement ''b'' E_paragraph 0 100 (Some ''Eins''),
                     sampleElement ''c'' E_paragraph 0 200 (Some ''Zwei'')])
       \<lparr>readingOrder := [''a'', ''a'', ''b'']\<rparr>"

text \<open>A slide whose reading order lists two of its three elements.\<close>

definition partialOrderSlide :: Slide where
  "partialOrderSlide =
     (sampleSlide 1 [sampleElement ''a'' E_paragraph 0 100 (Some ''Eins''),
                     sampleElement ''b'' E_paragraph 0 200 (Some ''Zwei''),
                     sampleElement ''c'' E_title 0 0 (Some ''Titel'')])
       \<lparr>readingOrder := [''c'', ''a'']\<rparr>"

text \<open>A slide with a title, a decorative image and a paragraph.\<close>

definition decoratedSlide :: Slide where
  "decoratedSlide =
     sampleSlide 1 [sampleElement ''t'' E_title 0 0 (Some ''Titel''),
                    (sampleElement ''deco'' E_image 0 100 None)
                      \<lparr>isDecorative := True,
                       content := \<lparr>content_text = None, richText = None,
                                   altText = Some ''Zierleiste'', altTextStatus = Alt_decorative,
                                   longDescription = None\<rparr>\<rparr>,
                    sampleElement ''p'' E_paragraph 0 200 (Some ''Text'')]"

text \<open>A shape node whose description is explicitly empty, the element the parser builds
  from it inside a group (\<^verbatim>\<open>parseGroup\<close> marks the elements of a group and puts them among
  the elements of the slide, decorative or not), and a slide that holds it between a
  title and a decorative image followed by a paragraph.\<close>

definition decorativeLine :: xml_sp where
  "decorativeLine =
     \<lparr>sp_nvSpPr =
        Some \<lparr>nv_cNvPr = Some \<lparr>cnv_id = Some ''9'', cnv_name = Some ''Zierlinie'',
                                 cnv_descr = Some [], cnv_title = None, cnv_extLst = None\<rparr>,
              nv_phType = None\<rparr>,
      sp_spPr = Some \<lparr>a_xfrm = Some \<lparr>off_x = Some 0, off_y = Some 4762500,
                                        ext_cx = Some 5715000, ext_cy = Some 95250\<rparr>\<rparr>,
      sp_txBody = None\<rparr>"

definition groupedDecoration :: SlideElement where
  "groupedDecoration =
     (the (parseShape 0 decorativeLine 1))\<lparr>isGrouped := True, groupId := Some ''5''\<rparr>"

definition adornedSlide :: Slide where
  "adornedSlide =
     sampleSlide 1 [sampleElement ''t'' E_title 0 0 (Some ''Titel''),
                    groupedDecoration,
                    (sampleElement ''deco'' E_image 0 100 None)
                      \<lparr>isDecorative := True,
                       content := \<lparr>content_text = None, richText = None,
                                   altText = Some ''Zierleiste'', altTextStatus = Alt_decorative,
                                   longDescription = None\<rparr>\<rparr>,
                    sampleElement ''p'' E_paragraph 0 200 (Some ''Text'')]"


text \<open>A model whose title and language differ from every default of the generator.\<close>

definition englishPresentation :: Presentation where
  "englishPresentation =
     \<lparr>metadata = sampleMetadata ''Annual report'' ''en'', slides = [], pres_issues = [],
      stats = noStats\<rparr>"

definition customTitleOptions :: GeneratorOptions where
  "customTitleOptions = noOptions\<lparr>opt_documentTitle := Some ''Custom title''\<rparr>"

text \<open>A picture node whose description attribute holds two spaces, and a shape node with
  the same attributes.\<close>

definition twoSpaceNode :: xml_cNvPr where
  "twoSpaceNode =
     \<lparr>cnv_id = Some ''7'', cnv_name = Some ''Picture 7'', cnv_descr = Some ''  '',
      cnv_title = None, cnv_extLst = None\<rparr>"

definition twoSpacePicture :: xml_pic where
  "twoSpacePicture = \<lparr>pic_nvPicPr = Some (Some twoSpaceNode), pic_spPr = None\<rparr>"

definition twoSpaceShape :: xml_sp where
  "twoSpaceShape =
     \<lparr>sp_nvSpPr = Some \<lparr>nv_cNvPr = Some twoSpaceNode, nv_phType = None\<rparr>,
      sp_spPr = None, sp_txBody = None\<rparr>"

definition oneSpacePicture :: xml_pic where
  "oneSpacePicture =
     \<lparr>pic_nvPicPr = Some (Some (twoSpaceNode\<lparr>cnv_descr := Some '' ''\<rparr>)), pic_spPr = None\<rparr>"

text \<open>Table cells and tables: a cell holding one run of text; a table whose first row has
  no cell and whose second row has one; a table of two rows of one cell each.\<close>

definition textCell :: "string \<Rightarrow> xml_tc" where
  "textCell t =
     \<lparr>tc_txBody = Some \<lparr>tx_paragraphs =
        Some [Some \<lparr>par_runs = Some [\<lparr>run_t = Some [t], run_rPr = None\<rparr>]\<rparr>]\<rparr>\<rparr>"

definition emptyFirstRowTable :: xml_tbl where
  "emptyFirstRowTable =
     \<lparr>tbl_rows = Some [\<lparr>tr_cells = None\<rparr>, \<lparr>tr_cells = Some [textCell ''Wert'']\<rparr>]\<rparr>"

definition twoRowTable :: xml_tbl where
  "twoRowTable =
     \<lparr>tbl_rows = Some [\<lparr>tr_cells = Some [textCell ''Kopf'']\<rparr>,
                       \<lparr>tr_cells = Some [textCell ''Wert'']\<rparr>]\<rparr>"

section \<open>Properties\<close>

subsection \<open>Deduplication and counting\<close>

lemma dedupFrom_insert_fresh:
  "a \<notin> issue_id ` set ys \<Longrightarrow> dedupFrom (insert a seen) ys = dedupFrom seen ys"
proof (induction ys arbitrary: seen)
  case Nil
  then show ?case by simp
next
  case (Cons y ys)
  then have ne: "issue_id y \<noteq> a" and fresh: "a \<notin> issue_id ` set ys" by auto
  have "dedupFrom (insert a (insert (issue_id y) seen)) ys = dedupFrom (insert (issue_id y) seen) ys"
    using Cons.IH[OF fresh] .
  then have "dedupFrom (insert (issue_id y) (insert a seen)) ys = dedupFrom (insert (issue_id y) seen) ys"
    by (simp add: insert_commute)
  with ne Cons.IH[OF fresh, of seen] show ?case by simp
qed

lemma dedupFrom_add_fresh:
  "issue_id n \<notin> seen \<Longrightarrow> issue_id n \<notin> issue_id ` set xs \<Longrightarrow> issue_id n \<notin> issue_id ` set ys \<Longrightarrow>
   mset (dedupFrom seen (xs @ n # ys)) = add_mset n (mset (dedupFrom seen (xs @ ys)))"
proof (induction xs arbitrary: seen)
  case Nil
  then show ?case by (simp add: dedupFrom_insert_fresh)
next
  case (Cons x xs)
  then show ?case by auto
qed

lemma countSeverity_mset:
  "countSeverity sev iss = int (size (filter_mset (\<lambda>i. severity i = sev) (mset iss)))"
  unfolding countSeverity_def by (metis mset_filter size_mset)

lemma countSeverity_add_fresh:
  assumes "issue_id n \<notin> issue_id ` set (xs @ ys)"
  shows "countSeverity sev (deduplicateIssues (xs @ n # ys)) =
         countSeverity sev (deduplicateIssues (xs @ ys)) + (if severity n = sev then 1 else 0)"
proof -
  have "mset (deduplicateIssues (xs @ n # ys)) = add_mset n (mset (deduplicateIssues (xs @ ys)))"
    unfolding deduplicateIssues_def using assms by (intro dedupFrom_add_fresh) auto
  then show ?thesis by (simp add: countSeverity_mset)
qed

lemma countSeverity_nonneg: "0 \<le> countSeverity sev iss"
  by (simp add: countSeverity_def)

lemma overallScore_generateReport:
  "overallScore (generateReport p clock iss) =
     calculateScore (countSeverity Sev_error (deduplicateIssues iss))
       (countSeverity Sev_warning (deduplicateIssues iss))
       (countSeverity Sev_info (deduplicateIssues iss))"
  by (simp add: generateReport_def Let_def)

lemma conformance_generateReport:
  "conformance (generateReport p clock iss) =
     determineConformance (countSeverity Sev_error (deduplicateIssues iss))
       (countSeverity Sev_warning (deduplicateIssues iss))"
  by (simp add: generateReport_def Let_def)

lemma summary_generateReport:
  "sum_errors (summary (generateReport p clock iss)) = countSeverity Sev_error (deduplicateIssues iss)"
  "sum_warnings (summary (generateReport p clock iss)) = countSeverity Sev_warning (deduplicateIssues iss)"
  "report_wcagLevel (generateReport p clock iss) = wcagLevel (conformance (generateReport p clock iss))"
  by (simp_all add: generateReport_def Let_def)

subsection \<open>Conformance thresholds\<close>

text \<open>
  Claim C1. For every list of issues handed to the report, with \<open>e\<close> the number of
  errors and \<open>w\<close> the number of warnings among the deduplicated issues: no error and no
  warning gives WCAG AAA, PDF/UA-1 and a regulation-conformant report; no error and at
  least one warning gives AA (PDF/UA-1, conformant); one to three errors give A, partial,
  not conformant; more than three errors give none. One error and no warning never gives
  AAA or AA. The report's \<open>wcagLevel\<close> field repeats the level of the verdict. The
  theorem holds for every issue list, so in particular for the list \<^const>\<open>allIssues\<close> that
  \<^const>\<open>validate\<close> passes on.
\<close>

theorem C1_conformance_thresholds:
  "(let r = generateReport p clock iss;
        u = deduplicateIssues iss;
        e = countSeverity Sev_error u;
        w = countSeverity Sev_warning u;
        c = conformance r
    in (e = 0 \<and> w = 0 \<longrightarrow>
          c = \<lparr>wcagLevel = Wcag_AAA, pdfuaLevel = PdfUa_1, bitvConformant = True\<rparr>) \<and>
       (e = 0 \<and> 1 \<le> w \<longrightarrow>
          c = \<lparr>wcagLevel = Wcag_AA, pdfuaLevel = PdfUa_1, bitvConformant = True\<rparr>) \<and>
       (1 \<le> e \<and> e \<le> 3 \<longrightarrow>
          c = \<lparr>wcagLevel = Wcag_A, pdfuaLevel = PdfUa_partial, bitvConformant = False\<rparr>) \<and>
       (3 < e \<longrightarrow>
          c = \<lparr>wcagLevel = Wcag_none, pdfuaLevel = PdfUa_none, bitvConformant = False\<rparr>) \<and>
       (e = 1 \<and> w = 0 \<longrightarrow> wcagLevel c \<noteq> Wcag_AAA \<and> wcagLevel c \<noteq> Wcag_AA) \<and>
       report_wcagLevel r = wcagLevel c \<and>
       sum_errors (summary r) = e \<and> sum_warnings (summary r) = w \<and> 0 \<le> e \<and> 0 \<le> w)"
proof -
  have "0 \<le> countSeverity Sev_warning (deduplicateIssues iss)"
    by (rule countSeverity_nonneg)
  moreover have "0 \<le> countSeverity Sev_error (deduplicateIssues iss)"
    by (rule countSeverity_nonneg)
  ultimately show ?thesis
    unfolding Let_def conformance_generateReport summary_generateReport
    by (auto simp: determineConformance_def)
qed

lemma sample_counts:
  "countSeverity Sev_error (deduplicateIssues []) = 0"
  "countSeverity Sev_warning (deduplicateIssues []) = 0"
  "countSeverity Sev_error (deduplicateIssues [sampleIssue ''w1'' Sev_warning]) = 0"
  "countSeverity Sev_warning (deduplicateIssues [sampleIssue ''w1'' Sev_warning]) = 1"
  "countSeverity Sev_error (deduplicateIssues [sampleIssue ''e1'' Sev_error]) = 1"
  "countSeverity Sev_warning (deduplicateIssues [sampleIssue ''e1'' Sev_error]) = 0"
  "countSeverity Sev_error (deduplicateIssues
     [sampleIssue ''e1'' Sev_error, sampleIssue ''e2'' Sev_error, sampleIssue ''e3'' Sev_error,
      sampleIssue ''e4'' Sev_error]) = 4"
  by (simp_all add: countSeverity_def deduplicateIssues_def sampleIssue_def)

theorem C1_conformance_thresholds_witness:
  "conformance (generateReport scenarioPresentation (clockAt epoch) []) =
     \<lparr>wcagLevel = Wcag_AAA, pdfuaLevel = PdfUa_1, bitvConformant = True\<rparr> \<and>
   conformance (generateReport scenarioPresentation (clockAt epoch) [sampleIssue ''w1'' Sev_warning]) =
     \<lparr>wcagLevel = Wcag_AA, pdfuaLevel = PdfUa_1, bitvConformant = True\<rparr> \<and>
   conformance (generateReport scenarioPresentation (clockAt epoch) [sampleIssue ''e1'' Sev_error]) =
     \<lparr>wcagLevel = Wcag_A, pdfuaLevel = PdfUa_partial, bitvConformant = False\<rparr> \<and>
   conformance (generateReport scenarioPresentation (clockAt epoch)
     [sampleIssue ''e1'' Sev_error, sampleIssue ''e2'' Sev_error, sampleIssue ''e3'' Sev_error,
      sampleIssue ''e4'' Sev_error]) =
     \<lparr>wcagLevel = Wcag_none, pdfuaLevel = PdfUa_none, bitvConformant = False\<rparr>"
  using C1_conformance_thresholds [of scenarioPresentation "clockAt epoch" "[]"]
        C1_conformance_thresholds [of scenarioPresentation "clockAt epoch" "[sampleIssue ''w1'' Sev_warning]"]
        C1_conformance_thresholds [of scenarioPresentation "clockAt epoch" "[sampleIssue ''e1'' Sev_error]"]
        C1_conformance_thresholds [of scenarioPresentation "clockAt epoch"
          "[sampleIssue ''e1'' Sev_error, sampleIssue ''e2'' Sev_error, sampleIssue ''e3'' Sev_error,
            sampleIssue ''e4'' Sev_error]"]
  unfolding Let_def sample_counts by simp

subsection \<open>Score\<close>

text \<open>
  Claim C2. With \<open>e\<close>, \<open>w\<close> and \<open>i\<close> the numbers of errors, warnings and infos among the
  deduplicated issues, the overall score is \<open>max 0 (100 - 15 e - 5 w - i)\<close>. Adding one
  issue whose id is new, anywhere in the list, lowers the score by 15 when it is an error
  and by 5 when it is a warning, clamped at 0: the new score is \<open>max 0 (old - 15)\<close>
  (respectively \<open>max 0 (old - 5)\<close>), it is strictly smaller whenever the old score was
  positive, and the difference is exactly 15 (respectively 5) whenever the old score was
  at least that large.
\<close>

theorem C2_score_formula:
  fixes p :: Presentation and clock :: js_clock
  shows
  "(let u = deduplicateIssues (xs @ ys);
        e = countSeverity Sev_error u; w = countSeverity Sev_warning u; i = countSeverity Sev_info u;
        old = overallScore (generateReport p clock (xs @ ys));
        new = overallScore (generateReport p clock (xs @ n # ys))
    in old = max 0 (100 - 15 * e - 5 * w - 1 * i) \<and>
       (issue_id n \<notin> issue_id ` set (xs @ ys) \<and> severity n = Sev_error \<longrightarrow>
          new = max 0 (old - 15) \<and> (0 < old \<longrightarrow> new < old) \<and> (15 \<le> old \<longrightarrow> new = old - 15)) \<and>
       (issue_id n \<notin> issue_id ` set (xs @ ys) \<and> severity n = Sev_warning \<longrightarrow>
          new = max 0 (old - 5) \<and> (0 < old \<longrightarrow> new < old) \<and> (5 \<le> old \<longrightarrow> new = old - 5)))"
proof -
  have f: "overallScore (generateReport p clock (xs @ ys)) =
      max 0 (100 - 15 * countSeverity Sev_error (deduplicateIssues (xs @ ys))
               - 5 * countSeverity Sev_warning (deduplicateIssues (xs @ ys))
               - 1 * countSeverity Sev_info (deduplicateIssues (xs @ ys)))"
    by (simp add: overallScore_generateReport calculateScore_def Let_def)
  have e: "new_e = old_e + 1 \<Longrightarrow> max 0 (100 - new_e * 15 - w * 5 - i * 1) = max 0 (max 0 (100 - old_e * 15 - w * 5 - i * 1) - 15)"
    for new_e old_e w i :: int by auto
  have w5: "new_w = old_w + 1 \<Longrightarrow> max 0 (100 - e * 15 - new_w * 5 - i * 1) = max 0 (max 0 (100 - e * 15 - old_w * 5 - i * 1) - 5)"
    for new_w old_w e i :: int by auto
  have err: "overallScore (generateReport p clock (xs @ n # ys)) =
        max 0 (overallScore (generateReport p clock (xs @ ys)) - 15)"
    if "issue_id n \<notin> issue_id ` set (xs @ ys)" "severity n = Sev_error"
    using that by (simp add: overallScore_generateReport calculateScore_def Let_def countSeverity_add_fresh e)
  have wrn: "overallScore (generateReport p clock (xs @ n # ys)) =
        max 0 (overallScore (generateReport p clock (xs @ ys)) - 5)"
    if "issue_id n \<notin> issue_id ` set (xs @ ys)" "severity n = Sev_warning"
    using that by (simp add: overallScore_generateReport calculateScore_def Let_def countSeverity_add_fresh w5)
  show ?thesis
    unfolding Let_def using f err wrn by (simp add: max_def)
qed

lemma sample_counts2:
  "countSeverity Sev_error (deduplicateIssues ([sampleIssue ''e1'' Sev_error] @ [sampleIssue ''w1'' Sev_warning])) = 1"
  "countSeverity Sev_warning (deduplicateIssues ([sampleIssue ''e1'' Sev_error] @ [sampleIssue ''w1'' Sev_warning])) = 1"
  "countSeverity Sev_info (deduplicateIssues ([sampleIssue ''e1'' Sev_error] @ [sampleIssue ''w1'' Sev_warning])) = 0"
  by (simp_all add: countSeverity_def deduplicateIssues_def sampleIssue_def)

theorem C2_score_formula_witness:
  "overallScore (generateReport scenarioPresentation (clockAt epoch)
     ([sampleIssue ''e1'' Sev_error] @ [sampleIssue ''w1'' Sev_warning])) = 80 \<and>
   overallScore (generateReport scenarioPresentation (clockAt epoch)
     ([sampleIssue ''e1'' Sev_error] @ sampleIssue ''e2'' Sev_error # [sampleIssue ''w1'' Sev_warning])) = 65 \<and>
   overallScore (generateReport scenarioPresentation (clockAt epoch)
     ([sampleIssue ''e1'' Sev_error] @ sampleIssue ''w2'' Sev_warning # [sampleIssue ''w1'' Sev_warning])) = 75"
proof -
  have fresh_e: "issue_id (sampleIssue ''e2'' Sev_error) \<notin>
      issue_id ` set ([sampleIssue ''e1'' Sev_error] @ [sampleIssue ''w1'' Sev_warning])"
    by (simp add: sampleIssue_def)
  have fresh_w: "issue_id (sampleIssue ''w2'' Sev_warning) \<notin>
      issue_id ` set ([sampleIssue ''e1'' Sev_error] @ [sampleIssue ''w1'' Sev_warning])"
    by (simp add: sampleIssue_def)
  have sev: "severity (sampleIssue ''e2'' Sev_error) = Sev_error"
    "severity (sampleIssue ''w2'' Sev_warning) = Sev_warning"
    by (simp_all add: sampleIssue_def)
  show ?thesis
    using C2_score_formula [of "[sampleIssue ''e1'' Sev_error]" "[sampleIssue ''w1'' Sev_warning]"
            scenarioPresentation "clockAt epoch" "sampleIssue ''e2'' Sev_error"]
          C2_score_formula [of "[sampleIssue ''e1'' Sev_error]" "[sampleIssue ''w1'' Sev_warning]"
            scenarioPresentation "clockAt epoch" "sampleIssue ''w2'' Sev_warning"]
          fresh_e fresh_w
    unfolding Let_def sample_counts2 sev by simp
qed

subsection \<open>Determinism of the report\<close>

text \<open>Each summary is a fixed text around the date it renders.\<close>

lemma joinLines_Cons: "ls \<noteq> [] \<Longrightarrow> joinLines (l # ls) = l @ [CHR 0x0A] @ joinLines ls"
  by (cases ls) simp_all

lemma generateSummary_date:
  "\<exists>pre suf. \<forall>now. generateSummary p now e w is = pre @ isoString now @ suf"
proof -
  define rest where "rest = (if e = 0 \<and> w = 0
         then [checkMark @ '' No accessibility issues found.'' @ [CHR 0x0A]]
         else [''Found '' @ showInt e @ '' error(s) and '' @ showInt w @ '' warning(s).'' @ [CHR 0x0A]]) @
        (if e > 0
         then [''--- Errors (must fix) ---''] @
              concat (map errorLines (filter (\<lambda>i. severity i = Sev_error) is))
         else []) @
        (if w > 0
         then [''--- Warnings (should fix) ---''] @
              concat (map warningLines (filter (\<lambda>i. severity i = Sev_warning) is))
         else [])"
  have ne: "rest \<noteq> []" by (simp add: rest_def)
  have "generateSummary p now e w is =
      (''=== Accessibility Report ==='' @ [CHR 0x0A] @ [CHR 0x0A] @
       ''Document: '' @ (if md_title (metadata p) \<noteq> [] then md_title (metadata p) else ''Untitled'') @
       [CHR 0x0A] @ ''Date: '') @ isoString now @ ([CHR 0x0A] @ [CHR 0x0A] @ joinLines rest)" for now
    unfolding generateSummary_def rest_def [symmetric]
    using ne by (simp add: joinLines_Cons)
  then show ?thesis by blast
qed

lemma generateSummaryDE_date:
  "\<exists>pre suf. \<forall>now. generateSummaryDE p now e w is = pre @ localeDateStringDE now @ suf"
proof -
  define rest where "rest = (if e = 0 \<and> w = 0
         then [checkMark @ '' Keine Barrierefreiheitsprobleme gefunden.'' @ [CHR 0x0A]]
         else [showInt e @ '' Fehler und '' @ showInt w @ '' Warnungen gefunden.'' @ [CHR 0x0A]]) @
        (if e > 0
         then [''--- Fehler (m'' @ [CHR 0xFC] @ ''ssen behoben werden) ---''] @
              concat (map errorLinesDE (filter (\<lambda>i. severity i = Sev_error) is))
         else []) @
        (if w > 0
         then [''--- Warnungen (sollten behoben werden) ---''] @
              concat (map warningLinesDE (filter (\<lambda>i. severity i = Sev_warning) is))
         else [])"
  have ne: "rest \<noteq> []" by (simp add: rest_def)
  have "generateSummaryDE p now e w is =
      (''=== Barrierefreiheits-Pr'' @ [CHR 0xFC] @ ''fbericht ==='' @ [CHR 0x0A] @ [CHR 0x0A] @
       ''Dokument: '' @ (if md_title (metadata p) \<noteq> [] then md_title (metadata p) else ''Ohne Titel'') @
       [CHR 0x0A] @ ''Datum: '') @ localeDateStringDE now @ ([CHR 0x0A] @ [CHR 0x0A] @ joinLines rest)" for now
    unfolding generateSummaryDE_def rest_def [symmetric]
    using ne by (simp add: joinLines_Cons)
  then show ?thesis by blast
qed

lemma generateSummary_eq_iff:
  "generateSummary p now e w is = generateSummary p now' e w is \<longleftrightarrow> isoString now = isoString now'"
proof -
  from generateSummary_date [of p e w "is"] obtain pre suf where
    f: "\<And>now. generateSummary p now e w is = pre @ isoString now @ suf" by blast
  show ?thesis unfolding f by simp
qed

lemma generateSummaryDE_eq_iff:
  "generateSummaryDE p now e w is = generateSummaryDE p now' e w is \<longleftrightarrow>
     localeDateStringDE now = localeDateStringDE now'"
proof -
  from generateSummaryDE_date [of p e w "is"] obtain pre suf where
    f: "\<And>now. generateSummaryDE p now e w is = pre @ localeDateStringDE now @ suf" by blast
  show ?thesis unfolding f by simp
qed

lemma generateReport_eq_iff:
  "generateReport p clock is = generateReport p clock' is \<longleftrightarrow>
     isoString (clock 0) = isoString (clock' 0) \<and> clock 1 = clock' 1 \<and>
     localeDateStringDE (clock 2) = localeDateStringDE (clock' 2)"
  unfolding generateReport_def Let_def
  by (simp add: generateSummary_eq_iff generateSummaryDE_eq_iff) blast

text \<open>
  Claim C3, as amended. The report reads the clock: its \<open>timestamp\<close> field and the date
  line of each rendered summary are readings of \<^verbatim>\<open>new Date()\<close>. For a fixed presentation,
  two runs (under any two profiles and any two clocks) agree on the issue list (the same
  ids in the same order), the score, the summary counts, the conformance verdict, the
  recommendations, the document title and the statistics, and the \<open>timestamp\<close> is the
  clock's second reading. The English summaries of the two runs are equal exactly when the
  ISO renderings of the first readings are equal, the German summaries exactly when the
  \<^verbatim>\<open>de-DE\<close> dates of the third readings are equal, and the two reports are equal exactly
  when, besides, the second readings are equal.
\<close>

theorem C3_amended:
  "(let r = validate p profile clock; r' = validate p profile' clock' in
      issues r = issues r' \<and>
      map issue_id (issues r) = map issue_id (issues r') \<and>
      overallScore r = overallScore r' \<and>
      summary r = summary r' \<and>
      conformance r = conformance r' \<and>
      report_wcagLevel r = report_wcagLevel r' \<and>
      pdfuaConformant r = pdfuaConformant r' \<and>
      recommendations r = recommendations r' \<and>
      documentTitle r = documentTitle r' \<and>
      report_stats r = report_stats r' \<and>
      timestamp r = clock 1 \<and>
      (reportText r = reportText r' \<longleftrightarrow> isoString (clock 0) = isoString (clock' 0)) \<and>
      (reportTextDE r = reportTextDE r' \<longleftrightarrow>
         localeDateStringDE (clock 2) = localeDateStringDE (clock' 2)) \<and>
      (r = r' \<longleftrightarrow>
         isoString (clock 0) = isoString (clock' 0) \<and> clock 1 = clock' 1 \<and>
         localeDateStringDE (clock 2) = localeDateStringDE (clock' 2)))"
proof -
  have a: "reportText (generateReport p clock is) = reportText (generateReport p clock' is) \<longleftrightarrow>
      isoString (clock 0) = isoString (clock' 0)" for "is"
    by (simp add: generateReport_def Let_def generateSummary_eq_iff)
  have b: "reportTextDE (generateReport p clock is) = reportTextDE (generateReport p clock' is) \<longleftrightarrow>
      localeDateStringDE (clock 2) = localeDateStringDE (clock' 2)" for "is"
    by (simp add: generateReport_def Let_def generateSummaryDE_eq_iff)
  have c: "issues (generateReport p clock is) = issues (generateReport p clock' is)"
    "overallScore (generateReport p clock is) = overallScore (generateReport p clock' is)"
    "summary (generateReport p clock is) = summary (generateReport p clock' is)"
    "conformance (generateReport p clock is) = conformance (generateReport p clock' is)"
    "report_wcagLevel (generateReport p clock is) = report_wcagLevel (generateReport p clock' is)"
    "pdfuaConformant (generateReport p clock is) = pdfuaConformant (generateReport p clock' is)"
    "recommendations (generateReport p clock is) = recommendations (generateReport p clock' is)"
    "documentTitle (generateReport p clock is) = documentTitle (generateReport p clock' is)"
    "report_stats (generateReport p clock is) = report_stats (generateReport p clock' is)"
    "timestamp (generateReport p clock is) = clock 1" for "is"
    by (simp_all add: generateReport_def Let_def)
  show ?thesis
    unfolding Let_def validate_def a b generateReport_eq_iff using c by simp
qed

theorem C3_amended_witness:
  "validate scenarioPresentation validatorDefaultProfile (clockAt epoch) =
   validate scenarioPresentation generatorDefaultProfile
     (\<lambda>k. if k = 1 then epoch
          else if k = 0 then epoch\<lparr>timeValue := 5, localeDateStringDE := ''01.01.1970''\<rparr>
          else if k = 2 then epoch\<lparr>timeValue := 7, isoString := ''1970-01-01T00:00:00.007Z''\<rparr>
          else nextDay)"
  using C3_amended [of scenarioPresentation validatorDefaultProfile "clockAt epoch"
          generatorDefaultProfile
          "\<lambda>k. if k = 1 then epoch
              else if k = 0 then epoch\<lparr>timeValue := 5, localeDateStringDE := ''01.01.1970''\<rparr>
              else if k = 2 then epoch\<lparr>timeValue := 7, isoString := ''1970-01-01T00:00:00.007Z''\<rparr>
              else nextDay"]
  by (simp add: Let_def clockAt_def epoch_def)

text \<open>
  Claim C3 as stated fails: the same presentation and profile validated at two different
  times give reports that differ in the timestamp and in the English summary text.
\<close>

theorem C3_counterexample:
  "timestamp (validate scenarioPresentation validatorDefaultProfile (clockAt epoch)) \<noteq>
   timestamp (validate scenarioPresentation validatorDefaultProfile (clockAt nextDay)) \<and>
   reportText (validate scenarioPresentation validatorDefaultProfile (clockAt epoch)) \<noteq>
   reportText (validate scenarioPresentation validatorDefaultProfile (clockAt nextDay)) \<and>
   validate scenarioPresentation validatorDefaultProfile (clockAt epoch) \<noteq>
   validate scenarioPresentation validatorDefaultProfile (clockAt nextDay)"
proof -
  have t: "timestamp (validate scenarioPresentation validatorDefaultProfile (clockAt epoch)) \<noteq>
     timestamp (validate scenarioPresentation validatorDefaultProfile (clockAt nextDay))"
    by (simp add: validate_def generateReport_def Let_def clockAt_def epoch_def nextDay_def)
  have x: "reportText (validate scenarioPresentation validatorDefaultProfile (clockAt epoch)) \<noteq>
   reportText (validate scenarioPresentation validatorDefaultProfile (clockAt nextDay))"
    by code_simp
  from t have "validate scenarioPresentation validatorDefaultProfile (clockAt epoch) \<noteq>
   validate scenarioPresentation validatorDefaultProfile (clockAt nextDay)"
    by auto
  with t x show ?thesis by simp
qed

subsection \<open>Row bands of the pseudo-table check\<close>

text \<open>The row bands of the pseudo-table check, characterised by the multiset of the row keys.\<close>

lemma addToRow_keys:
  "map fst (addToRow rws tb) =
     (if rowKey tb \<in> set (map fst rws) then map fst rws else map fst rws @ [rowKey tb])"
  by (auto simp: addToRow_def Let_def case_prod_unfold)

lemma map_of_update_row:
  "map_of (map (\<lambda>(k, r). if k = y then (k, r @ [tb]) else (k, r)) rws) k =
     (if k = y then map_option (\<lambda>r. r @ [tb]) (map_of rws k) else map_of rws k)"
  by (induction rws) auto

lemma addToRow_lookup:
  "map_of (addToRow rws tb) k =
     (if k = rowKey tb
      then Some ((case map_of rws k of None \<Rightarrow> [] | Some r \<Rightarrow> r) @ [tb])
      else map_of rws k)"
proof (cases "rowKey tb \<in> set (map fst rws)")
  case True
  then obtain r where "map_of rws (rowKey tb) = Some r"
    by (metis map_of_eq_None_iff not_Some_eq set_map)
  with True show ?thesis
    by (simp add: addToRow_def Let_def map_of_update_row)
next
  case False
  then have none: "map_of rws (rowKey tb) = None"
    by (simp add: map_of_eq_None_iff)
  have "addToRow rws tb =
      map (\<lambda>(k, r). if k = rowKey tb then (k, r @ [tb]) else (k, r)) (rws @ [(rowKey tb, [])])"
    using False by (simp add: addToRow_def Let_def del: map_append)
  then have "map_of (addToRow rws tb) k =
      (if k = rowKey tb then map_option (\<lambda>r. r @ [tb]) (map_of (rws @ [(rowKey tb, [])]) k)
       else map_of (rws @ [(rowKey tb, [])]) k)"
    by (simp only: map_of_update_row)
  then show ?thesis
    using none by (simp add: map_add_def split: option.splits)
qed

lemma groupRows_snoc: "groupRows (tbs @ [tb]) = addToRow (groupRows tbs) tb"
  by (simp add: groupRows_def)

lemma groupRows_inv:
  "distinct (map fst (groupRows tbs)) \<and>
   set (map fst (groupRows tbs)) = rowKey ` set tbs \<and>
   (\<forall>k. map_of (groupRows tbs) k =
        (if k \<in> rowKey ` set tbs then Some (filter (\<lambda>tb. rowKey tb = k) tbs) else None))"
proof (induction tbs rule: rev_induct)
  case Nil
  then show ?case by (simp add: groupRows_def)
next
  case (snoc tb tbs)
  have d: "distinct (map fst (groupRows (tbs @ [tb])))"
    using snoc by (simp add: groupRows_snoc addToRow_keys)
  have s: "set (map fst (groupRows (tbs @ [tb]))) = rowKey ` set (tbs @ [tb])"
    using snoc by (auto simp: groupRows_snoc addToRow_keys)
  have m: "map_of (groupRows (tbs @ [tb])) k =
        (if k \<in> rowKey ` set (tbs @ [tb])
         then Some (filter (\<lambda>tb. rowKey tb = k) (tbs @ [tb])) else None)" for k
  proof -
    from snoc have old: "map_of (groupRows tbs) k =
        (if k \<in> rowKey ` set tbs then Some (filter (\<lambda>tb. rowKey tb = k) tbs) else None)"
      by blast
    have e: "filter (\<lambda>t. rowKey t = k) tbs = []" if "k \<notin> rowKey ` set tbs"
      using that by (auto simp: filter_empty_conv)
    show ?thesis
      unfolding groupRows_snoc addToRow_lookup old using e by auto
  qed
  from d s m show ?case by blast
qed

lemma groupRows_sizes:
  "map (\<lambda>r. length (snd r)) (groupRows tbs) =
     map (\<lambda>k. length (filter (\<lambda>tb. rowKey tb = k) tbs)) (map fst (groupRows tbs))"
proof -
  have "length (snd kr) = length (filter (\<lambda>tb. rowKey tb = fst kr) tbs)"
    if "kr \<in> set (groupRows tbs)" for kr
  proof -
    obtain k r where kr: "kr = (k, r)" by (cases kr)
    have d: "distinct (map fst (groupRows tbs))" using groupRows_inv by blast
    from that kr have "map_of (groupRows tbs) k = Some r"
      using d by simp
    moreover have "map_of (groupRows tbs) k =
        (if k \<in> rowKey ` set tbs then Some (filter (\<lambda>tb. rowKey tb = k) tbs) else None)"
      using groupRows_inv by blast
    ultimately have "r = filter (\<lambda>tb. rowKey tb = k) tbs"
      by (simp split: if_splits)
    with kr show ?thesis by simp
  qed
  then show ?thesis by simp
qed

lemma count_rowKey:
  "count (mset (map rowKey tbs)) k = length (filter (\<lambda>tb. rowKey tb = k) tbs)"
  by (induction tbs) auto

lemma validatePseudoTables_nonempty:
  "validatePseudoTables slide \<noteq> [] \<longleftrightarrow>
     (let textboxes = filter (\<lambda>e. el_type e = E_textbox) (elements slide);
          rowSizes = map (\<lambda>r. length (snd r)) (groupRows textboxes);
          firstSize = (case rowSizes of [] \<Rightarrow> None | s # _ \<Rightarrow> Some s)
      in \<not> length textboxes < 4 \<and>
         (length rowSizes > 1 \<and> list_all (\<lambda>s. Some s = firstSize) rowSizes) \<and>
         (length (groupRows textboxes) \<ge> 2 \<and> (case firstSize of None \<Rightarrow> 0 | Some s \<Rightarrow> s) \<ge> 2))"
  unfolding validatePseudoTables_def Let_def by simp

lemma sameSize_iff:
  fixes cnt :: "'k \<Rightarrow> nat"
  shows "(length (map cnt K) > 1 \<and>
       list_all (\<lambda>s. Some s = (case map cnt K of [] \<Rightarrow> None | s # _ \<Rightarrow> Some s)) (map cnt K)) \<and>
      (length K \<ge> 2 \<and> (case (case map cnt K of [] \<Rightarrow> None | s # _ \<Rightarrow> Some s) of
                            None \<Rightarrow> 0 | Some s \<Rightarrow> s) \<ge> 2)
      \<longleftrightarrow> 2 \<le> length K \<and> (\<exists>n\<ge>2. \<forall>k \<in> set K. cnt k = n)"
proof (cases K)
  case Nil
  then show ?thesis by simp
next
  case (Cons k0 K')
  have l: "(length (map cnt K) > 1 \<and>
       list_all (\<lambda>s. Some s = (case map cnt K of [] \<Rightarrow> None | s # _ \<Rightarrow> Some s)) (map cnt K)) \<and>
      (length K \<ge> 2 \<and> (case (case map cnt K of [] \<Rightarrow> None | s # _ \<Rightarrow> Some s) of
                            None \<Rightarrow> 0 | Some s \<Rightarrow> s) \<ge> 2)
      \<longleftrightarrow> 2 \<le> length K \<and> (\<forall>k \<in> set K'. cnt k = cnt k0) \<and> 2 \<le> cnt k0"
    unfolding Cons
  proof (cases K')
    case Nil
    then show "((1 < length (map cnt (k0 # K')) \<and>
       list_all (\<lambda>s. Some s = (case map cnt (k0 # K') of [] \<Rightarrow> None | s # _ \<Rightarrow> Some s)) (map cnt (k0 # K'))) \<and>
      (2 \<le> length (k0 # K') \<and> 2 \<le> (case (case map cnt (k0 # K') of [] \<Rightarrow> None | s # _ \<Rightarrow> Some s) of
                            None \<Rightarrow> 0 | Some s \<Rightarrow> s)))
      \<longleftrightarrow> 2 \<le> length (k0 # K') \<and> (\<forall>k \<in> set K'. cnt k = cnt k0) \<and> 2 \<le> cnt k0"
      by simp
  next
    case (Cons a rest)
    then show "((1 < length (map cnt (k0 # K')) \<and>
       list_all (\<lambda>s. Some s = (case map cnt (k0 # K') of [] \<Rightarrow> None | s # _ \<Rightarrow> Some s)) (map cnt (k0 # K'))) \<and>
      (2 \<le> length (k0 # K') \<and> 2 \<le> (case (case map cnt (k0 # K') of [] \<Rightarrow> None | s # _ \<Rightarrow> Some s) of
                            None \<Rightarrow> 0 | Some s \<Rightarrow> s)))
      \<longleftrightarrow> 2 \<le> length (k0 # K') \<and> (\<forall>k \<in> set K'. cnt k = cnt k0) \<and> 2 \<le> cnt k0"
      by (simp add: list_all_iff)
  qed
  have r: "(\<exists>n\<ge>2. \<forall>k \<in> set K. cnt k = n) \<longleftrightarrow> (\<forall>k \<in> set K'. cnt k = cnt k0) \<and> 2 \<le> cnt k0"
  proof
    assume "\<exists>n\<ge>2. \<forall>k \<in> set K. cnt k = n"
    then obtain n where n: "2 \<le> n" "\<forall>k \<in> set K. cnt k = n" by blast
    from n(2) have "cnt k0 = n" by (simp add: Cons)
    with n show "(\<forall>k \<in> set K'. cnt k = cnt k0) \<and> 2 \<le> cnt k0" by (simp add: Cons)
  next
    assume a: "(\<forall>k \<in> set K'. cnt k = cnt k0) \<and> 2 \<le> cnt k0"
    then have "\<forall>k \<in> set K. cnt k = cnt k0" by (simp add: Cons)
    with a show "\<exists>n\<ge>2. \<forall>k \<in> set K. cnt k = n" by blast
  qed
  show ?thesis unfolding l r by blast
qed


lemma pseudoTable_rows:
  "(let rowSizes = map (\<lambda>r. length (snd r)) (groupRows tbs);
        firstSize = (case rowSizes of [] \<Rightarrow> None | s # _ \<Rightarrow> Some s)
    in (length rowSizes > 1 \<and> list_all (\<lambda>s. Some s = firstSize) rowSizes) \<and>
       (length (groupRows tbs) \<ge> 2 \<and> (case firstSize of None \<Rightarrow> 0 | Some s \<Rightarrow> s) \<ge> 2))
   \<longleftrightarrow> (let M = mset (map rowKey tbs)
        in 2 \<le> card (set_mset M) \<and> (\<exists>n\<ge>2. \<forall>k \<in># M. count M k = n))"
proof -
  define K where "K = map fst (groupRows tbs)"
  define cnt where "cnt = (\<lambda>k. length (filter (\<lambda>tb. rowKey tb = k) tbs))"
  have dK: "distinct K" and sK: "set K = rowKey ` set tbs"
    using groupRows_inv [of tbs] by (simp_all add: K_def)
  have sizes: "map (\<lambda>r. length (snd r)) (groupRows tbs) = map cnt K"
    unfolding K_def cnt_def by (rule groupRows_sizes)
  have lenK: "length (groupRows tbs) = length K" by (simp add: K_def)
  have cardK: "card (set K) = length K" using dK by (rule distinct_card)
  have cM: "count (mset (map rowKey tbs)) k = cnt k" for k
    unfolding cnt_def by (rule count_rowKey)
  have sM: "set_mset (mset (map rowKey tbs)) = set K" using sK by simp
  have "(let rowSizes = map (\<lambda>r. length (snd r)) (groupRows tbs);
        firstSize = (case rowSizes of [] \<Rightarrow> None | s # _ \<Rightarrow> Some s)
    in (length rowSizes > 1 \<and> list_all (\<lambda>s. Some s = firstSize) rowSizes) \<and>
       (length (groupRows tbs) \<ge> 2 \<and> (case firstSize of None \<Rightarrow> 0 | Some s \<Rightarrow> s) \<ge> 2))
     \<longleftrightarrow> 2 \<le> length K \<and> (\<exists>n\<ge>2. \<forall>k \<in> set K. cnt k = n)"
    unfolding Let_def sizes lenK by (rule sameSize_iff)
  also have "\<dots> \<longleftrightarrow> (let M = mset (map rowKey tbs)
        in 2 \<le> card (set_mset M) \<and> (\<exists>n\<ge>2. \<forall>k \<in># M. count M k = n))"
    unfolding Let_def sM cardK cM ..
  finally show ?thesis .
qed

lemma validatePseudoTables_nonempty_iff:
  "validatePseudoTables slide \<noteq> [] \<longleftrightarrow>
     (let tbs = filter (\<lambda>e. el_type e = E_textbox) (elements slide);
          M = mset (map rowKey tbs)
      in 4 \<le> length tbs \<and> 2 \<le> card (set_mset M) \<and> (\<exists>n\<ge>2. \<forall>k \<in># M. count M k = n))"
proof -
  define tbs where "tbs = filter (\<lambda>e. el_type e = E_textbox) (elements slide)"
  have "validatePseudoTables slide \<noteq> [] \<longleftrightarrow>
      \<not> length tbs < 4 \<and>
      (let rowSizes = map (\<lambda>r. length (snd r)) (groupRows tbs);
           firstSize = (case rowSizes of [] \<Rightarrow> None | s # _ \<Rightarrow> Some s)
       in (length rowSizes > 1 \<and> list_all (\<lambda>s. Some s = firstSize) rowSizes) \<and>
          (length (groupRows tbs) \<ge> 2 \<and> (case firstSize of None \<Rightarrow> 0 | Some s \<Rightarrow> s) \<ge> 2))"
    unfolding validatePseudoTables_nonempty tbs_def Let_def ..
  also have "\<dots> \<longleftrightarrow> 4 \<le> length tbs \<and>
      (let M = mset (map rowKey tbs)
        in 2 \<le> card (set_mset M) \<and> (\<exists>n\<ge>2. \<forall>k \<in># M. count M k = n))"
    unfolding pseudoTable_rows by (simp add: not_less)
  finally show ?thesis
    unfolding tbs_def Let_def .
qed

lemma validatePseudoTables_ids:
  "map issue_id (validatePseudoTables slide) =
     (if validatePseudoTables slide \<noteq> []
      then [''slide-'' @ showInt (slide_number slide) @ ''-pseudo-table''] else [])"
  by (simp add: validatePseudoTables_def Let_def)

subsection \<open>The three-slide scenario\<close>

lemma scenario_findings:
  "map (\<lambda>i. (issue_type i, severity i, slideNumber i))
     (issues (validate scenarioPresentation validatorDefaultProfile (clockAt epoch))) =
   [(missing_alt_text, Sev_error, Some 2), (pseudo_table, Sev_warning, Some 3)]"
  by code_simp

lemma scenario_shape:
  "length (slides scenarioPresentation) = 3"
  "map slide_number (slides scenarioPresentation) = [1, 2, 3]"
  by (simp_all add: scenarioPresentation_def samplePresentation_def scenarioSlides_def sampleSlide_def)

text \<open>What the checks report on quiet documents, slides and elements, on a slide with few
  text boxes, on a grid of text boxes and on an image without alternative text.\<close>

lemma validateDocument_described: "documentDescribed p \<Longrightarrow> validateDocument p = []"
  by (auto simp: documentDescribed_def validateDocument_def Let_def trimmed_truthy_def)

lemma validateElement_quiet: "quietElement e \<Longrightarrow> validateElement e n = []"
  by (simp add: quietElement_def validateElement_def emptyElementIssues_def)

lemma validateElements_quiet:
  "list_all quietElement es \<Longrightarrow> concat (map (\<lambda>element. validateElement element n) es) = []"
  by (induction es) (simp_all add: validateElement_quiet)

lemma collected_quiet: "list_all quietElement es \<Longrightarrow> concat (map el_issues es) = []"
  by (induction es) (simp_all add: quietElement_def)

lemma findOverlapping_noOverlap: "findOverlappingElements es = [] \<longleftrightarrow> noOverlap es"
  by (induction es) (auto simp: filter_empty_conv)

lemma validateSlide_quiet:
  assumes "quietSlide s"
  shows "validateSlide s =
     concat (map (\<lambda>element. validateElement element (slide_number s)) (elements s)) @
     validatePseudoTables s"
proof -
  from assms obtain e where "e \<in> set (elements s)"
    "el_type e = E_title \<and> trimmed_truthy (content_text (content e))"
    unfolding quietSlide_def by blast
  then have "find (\<lambda>e. el_type e = E_title \<and> trimmed_truthy (content_text (content e))) (elements s) \<noteq> None"
    unfolding find_None_iff by blast
  then have t: "validateSlideTitle s = []"
    by (auto simp: validateSlideTitle_def split: option.splits)
  have o: "validateReadingOrder s = []"
    using assms
    by (simp add: quietSlide_def validateReadingOrder_def orderUncertainIssues_def overlapIssues_def
          findOverlapping_noOverlap)
  have "\<forall>b \<in> set (backgroundElements s). validateBackgroundElement b (slide_number s) = []"
    using assms by (auto simp: quietSlide_def validateBackgroundElement_def)
  then have b: "concat (map (\<lambda>bgElement. validateBackgroundElement bgElement (slide_number s))
                 (backgroundElements s)) = []"
    by simp
  show ?thesis unfolding validateSlide_def t o b by simp
qed

lemma validatePseudoTables_few:
  "length (textBoxes s) < 4 \<Longrightarrow> validatePseudoTables s = []"
  by (simp add: validatePseudoTables_def textBoxes_def Let_def)

lemma validatePseudoTables_grid:
  assumes "isGrid r c (textBoxes s)" "2 \<le> r" "2 \<le> c" "4 \<le> length (textBoxes s)"
  shows "validatePseudoTables s \<noteq> []"
proof -
  let ?tbs = "filter (\<lambda>e. el_type e = E_textbox) (elements s)"
  let ?M = "mset (map rowKey ?tbs)"
  from assms(1) have r: "length (remdups (map rowKey ?tbs)) = r"
    and c: "\<forall>k \<in> set (map rowKey ?tbs). length (filter (\<lambda>tb. rowKey tb = k) ?tbs) = c"
    unfolding isGrid_def textBoxes_def by blast+
  have "card (set_mset ?M) = card (set (map rowKey ?tbs))" by simp
  also have "\<dots> = length (remdups (map rowKey ?tbs))" by (rule length_remdups_card_conv [symmetric])
  finally have card: "2 \<le> card (set_mset ?M)" using r assms(2) by simp
  have "\<forall>k \<in># ?M. count ?M k = c"
  proof
    fix k assume "k \<in># ?M"
    then have "k \<in> set (map rowKey ?tbs)" by simp
    with c have "length (filter (\<lambda>tb. rowKey tb = k) ?tbs) = c" by blast
    then show "count ?M k = c" unfolding count_rowKey .
  qed
  with assms(3) have "\<exists>n\<ge>2. \<forall>k \<in># ?M. count ?M k = n" by blast
  with card assms(4) show ?thesis
    unfolding validatePseudoTables_nonempty_iff Let_def textBoxes_def by blast
qed

lemma validatePseudoTables_fields:
  assumes "validatePseudoTables s \<noteq> []"
  shows "map (\<lambda>i. (issue_id i, issue_type i, severity i, slideNumber i, elementId i))
           (validatePseudoTables s) =
         [(''slide-'' @ showInt (slide_number s) @ ''-pseudo-table'', pseudo_table, Sev_warning,
           Some (slide_number s), None)]"
  using assms by (simp add: validatePseudoTables_def Let_def split: if_splits)

lemma validateElement_bare_image:
  assumes "el_type img = E_image" "\<not> isDecorative img"
    "\<not> trimmed_truthy (altText (content img))" "\<not> truthy (hyperlink img)"
  shows "map (\<lambda>i. (issue_id i, issue_type i, severity i, slideNumber i, elementId i))
           (validateElement img n) =
         [(''slide-'' @ showInt n @ ''-'' @ el_id img @ ''-no-alt'', missing_alt_text, Sev_error,
           Some n, Some (el_id img))]"
  using assms by (simp add: validateElement_def validateImageAltText_def emptyElementIssues_def)

lemma showInt_small: "showInt 2 = ''2''" "showInt 3 = ''3''"
  by code_simp+

text \<open>
  Claim C5, as amended. Take a presentation of three slides numbered 1, 2 and 3 with
  described metadata that carries no finding of the parser, in which every slide is quiet
  (it has a title, a confident reading order, no overlapping elements, no background image
  left undecorated); the elements of slide 1 are quiet text elements with fewer than four
  text boxes among them; slide 2 holds, among quiet text elements with fewer than four
  text boxes, one image that is not decorative and has no alternative text; and the
  elements of slide 3 are quiet text elements whose six text boxes form a grid of two row
  bands of three or of three row bands of two. Then the report lists exactly two findings,
  in this order: the \<open>missing_alt_text\<close> error of the image on slide 2 and the
  \<open>pseudo_table\<close> warning of slide 3. The overall score is 80 (100 less 15 for the error
  and 5 for the warning), the counts are one error, one warning and no info, and the level
  is A.
\<close>

theorem C5_amended:
  assumes "documentDescribed p" and "pres_issues p = []"
    and "slides p = [s1, s2, s3]"
    and "slide_number s1 = 1" and "slide_number s2 = 2" and "slide_number s3 = 3"
    and "quietSlide s1" and "quietSlide s2" and "quietSlide s3"
    and "list_all quietElement (elements s1)" and "length (textBoxes s1) < 4"
    and "elements s2 = before @ img # after" and "list_all quietElement (before @ after)"
    and "length (textBoxes s2) < 4"
    and "el_type img = E_image" and "\<not> isDecorative img"
    and "\<not> trimmed_truthy (altText (content img))" and "\<not> truthy (hyperlink img)"
    and "el_issues img = []"
    and "list_all quietElement (elements s3)" and "length (textBoxes s3) = 6"
    and "isGrid 2 3 (textBoxes s3) \<or> isGrid 3 2 (textBoxes s3)"
  shows
  "(let r = validate p profile clock in
      map (\<lambda>i. (issue_id i, issue_type i, severity i, slideNumber i, elementId i)) (issues r) =
        [(''slide-2-'' @ el_id img @ ''-no-alt'', missing_alt_text, Sev_error, Some 2, Some (el_id img)),
         (''slide-3-pseudo-table'', pseudo_table, Sev_warning, Some 3, None)] \<and>
      overallScore r = 80 \<and> sum_errors (summary r) = 1 \<and> sum_warnings (summary r) = 1 \<and>
      sum_info (summary r) = 0 \<and> sum_total (summary r) = 2 \<and>
      report_wcagLevel r = Wcag_A \<and> \<not> pdfuaConformant r)"
proof -
  let ?F = "\<lambda>i. (issue_id i, issue_type i, severity i, slideNumber i, elementId i)"
  have q: "list_all quietElement before" "list_all quietElement after"
    using assms(13) by simp_all
  have v1: "validateSlide s1 = []"
    unfolding validateSlide_quiet [OF assms(7)] validateElements_quiet [OF assms(10)]
      validatePseudoTables_few [OF assms(11)] by simp
  have v2: "validateSlide s2 = validateElement img 2"
    unfolding validateSlide_quiet [OF assms(8)] validatePseudoTables_few [OF assms(14)]
      assms(12) assms(5)
    by (simp add: validateElements_quiet [OF q(1)] validateElements_quiet [OF q(2)])
  have g: "validatePseudoTables s3 \<noteq> []"
    using assms(22)
  proof
    assume "isGrid 2 3 (textBoxes s3)"
    then show ?thesis by (rule validatePseudoTables_grid) (simp_all add: assms(21))
  next
    assume "isGrid 3 2 (textBoxes s3)"
    then show ?thesis by (rule validatePseudoTables_grid) (simp_all add: assms(21))
  qed
  have v3: "validateSlide s3 = validatePseudoTables s3"
    unfolding validateSlide_quiet [OF assms(9)] validateElements_quiet [OF assms(20)] by simp
  have c: "collectPresentationIssues p = []"
    unfolding collectPresentationIssues_def assms(2) assms(3)
    using assms(7,8,9) assms(12)
    by (simp add: quietSlide_def collected_quiet [OF assms(10)] collected_quiet [OF assms(20)]
          collected_quiet [OF q(1)] collected_quiet [OF q(2)] assms(19))
  have a: "allIssues p = validateElement img 2 @ validatePseudoTables s3"
    unfolding allIssues_def validateDocument_described [OF assms(1)] assms(3) c
    by (simp add: v1 v2 v3)
  have fa: "map ?F (validateElement img 2) =
      [(''slide-2-'' @ el_id img @ ''-no-alt'', missing_alt_text, Sev_error, Some 2, Some (el_id img))]"
    using validateElement_bare_image [OF assms(15,16,17,18), of 2] by (simp add: showInt_small)
  have fb: "map ?F (validatePseudoTables s3) =
      [(''slide-3-pseudo-table'', pseudo_table, Sev_warning, Some 3, None)]"
    using validatePseudoTables_fields [OF g] by (simp add: assms(6) showInt_small)
  from fa obtain x where x: "validateElement img 2 = [x]" "?F x =
      (''slide-2-'' @ el_id img @ ''-no-alt'', missing_alt_text, Sev_error, Some 2, Some (el_id img))"
    by (auto simp: map_eq_Cons_conv)
  from fb obtain y where y: "validatePseudoTables s3 = [y]" "?F y =
      (''slide-3-pseudo-table'', pseudo_table, Sev_warning, Some 3, None)"
    by (auto simp: map_eq_Cons_conv)
  from x(2) y(2) have ne: "issue_id y \<noteq> issue_id x" by auto
  have d: "deduplicateIssues (allIssues p) = [x, y]"
    unfolding a x(1) y(1) deduplicateIssues_def using ne by simp
  have sx: "severity x = Sev_error" and sy: "severity y = Sev_warning"
    using x(2) y(2) by simp_all
  have i: "issues (validate p profile clock) = [x, y]"
    by (simp add: validate_def generateReport_def Let_def d)
  have m: "map ?F [x, y] =
        [(''slide-2-'' @ el_id img @ ''-no-alt'', missing_alt_text, Sev_error, Some 2, Some (el_id img)),
         (''slide-3-pseudo-table'', pseudo_table, Sev_warning, Some 3, None)]"
    using x(2) y(2) by simp
  have rest: "overallScore (validate p profile clock) = 80 \<and>
      sum_errors (summary (validate p profile clock)) = 1 \<and>
      sum_warnings (summary (validate p profile clock)) = 1 \<and>
      sum_info (summary (validate p profile clock)) = 0 \<and>
      sum_total (summary (validate p profile clock)) = 2 \<and>
      report_wcagLevel (validate p profile clock) = Wcag_A \<and>
      \<not> pdfuaConformant (validate p profile clock)"
    by (simp add: validate_def generateReport_def Let_def d sx sy countSeverity_def
          calculateScore_def determineConformance_def)
  show ?thesis unfolding Let_def i m using rest by simp
qed

lemma scenario_hypotheses:
  "documentDescribed scenarioPresentation"
  "pres_issues scenarioPresentation = []"
  "slides scenarioPresentation = [scenarioSlides ! 0, scenarioSlides ! 1, scenarioSlides ! 2]"
  "slide_number (scenarioSlides ! 0) = 1"
  "slide_number (scenarioSlides ! 1) = 2"
  "slide_number (scenarioSlides ! 2) = 3"
  "quietSlide (scenarioSlides ! 0)"
  "quietSlide (scenarioSlides ! 1)"
  "quietSlide (scenarioSlides ! 2)"
  "list_all quietElement (elements (scenarioSlides ! 0))"
  "length (textBoxes (scenarioSlides ! 0)) < 4"
  "elements (scenarioSlides ! 1) =
     [sampleElement ''t2'' E_title 0 0 (Some ''Lage'')] @ sampleElement ''img1'' E_image 0 100 None # []"
  "list_all quietElement ([sampleElement ''t2'' E_title 0 0 (Some ''Lage'')] @ [])"
  "length (textBoxes (scenarioSlides ! 1)) < 4"
  "el_type (sampleElement ''img1'' E_image 0 100 None) = E_image"
  "\<not> isDecorative (sampleElement ''img1'' E_image 0 100 None)"
  "\<not> trimmed_truthy (altText (content (sampleElement ''img1'' E_image 0 100 None)))"
  "\<not> truthy (hyperlink (sampleElement ''img1'' E_image 0 100 None))"
  "el_issues (sampleElement ''img1'' E_image 0 100 None) = []"
  "list_all quietElement (elements (scenarioSlides ! 2))"
  "length (textBoxes (scenarioSlides ! 2)) = 6"
  "isGrid 2 3 (textBoxes (scenarioSlides ! 2)) \<or> isGrid 3 2 (textBoxes (scenarioSlides ! 2))"
  by code_simp+

theorem C5_amended_witness:
  "map (\<lambda>i. (issue_id i, issue_type i, severity i, slideNumber i, elementId i))
     (issues (validate scenarioPresentation validatorDefaultProfile (clockAt epoch))) =
     [(''slide-2-img1-no-alt'', missing_alt_text, Sev_error, Some 2, Some ''img1''),
      (''slide-3-pseudo-table'', pseudo_table, Sev_warning, Some 3, None)] \<and>
   overallScore (validate scenarioPresentation validatorDefaultProfile (clockAt epoch)) = 80"
  using C5_amended [OF scenario_hypotheses, of validatorDefaultProfile "clockAt epoch"]
  by (simp add: Let_def sampleElement_def)

text \<open>
  Claim C5 as stated fails: on the three-slide scenario the report holds exactly the two
  findings, and the score is 80, not 85.
\<close>

theorem C5_counterexample:
  "map slide_number (slides scenarioPresentation) = [1, 2, 3] \<and>
   map (\<lambda>i. (issue_type i, severity i, slideNumber i))
     (issues (validate scenarioPresentation validatorDefaultProfile (clockAt epoch))) =
   [(missing_alt_text, Sev_error, Some 2), (pseudo_table, Sev_warning, Some 3)] \<and>
   overallScore (validate scenarioPresentation validatorDefaultProfile (clockAt epoch)) = 80 \<and>
   overallScore (validate scenarioPresentation validatorDefaultProfile (clockAt epoch)) \<noteq> 85"
proof -
  have "overallScore (validate scenarioPresentation validatorDefaultProfile (clockAt epoch)) = 80"
    by code_simp
  with scenario_findings scenario_shape show ?thesis by simp
qed

text \<open>
  The scenario with the image of slide 2 as the parser builds it: the element carries the
  parser's own finding for the missing alternative text, whose id differs from the id of
  the validator's finding, so the report lists the defect twice and the score is 65.
\<close>

theorem parsed_picture_reported_twice:
  "map (\<lambda>i. (issue_id i, issue_type i, severity i, slideNumber i))
     (issues (validate parsedScenario validatorDefaultProfile (clockAt epoch))) =
   [(''slide-2-4-no-alt'', missing_alt_text, Sev_error, Some 2),
    (''slide-3-pseudo-table'', pseudo_table, Sev_warning, Some 3),
    (''issue-4-missing-alt'', missing_alt_text, Sev_error, Some 2)] \<and>
   overallScore (validate parsedScenario validatorDefaultProfile (clockAt epoch)) = 65"
  by code_simp

subsection \<open>Decorative elements and the structure tree\<close>

text \<open>The structure element of an element depends neither on the font metrics nor on the
  height at which the element is drawn.\<close>

lemma renderListItems_kids:
  "fst (snd (renderListItems fonts i y its)) = fst (snd (renderListItems fonts' i y' its))"
  by (induction its arbitrary: i y y') (simp_all add: Let_def)

lemma renderCells_kids:
  "snd (renderCells h cw y ci cells) = snd (renderCells h cw' y' ci cells)"
  by (induction cells arbitrary: ci) (simp_all add: Let_def)

lemma renderRows_kids:
  "fst (snd (renderRows td cw ri y rws)) = fst (snd (renderRows td cw' ri y' rws))"
proof (induction rws arbitrary: ri y y')
  case Nil
  then show ?case by simp
next
  case (Cons row rws)
  have c: "snd (renderCells h cw (y - (bodySize * 2 + 8 * 2)) 0 row) =
           snd (renderCells h cw' (y' - (bodySize * 2 + 8 * 2)) 0 row)" for h
    by (rule renderCells_kids)
  show ?case
    using Cons.IH [of "Suc ri" "y - (bodySize * 2 + 8 * 2)" "y' - (bodySize * 2 + 8 * 2)"] c
    by (simp add: Let_def)
qed

lemma structure_renderElement:
  "r_structure (renderElement fonts opts e y) = r_structure (renderElement fonts' opts e y')"
proof -
  have l: "r_structure (renderList fonts opts e y) = r_structure (renderList fonts' opts e y')"
    using renderListItems_kids [of fonts 0 y _ fonts' y']
    by (simp add: renderList_def Let_def)
  have t: "r_structure (renderTable fonts opts e y) = r_structure (renderTable fonts' opts e y')"
    using renderRows_kids [of _ _ 0 y _ _ y']
    by (simp add: renderTable_def Let_def split: option.splits)
  have o: "r_structure (renderTitle fonts opts e y) = r_structure (renderTitle fonts' opts e y')"
    "r_structure (renderSubtitle fonts opts e y) = r_structure (renderSubtitle fonts' opts e y')"
    "r_structure (renderParagraph fonts opts e y) = r_structure (renderParagraph fonts' opts e y')"
    "r_structure (renderImage fonts opts e y) = r_structure (renderImage fonts' opts e y')"
    "r_structure (renderChart fonts opts e y) = r_structure (renderChart fonts' opts e y')"
    "r_structure (renderSmartArt fonts opts e y) = r_structure (renderSmartArt fonts' opts e y')"
    by (simp_all add: renderTitle_def renderSubtitle_def renderParagraph_def renderImage_def
          renderChart_def renderSmartArt_def Let_def)
  show ?thesis
    unfolding renderElement_def using l t o by (cases "el_type e") simp_all
qed

lemma renderElements_kids:
  "snd (renderElements fonts opts y es) =
     map (\<lambda>e. r_structure (renderElement fonts opts e 0)) (filter (\<lambda>e. \<not> isDecorative e) es)"
proof (induction es arbitrary: y)
  case Nil
  then show ?case by simp
next
  case (Cons e es)
  show ?case
  proof (cases "isDecorative e")
    case True
    then show ?thesis using Cons.IH [of y] by (simp add: Let_def)
  next
    case False
    then show ?thesis
      using Cons.IH [of "r_nextY (renderElement fonts opts e y)"]
        structure_renderElement [of fonts opts e y fonts 0]
      by (simp add: Let_def)
  qed
qed

lemma renderArtifact_images_only: "renderArtifact e = [] \<longleftrightarrow> el_type e \<noteq> E_image"
  by (simp add: renderArtifact_def Let_def)

lemma renderElements_untraced:
  "renderElements fonts opts y es =
   renderElements fonts opts y (filter (\<lambda>e. \<not> isDecorative e \<or> el_type e = E_image) es)"
proof (induction es arbitrary: y)
  case Nil
  then show ?case by simp
next
  case (Cons e es)
  show ?case
  proof (cases "isDecorative e")
    case dec: True
    show ?thesis
    proof (cases "el_type e = E_image")
      case True
      with dec show ?thesis using Cons.IH [of y] by (simp add: Let_def)
    next
      case False
      then have "renderArtifact e = []" by (simp add: renderArtifact_images_only)
      with dec False show ?thesis using Cons.IH [of y] by (simp add: Let_def)
    qed
  next
    case False
    then show ?thesis
      using Cons.IH [of "r_nextY (renderElement fonts opts e y)"] by (simp add: Let_def)
  qed
qed

lemma renderSlide_tree:
  "gs_structureTree (renderSlide fonts opts st slide) =
     gs_structureTree st @
       [StructElem Role_Part
          (map (\<lambda>e. r_structure (renderElement fonts opts e 0))
               (filter (\<lambda>e. \<not> isDecorative e) (getOrderedElements slide)))
          (Some [(''Pg'', PageRef (gs_pageCount st))]) None None None]"
  by (simp add: renderSlide_def Let_def renderElements_kids)

lemma renderSlide_pages:
  "gs_pages (renderSlide fonts opts st slide) =
     gs_pages st @ [fst (renderElements fonts opts (pageHeight - margin) (getOrderedElements slide))]"
  by (simp add: renderSlide_def Let_def)

lemma foldl_renderSlide_kids:
  "map se_kids (gs_structureTree (foldl (renderSlide fonts opts) st ss)) =
     map se_kids (gs_structureTree st) @
       map (\<lambda>slide. map (\<lambda>e. r_structure (renderElement fonts opts e 0))
                        (filter (\<lambda>e. \<not> isDecorative e) (getOrderedElements slide))) ss"
  by (induction ss arbitrary: st) (simp_all add: renderSlide_tree)

lemma generate_tree:
  "gs_structureTree (generate fonts opts clock p) =
     gs_structureTree (foldl (renderSlide fonts opts)
       (initialState\<lparr>gs_info := setMetadata opts clock p emptyInfo\<rparr>) (slides p))"
  by (simp add: generate_def Let_def)

lemma elementMap_map:
  assumes "\<And>e. el_id (g e) = el_id e"
  shows "elementMap (map g es) k = map_option g (elementMap es k)"
proof -
  have "map (\<lambda>e. (el_id e, e)) (map g es) = map (\<lambda>(k, v). (k, g v)) (map (\<lambda>e. (el_id e, e)) es)"
    by (simp add: assms)
  then have "rev (map (\<lambda>e. (el_id e, e)) (map g es)) =
      map (\<lambda>(k, v). (k, g v)) (rev (map (\<lambda>e. (el_id e, e)) es))"
    by (simp add: rev_map)
  then show ?thesis
    unfolding elementMap_def by (simp add: map_of_map)
qed

lemma map_filter_map_option:
  "List.map_filter (\<lambda>k. map_option g (m k)) ks = map g (List.map_filter m ks)"
  by (induction ks) (auto simp: List.map_filter_simps split: option.splits)

lemma getOrderedElements_map:
  assumes "\<And>e. el_id (g e) = el_id e"
  shows "getOrderedElements (slide\<lparr>elements := map g (elements slide)\<rparr>) =
         map g (getOrderedElements slide)"
proof -
  have m: "elementMap (map g (elements slide)) = (\<lambda>k. map_option g (elementMap (elements slide) k))"
    by (rule ext) (rule elementMap_map, rule assms)
  show ?thesis
    by (simp add: getOrderedElements_def m map_filter_map_option filter_map comp_def assms)
qed

lemma filter_map_frame:
  assumes "\<And>e. isDecorative (g e) = isDecorative e" "\<And>e. \<not> isDecorative e \<Longrightarrow> g e = e"
  shows "filter (\<lambda>e. \<not> isDecorative e) (map g es) = filter (\<lambda>e. \<not> isDecorative e) es"
  using assms by (induction es) simp_all

text \<open>
  The structure tree holds one \<open>Part\<close> node per slide, and the kids of a slide's node are
  exactly the structure elements of the slide's ordered elements that are not decorative,
  in order: a decorative element contributes no node. Moreover the tree does not depend on
  what a decorative element carries: replacing the decorative elements of a slide by
  elements of the same id that are still decorative (whatever their type, role, text or
  alternative text) leaves the kids of the slide's node unchanged.
\<close>

theorem structure_tree_excludes_decorative:
  "map se_kids (gs_structureTree (generate fonts opts clock p)) =
     map (\<lambda>slide. map (\<lambda>e. r_structure (renderElement fonts opts e 0))
                     (filter (\<lambda>e. \<not> isDecorative e) (getOrderedElements slide)))
         (slides p) \<and>
   map se_role (gs_structureTree (generate fonts opts clock p)) = map (\<lambda>slide. Role_Part) (slides p) \<and>
   se_kids (last (gs_structureTree (renderSlide fonts opts st slide))) =
     map (\<lambda>e. r_structure (renderElement fonts opts e 0))
         (filter (\<lambda>e. \<not> isDecorative e) (getOrderedElements slide)) \<and>
   length (se_kids (last (gs_structureTree (renderSlide fonts opts st slide)))) =
     length (filter (\<lambda>e. \<not> isDecorative e) (getOrderedElements slide)) \<and>
   ((\<forall>e. isDecorative (g e) = isDecorative e \<and> el_id (g e) = el_id e \<and>
         (\<not> isDecorative e \<longrightarrow> g e = e)) \<longrightarrow>
    se_kids (last (gs_structureTree (renderSlide fonts opts st (slide\<lparr>elements := map g (elements slide)\<rparr>)))) =
    se_kids (last (gs_structureTree (renderSlide fonts opts st slide))))"
proof -
  have roles: "map se_role (gs_structureTree (foldl (renderSlide fonts opts) st' ss)) =
      map se_role (gs_structureTree st') @ map (\<lambda>slide. Role_Part) ss" for st' ss
    by (induction ss arbitrary: st') (simp_all add: renderSlide_tree)
  have frame: "se_kids (last (gs_structureTree (renderSlide fonts opts st (slide\<lparr>elements := map g (elements slide)\<rparr>)))) =
      se_kids (last (gs_structureTree (renderSlide fonts opts st slide)))"
    if "\<forall>e. isDecorative (g e) = isDecorative e \<and> el_id (g e) = el_id e \<and> (\<not> isDecorative e \<longrightarrow> g e = e)"
    using that by (simp add: renderSlide_tree getOrderedElements_map filter_map_frame)
  show ?thesis
    using frame
    by (simp add: generate_tree foldl_renderSlide_kids roles renderSlide_tree initialState_def)
qed

lemma decoratedSlide_kids:
  "map (\<lambda>e. r_structure (renderElement halfEm (newPdfUaGenerator noOptions) e 0))
     (filter (\<lambda>e. \<not> isDecorative e) (getOrderedElements decoratedSlide)) =
   [StructElem Role_H1 [] None (Some ''Titel'') None (Some ''de''),
    StructElem Role_P [] None (Some ''Text'') None (Some ''de'')]"
  by code_simp

theorem structure_tree_excludes_decorative_witness:
  "se_kids (last (gs_structureTree
      (renderSlide halfEm (newPdfUaGenerator noOptions) initialState decoratedSlide))) =
     [StructElem Role_H1 [] None (Some ''Titel'') None (Some ''de''),
      StructElem Role_P [] None (Some ''Text'') None (Some ''de'')] \<and>
   se_kids (last (gs_structureTree
      (renderSlide halfEm (newPdfUaGenerator noOptions) initialState
         (decoratedSlide\<lparr>elements :=
            map (\<lambda>e. if isDecorative e then e\<lparr>el_type := E_chart, semanticRole := Role_Figure\<rparr> else e)
                (elements decoratedSlide)\<rparr>)))) =
     [StructElem Role_H1 [] None (Some ''Titel'') None (Some ''de''),
      StructElem Role_P [] None (Some ''Text'') None (Some ''de'')]"
  using structure_tree_excludes_decorative [of halfEm "newPdfUaGenerator noOptions" "clockAt epoch"
          scenarioPresentation initialState decoratedSlide
          "\<lambda>e. if isDecorative e then e\<lparr>el_type := E_chart, semanticRole := Role_Figure\<rparr> else e"]
        decoratedSlide_kids
  by simp

text \<open>
  What is drawn for a decorative element: one rectangle for an image, nothing for an
  element of any other type. The drawing calls and the kids of a page are those of the
  ordered elements without the decorative elements that are not images, and they do not
  depend on the background elements of the slide.
\<close>

theorem decorative_elements_drawn:
  "(renderArtifact e = [] \<longleftrightarrow> el_type e \<noteq> E_image) \<and>
   length (renderArtifact e) \<le> 1 \<and>
   renderElements fonts opts y es =
     renderElements fonts opts y (filter (\<lambda>e. \<not> isDecorative e \<or> el_type e = E_image) es) \<and>
   gs_pages (renderSlide fonts opts st slide) =
     gs_pages st @
       [fst (renderElements fonts opts (pageHeight - margin)
               (filter (\<lambda>e. \<not> isDecorative e \<or> el_type e = E_image) (getOrderedElements slide)))] \<and>
   gs_pages (renderSlide fonts opts st (slide\<lparr>backgroundElements := bg\<rparr>)) =
     gs_pages (renderSlide fonts opts st slide)"
proof -
  have a: "length (renderArtifact e) \<le> 1" by (simp add: renderArtifact_def Let_def)
  have b: "getOrderedElements (slide\<lparr>backgroundElements := bg\<rparr>) = getOrderedElements slide"
    by (simp add: getOrderedElements_def)
  show ?thesis
    using a renderElements_untraced [of fonts opts y es]
      renderElements_untraced [of fonts opts "pageHeight - margin" "getOrderedElements slide"]
    by (simp add: renderArtifact_images_only renderSlide_pages b)
qed

text \<open>
  Claim C6. The first half of the claim holds: the structure tree has no node for a
  decorative element (\<open>structure_tree_excludes_decorative\<close>). The second half, that a
  decorative element is rendered visually as an artifact, does not hold of the code:
  \<^verbatim>\<open>renderArtifact\<close> draws for an image only. The slide below holds a title, a decorative
  shape of a group as the parser builds it (its description is explicitly empty), a
  decorative image and a paragraph. The page receives the title line, the rectangle of
  the decorative image and the paragraph line: nothing is drawn for the decorative shape,
  and the structure tree has the two nodes of the title and the paragraph.
\<close>

theorem C6_failing_input:
  "map el_id (getOrderedElements adornedSlide) = [''t'', ''9'', ''deco'', ''p''] \<and>
   map el_type (getOrderedElements adornedSlide) = [E_title, E_textbox, E_image, E_paragraph] \<and>
   map isDecorative (getOrderedElements adornedSlide) = [False, True, True, False] \<and>
   position groupedDecoration =
     \<lparr>pos_x = 0, pos_y = 500, pos_width = 600, pos_height = 10, pos_zOrder = 0\<rparr> \<and>
   renderArtifact groupedDecoration = [] \<and>
   gs_pages (renderSlide halfEm (newPdfUaGenerator noOptions) initialState adornedSlide) =
     [[DrawText ''Titel'' 50 (51168 / 100) 28 Font_bold colorHeading,
       DrawRectangle 50 (44528 / 100) 150 50 None None (RGB (9 / 10) (9 / 10) (9 / 10)) (Some (3 / 10)),
       DrawText ''Text'' 50 (48088 / 100) 12 Font_regular colorText]] \<and>
   se_kids (last (gs_structureTree
      (renderSlide halfEm (newPdfUaGenerator noOptions) initialState adornedSlide))) =
     [StructElem Role_H1 [] None (Some ''Titel'') None (Some ''de''),
      StructElem Role_P [] None (Some ''Text'') None (Some ''de'')]"
  by code_simp

subsection \<open>Reading order\<close>

text \<open>
  Where the ordering is right: for every slide whose elements carry pairwise distinct ids
  and whose reading order has no repeated entry and names only ids of elements of the
  slide, the ordered elements are a permutation of the slide's elements without
  repetition: the elements named by the reading order come first, in that order, and the
  elements it does not name follow in the order of the elements list.
\<close>

theorem getOrderedElements_permutation:
  assumes "distinct (map el_id (elements slide))"
    and "distinct (readingOrder slide)"
    and "set (readingOrder slide) \<subseteq> el_id ` set (elements slide)"
  shows "mset (getOrderedElements slide) = mset (elements slide) \<and>
         distinct (getOrderedElements slide) \<and>
         map el_id (take (length (readingOrder slide)) (getOrderedElements slide)) = readingOrder slide \<and>
         drop (length (readingOrder slide)) (getOrderedElements slide) =
           filter (\<lambda>e. el_id e \<notin> set (readingOrder slide)) (elements slide)"
proof -
  let ?es = "elements slide" and ?ro = "readingOrder slide"
  let ?L = "List.map_filter (elementMap ?es) ?ro"
  have des: "distinct ?es" using assms(1) by (rule distinct_map [THEN iffD1, THEN conjunct1])
  have inj: "inj_on el_id (set ?es)" using assms(1) by (simp add: distinct_map)
  have lookup: "elementMap ?es k = Some e \<longleftrightarrow> e \<in> set ?es \<and> el_id e = k" for k e
  proof -
    have d: "distinct (map fst (rev (map (\<lambda>e. (el_id e, e)) ?es)))"
      using assms(1) by (simp add: rev_map [symmetric] comp_def)
    have "elementMap ?es k = Some e \<longleftrightarrow> (k, e) \<in> set (rev (map (\<lambda>e. (el_id e, e)) ?es))"
      unfolding elementMap_def by (rule map_of_eq_Some_iff [OF d])
    also have "\<dots> \<longleftrightarrow> e \<in> set ?es \<and> el_id e = k" by (simp add: image_iff) blast
    finally show ?thesis .
  qed
  have found: "\<exists>e. elementMap ?es k = Some e" if "k \<in> set ?ro" for k
    using that assms(3) lookup by blast
  have L_ids: "set ks \<subseteq> set ?ro \<Longrightarrow> map el_id (List.map_filter (elementMap ?es) ks) = ks" for ks
  proof (induction ks)
    case Nil
    then show ?case by (simp add: List.map_filter_simps)
  next
    case (Cons k ks)
    then obtain e where e: "elementMap ?es k = Some e" using found by auto
    with lookup have "el_id e = k" by simp
    with Cons e show ?case by (simp add: List.map_filter_simps)
  qed
  have ids: "map el_id ?L = ?ro" using L_ids by simp
  have len: "length ?L = length ?ro" using arg_cong [OF ids, of length] by simp
  have dL: "distinct ?L"
  proof -
    have "distinct (map el_id ?L)" using ids assms(2) by simp
    then show ?thesis by (rule distinct_map [THEN iffD1, THEN conjunct1])
  qed
  have setL: "set ?L = {e \<in> set ?es. el_id e \<in> set ?ro}"
  proof
    show "set ?L \<subseteq> {e \<in> set ?es. el_id e \<in> set ?ro}"
    proof
      fix e assume "e \<in> set ?L"
      then obtain k where "k \<in> set ?ro" "elementMap ?es k = Some e"
        by (auto simp: List.map_filter_def)
      with lookup show "e \<in> {e \<in> set ?es. el_id e \<in> set ?ro}" by simp
    qed
    show "{e \<in> set ?es. el_id e \<in> set ?ro} \<subseteq> set ?L"
    proof
      fix e assume "e \<in> {e \<in> set ?es. el_id e \<in> set ?ro}"
      then have "e \<in> set ?es" "el_id e \<in> set ?ro" by auto
      then have "elementMap ?es (el_id e) = Some e" using lookup by simp
      with \<open>el_id e \<in> set ?ro\<close> show "e \<in> set ?L"
        unfolding List.map_filter_def by (simp add: image_iff) (metis option.sel option.distinct(1))
    qed
  qed
  have sF: "set ?L = set (filter (\<lambda>e. el_id e \<in> set ?ro) ?es)" using setL by simp
  have dF: "distinct (filter (\<lambda>e. el_id e \<in> set ?ro) ?es)" using des by simp
  have "mset ?L = mset (filter (\<lambda>e. el_id e \<in> set ?ro) ?es)"
    using set_eq_iff_mset_eq_distinct [OF dL dF] sF by blast
  then have m: "mset (getOrderedElements slide) = mset ?es"
    unfolding getOrderedElements_def by (simp add: multiset_partition [symmetric])
  have d: "distinct (getOrderedElements slide)"
    unfolding getOrderedElements_def distinct_append using dL des setL by auto
  have t: "take (length ?ro) (getOrderedElements slide) = ?L"
    unfolding getOrderedElements_def using len by simp
  have dr: "drop (length ?ro) (getOrderedElements slide) = filter (\<lambda>e. el_id e \<notin> set ?ro) ?es"
    unfolding getOrderedElements_def using len by simp
  from m d t dr ids show ?thesis by simp
qed


theorem getOrderedElements_permutation_witness:
  "map el_id (getOrderedElements partialOrderSlide) = [''c'', ''a'', ''b''] \<and>
   mset (getOrderedElements partialOrderSlide) = mset (elements partialOrderSlide)"
proof -
  have h1: "distinct (map el_id (elements partialOrderSlide))"
    by (simp add: partialOrderSlide_def sampleSlide_def sampleElement_def)
  have h2: "distinct (readingOrder partialOrderSlide)"
    by (simp add: partialOrderSlide_def sampleSlide_def)
  have h3: "set (readingOrder partialOrderSlide) \<subseteq> el_id ` set (elements partialOrderSlide)"
    by (simp add: partialOrderSlide_def sampleSlide_def sampleElement_def)
  have ids: "map el_id (getOrderedElements partialOrderSlide) = [''c'', ''a'', ''b'']"
    by code_simp
  from getOrderedElements_permutation [OF h1 h2 h3] ids show ?thesis by simp
qed

text \<open>Decimal rendering of a large number, the elements the parser builds from shapes
  without an id, and the ordering of two elements that share an id.\<close>

lemma showDigits_pos:
  "f \<noteq> 0 \<Longrightarrow> showDigits f n =
     (if n < 10 then [digitChar n] else showDigits (f - 1) (n div 10) @ [digitChar (n mod 10)])"
  by (cases f) simp_all

lemma digitChar_values:
  "digitChar 0 = CHR ''0''" "digitChar (Suc 0) = CHR ''1''" "digitChar 2 = CHR ''2''"
  "digitChar 3 = CHR ''3''" "digitChar 4 = CHR ''4''" "digitChar 5 = CHR ''5''"
  "digitChar 6 = CHR ''6''" "digitChar 7 = CHR ''7''" "digitChar 8 = CHR ''8''"
  "digitChar 9 = CHR ''9''"
  by code_simp+

lemma fallback_id: "showInt 1700000000000 = ''1700000000000''"
  by (simp add: showInt_def showNat_def showDigits_pos digitChar_values)

lemma parseShape_idless:
  "map_option el_id (parseShape now (idlessShape name ph txt) n) = Some (''shape-'' @ showInt now)"
  "map_option textOrEmpty (parseShape now (idlessShape name ph txt) n) = Some txt"
  by (simp_all add: parseShape_def idlessShape_def Let_def textOrEmpty_def extractTextContent_def
       bodyParagraphs_def paragraphsText_def paragraphRuns_def runText_def indexOfParagraph_def)

lemma shared_id_ordering:
  assumes "elements s = [e1, e2]" "el_id e1 = el_id e2" "readingOrder s = [el_id e1, el_id e2]"
  shows "getOrderedElements s = [e2, e2]"
  using assms by (simp add: getOrderedElements_def elementMap_def List.map_filter_simps)

text \<open>
  Claim C7. The claim (a reading order that names only elements present makes the ordered
  elements a permutation of the slide's elements, none rendered twice, none dropped) does
  not hold of the code on two slides that the pipeline itself produces. On the first, the
  parser has given its fallback id to two shapes read within one millisecond; the reading
  order names only ids of elements of the slide, and the ordering holds the text box
  twice and the title not at all. On the second, the reading order names one of three
  elements twice, and that element is rendered twice.
\<close>

theorem C7_failing_inputs:
  "map el_id (elements collidingIdSlide) = [''shape-1700000000000'', ''shape-1700000000000''] \<and>
   map el_type (elements collidingIdSlide) = [E_title, E_textbox] \<and>
   map textOrEmpty (elements collidingIdSlide) = [''Lagebericht'', ''Der Bericht''] \<and>
   readingOrder collidingIdSlide = [''shape-1700000000000'', ''shape-1700000000000''] \<and>
   set (readingOrder collidingIdSlide) \<subseteq> el_id ` set (elements collidingIdSlide) \<and>
   map el_type (getOrderedElements collidingIdSlide) = [E_textbox, E_textbox] \<and>
   map textOrEmpty (getOrderedElements collidingIdSlide) = [''Der Bericht'', ''Der Bericht''] \<and>
   map el_id (elements repeatedOrderSlide) = [''a'', ''b'', ''c''] \<and>
   readingOrder repeatedOrderSlide = [''a'', ''a'', ''b''] \<and>
   set (readingOrder repeatedOrderSlide) \<subseteq> el_id ` set (elements repeatedOrderSlide) \<and>
   map el_id (getOrderedElements repeatedOrderSlide) = [''a'', ''a'', ''b'', ''c'']"
proof -
  define e1 where "e1 = the (parseShape 1700000000000 (idlessShape ''Titel 1'' (Some ''title'') ''Lagebericht'') 1)"
  define e2 where "e2 = the (parseShape 1700000000000 (idlessShape ''Textfeld 2'' None ''Der Bericht'') 1)"
  have i: "el_id e1 = ''shape-1700000000000''" "el_id e2 = ''shape-1700000000000''"
    using parseShape_idless(1) [of 1700000000000 "''Titel 1''" "Some ''title''" "''Lagebericht''" 1]
      parseShape_idless(1) [of 1700000000000 "''Textfeld 2''" None "''Der Bericht''" 1]
    by (auto simp: e1_def e2_def fallback_id)
  have x: "textOrEmpty e1 = ''Lagebericht''" "textOrEmpty e2 = ''Der Bericht''"
    using parseShape_idless(2) [of 1700000000000 "''Titel 1''" "Some ''title''" "''Lagebericht''" 1]
      parseShape_idless(2) [of 1700000000000 "''Textfeld 2''" None "''Der Bericht''" 1]
    by (auto simp: e1_def e2_def)
  have t: "el_type e1 = E_title" "el_type e2 = E_textbox"
    by (simp_all add: e1_def e2_def parseShape_def idlessShape_def Let_def mapPlaceholderToType_def
          placeholderTypeMap_def toLowerCase_def toLowerChar_def)
  have es: "elements collidingIdSlide = [e1, e2]"
    and ro: "readingOrder collidingIdSlide = [el_id e1, el_id e2]"
    by (simp_all add: collidingIdSlide_def Let_def e1_def e2_def)
  have o: "getOrderedElements collidingIdSlide = [e2, e2]"
    using es _ ro by (rule shared_id_ordering) (simp add: i)
  have c: "map el_id (elements repeatedOrderSlide) = [''a'', ''b'', ''c'']"
    "readingOrder repeatedOrderSlide = [''a'', ''a'', ''b'']"
    "map el_id (getOrderedElements repeatedOrderSlide) = [''a'', ''a'', ''b'', ''c'']"
    by code_simp+
  have d: "set (readingOrder repeatedOrderSlide) \<subseteq> el_id ` set (elements repeatedOrderSlide)"
    unfolding c(2) image_set c(1) by simp
  show ?thesis
    unfolding es ro o using i x t c d by simp
qed

subsection \<open>Document metadata\<close>

lemma gs_info_foldl_renderSlide:
  "gs_info (foldl (renderSlide fonts opts) st ss) = gs_info st"
  by (induction ss arbitrary: st) (simp_all add: renderSlide_def Let_def)

lemma info_generate:
  "info_title (gs_info (generate fonts opts clock p)) = info_title (setMetadata opts clock p emptyInfo)"
  "info_language (gs_info (generate fonts opts clock p)) = info_language (setMetadata opts clock p emptyInfo)"
  by (simp_all add: generate_def Let_def setPdfUaIdentifier_def gs_info_foldl_renderSlide)

lemma setMetadata_title:
  "info_title (setMetadata opts clock p doc) =
     Some (if truthy (opt_documentTitle opts) then the (opt_documentTitle opts)
           else if md_title (metadata p) \<noteq> [] then md_title (metadata p)
           else ''Unbenannte Pr'' @ [CHR 0xE4] @ ''sentation'')"
  by (simp add: setMetadata_def Let_def)

lemma setMetadata_language:
  "info_language (setMetadata opts clock p doc) =
     Some (if truthy (opt_language opts) then the (opt_language opts)
           else if md_language (metadata p) \<noteq> [] then md_language (metadata p)
           else ''de'')"
  by (simp add: setMetadata_def Let_def)

lemma newPdfUaGenerator_fields:
  "opt_documentTitle (newPdfUaGenerator options) = opt_documentTitle options"
  "opt_language (newPdfUaGenerator options) =
     (if truthy (opt_language options) then opt_language options else Some ''de'')"
  by (simp_all add: newPdfUaGenerator_def)

text \<open>
  Claim C8, as amended. The title of the output document is the generator's
  \<open>documentTitle\<close> option when one is given, else the model's title when it is not empty,
  else a fixed placeholder. The language of the output is the generator's \<open>language\<close>
  option when one is given; a language tag is always present and not empty, and it is
  \<open>de\<close> when neither an option nor the model gives one. With the options the conversion
  route builds from the model, the model's title and language appear verbatim in the
  output. The report's \<open>documentTitle\<close> is the model's title when it is not empty, and
  \<open>Unbenannt\<close> otherwise.
\<close>

theorem C8_amended:
  "(let out = gs_info (generateAccessiblePdf fonts p options clock);
        routed = gs_info (generateAccessiblePdf fonts p (routeOptions profile p) clock)
    in info_title out =
         Some (if truthy (opt_documentTitle options) then the (opt_documentTitle options)
               else if md_title (metadata p) \<noteq> [] then md_title (metadata p)
               else ''Unbenannte Pr'' @ [CHR 0xE4] @ ''sentation'') \<and>
       (truthy (opt_language options) \<longrightarrow> info_language out = opt_language options) \<and>
       (\<not> truthy (opt_language options) \<and> md_language (metadata p) = [] \<longrightarrow>
          info_language out = Some ''de'') \<and>
       (\<exists>l. info_language out = Some l \<and> l \<noteq> []) \<and>
       (md_title (metadata p) \<noteq> [] \<longrightarrow> info_title routed = Some (md_title (metadata p))) \<and>
       (md_language (metadata p) \<noteq> [] \<longrightarrow> info_language routed = Some (md_language (metadata p))) \<and>
       (md_title (metadata p) \<noteq> [] \<longrightarrow>
          documentTitle (validate p profile vclock) = md_title (metadata p)) \<and>
       (md_title (metadata p) = [] \<longrightarrow> documentTitle (validate p profile vclock) = ''Unbenannt''))"
proof -
  have t: "truthy (Some s) \<longleftrightarrow> s \<noteq> []" for s by simp
  have l: "\<exists>l. info_language (gs_info (generateAccessiblePdf fonts p options clock)) = Some l \<and> l \<noteq> []"
    by (cases "opt_language options")
       (simp_all add: generateAccessiblePdf_def info_generate setMetadata_language
          newPdfUaGenerator_fields)
  have o: "info_language (gs_info (generateAccessiblePdf fonts p options clock)) = opt_language options"
    if "truthy (opt_language options)"
    using that
    by (cases "opt_language options")
       (simp_all add: generateAccessiblePdf_def info_generate setMetadata_language
          newPdfUaGenerator_fields)
  have d: "info_language (gs_info (generateAccessiblePdf fonts p options clock)) = Some ''de''"
    if "\<not> truthy (opt_language options)"
    using that
    by (simp add: generateAccessiblePdf_def info_generate setMetadata_language
          newPdfUaGenerator_fields)
  have r: "info_title (gs_info (generateAccessiblePdf fonts p (routeOptions profile p) clock)) =
        Some (md_title (metadata p))" if "md_title (metadata p) \<noteq> []"
    using that
    by (simp add: generateAccessiblePdf_def info_generate setMetadata_title
          newPdfUaGenerator_fields routeOptions_def)
  have rl: "info_language (gs_info (generateAccessiblePdf fonts p (routeOptions profile p) clock)) =
        Some (md_language (metadata p))" if "md_language (metadata p) \<noteq> []"
    using that
    by (simp add: generateAccessiblePdf_def info_generate setMetadata_language
          newPdfUaGenerator_fields routeOptions_def)
  have ti: "info_title (gs_info (generateAccessiblePdf fonts p options clock)) =
         Some (if truthy (opt_documentTitle options) then the (opt_documentTitle options)
               else if md_title (metadata p) \<noteq> [] then md_title (metadata p)
               else ''Unbenannte Pr'' @ [CHR 0xE4] @ ''sentation'')"
    by (simp add: generateAccessiblePdf_def info_generate setMetadata_title newPdfUaGenerator_fields)
  have dt: "documentTitle (validate p profile vclock) =
      (if md_title (metadata p) \<noteq> [] then md_title (metadata p) else ''Unbenannt'')"
    by (simp add: validate_def generateReport_def Let_def)
  show ?thesis
    unfolding Let_def using l o d r rl ti dt by simp
qed

theorem C8_amended_witness:
  "info_title (gs_info (generateAccessiblePdf halfEm englishPresentation
       (routeOptions validatorDefaultProfile englishPresentation) (clockAt epoch))) = Some ''Annual report'' \<and>
   info_language (gs_info (generateAccessiblePdf halfEm englishPresentation
       (routeOptions validatorDefaultProfile englishPresentation) (clockAt epoch))) = Some ''en'' \<and>
   info_language (gs_info (generateAccessiblePdf halfEm englishPresentation
       (noOptions\<lparr>opt_language := Some ''fr''\<rparr>) (clockAt epoch))) = Some ''fr'' \<and>
   info_language (gs_info (generateAccessiblePdf halfEm (englishPresentation\<lparr>metadata := sampleMetadata [] []\<rparr>)
       noOptions (clockAt epoch))) = Some ''de'' \<and>
   documentTitle (validate englishPresentation validatorDefaultProfile (clockAt epoch)) = ''Annual report'' \<and>
   documentTitle (validate (englishPresentation\<lparr>metadata := sampleMetadata [] []\<rparr>)
       validatorDefaultProfile (clockAt epoch)) = ''Unbenannt''"
  using C8_amended [of halfEm englishPresentation "noOptions\<lparr>opt_language := Some ''fr''\<rparr>" "clockAt epoch"
          validatorDefaultProfile "clockAt epoch"]
        C8_amended [of halfEm "englishPresentation\<lparr>metadata := sampleMetadata [] []\<rparr>" noOptions "clockAt epoch"
          validatorDefaultProfile "clockAt epoch"]
  by (simp add: Let_def englishPresentation_def sampleMetadata_def noOptions_def)

text \<open>
  Claim C8 as stated fails: an option of the generator takes precedence over the model.
  The model's title is \<open>Annual report\<close> and the output's title is the configured
  \<open>Custom title\<close>; the model's language is \<open>en\<close> and the output's language is the
  configured \<open>fr\<close>.
\<close>

theorem C8_counterexample:
  "md_title (metadata englishPresentation) = ''Annual report'' \<and>
   info_title (gs_info (generateAccessiblePdf halfEm englishPresentation customTitleOptions (clockAt epoch))) =
     Some ''Custom title'' \<and>
   md_language (metadata englishPresentation) = ''en'' \<and>
   info_language (gs_info (generateAccessiblePdf halfEm englishPresentation
       (noOptions\<lparr>opt_language := Some ''fr''\<rparr>) (clockAt epoch))) = Some ''fr''"
  by (simp add: generateAccessiblePdf_def info_generate setMetadata_title setMetadata_language
        newPdfUaGenerator_fields customTitleOptions_def noOptions_def englishPresentation_def
        sampleMetadata_def)

subsection \<open>Blank descriptions\<close>

lemma extractAltText_descr:
  assumes "cnv_descr c = Some d"
  shows "ati_isDecorative (extractAltText (Some c)) =
           (extractDecorativeFlag (cnv_extLst c) \<or> d = [] \<or> d = '' '')"
    and "d \<noteq> [] \<Longrightarrow> ati_altText (extractAltText (Some c)) = Some d"
  using assms by (simp_all add: extractAltText_def Let_def)

lemma determineAltTextStatus_cases:
  "determineAltTextStatus alt True t = Alt_decorative"
  "trim d = [] \<Longrightarrow> determineAltTextStatus (Some d) False t = Alt_missing"
  by (simp_all add: determineAltTextStatus_def)

lemma blank_status:
  assumes "cnv_descr c = Some d" and "trim d = []"
  shows "determineAltTextStatus (ati_altText (extractAltText (Some c)))
           (ati_isDecorative (extractAltText (Some c))) t =
         (if extractDecorativeFlag (cnv_extLst c) \<or> d = [] \<or> d = '' ''
          then Alt_decorative else Alt_missing)"
proof (cases "extractDecorativeFlag (cnv_extLst c) \<or> d = [] \<or> d = '' ''")
  case True
  then show ?thesis
    using extractAltText_descr(1) [OF assms(1)] by (simp add: determineAltTextStatus_cases)
next
  case False
  then have "d \<noteq> []" by simp
  then have "ati_altText (extractAltText (Some c)) = Some d"
    by (rule extractAltText_descr(2) [OF assms(1)])
  with False assms(2) show ?thesis
    using extractAltText_descr(1) [OF assms(1)] by (simp add: determineAltTextStatus_cases)
qed

lemma parsePicture_fields:
  assumes "pic_nvPicPr pic = Some (Some c)"
  shows "\<exists>e. parsePicture now pic n = Some e \<and>
           isDecorative e = ati_isDecorative (extractAltText (Some c)) \<and>
           altTextStatus (content e) =
             determineAltTextStatus (ati_altText (extractAltText (Some c)))
               (ati_isDecorative (extractAltText (Some c))) E_image"
  using assms by (simp add: parsePicture_def Let_def)

lemma parseShape_fields:
  assumes "sp_nvSpPr shp = Some nv" and "nv_cNvPr nv = Some c"
  shows "\<exists>e. parseShape now shp n = Some e \<and>
           isDecorative e = ati_isDecorative (extractAltText (Some c)) \<and>
           altTextStatus (content e) =
             determineAltTextStatus (ati_altText (extractAltText (Some c)))
               (ati_isDecorative (extractAltText (Some c))) (el_type e)"
  using assms by (simp add: parseShape_def Let_def)

text \<open>
  Claim C9, as amended. For a picture node and a shape node whose description attribute is
  empty or consists of white space only: the element is decorative exactly when the
  description is the empty string or the string of one space, or the node carries the
  decorative extension marker; then its status is \<open>decorative\<close>. Otherwise (a description
  of two or more white-space characters, or of one white-space character other than the
  space, and no marker) the element is not decorative and its status is \<open>missing\<close>. In
  no case is the status \<open>present\<close>.
\<close>

theorem C9_amended:
  assumes "cnv_descr c = Some d" and "trim d = []"
    and "pic_nvPicPr pic = Some (Some c)"
    and "sp_nvSpPr shp = Some nv" and "nv_cNvPr nv = Some c"
  shows "\<exists>pe se. parsePicture now pic n = Some pe \<and> parseShape now shp n = Some se \<and>
           isDecorative pe = (extractDecorativeFlag (cnv_extLst c) \<or> d = [] \<or> d = '' '') \<and>
           isDecorative se = isDecorative pe \<and>
           altTextStatus (content pe) = (if isDecorative pe then Alt_decorative else Alt_missing) \<and>
           altTextStatus (content se) = altTextStatus (content pe) \<and>
           altTextStatus (content pe) \<noteq> Alt_present"
proof -
  obtain pe where pe: "parsePicture now pic n = Some pe"
    "isDecorative pe = ati_isDecorative (extractAltText (Some c))"
    "altTextStatus (content pe) =
       determineAltTextStatus (ati_altText (extractAltText (Some c)))
         (ati_isDecorative (extractAltText (Some c))) E_image"
    using parsePicture_fields [OF assms(3)] by blast
  obtain se where se: "parseShape now shp n = Some se"
    "isDecorative se = ati_isDecorative (extractAltText (Some c))"
    "altTextStatus (content se) =
       determineAltTextStatus (ati_altText (extractAltText (Some c)))
         (ati_isDecorative (extractAltText (Some c))) (el_type se)"
    using parseShape_fields [OF assms(4,5)] by blast
  have d: "ati_isDecorative (extractAltText (Some c)) =
      (extractDecorativeFlag (cnv_extLst c) \<or> d = [] \<or> d = '' '')"
    by (rule extractAltText_descr(1) [OF assms(1)])
  show ?thesis
    using pe se d blank_status [OF assms(1,2)]
    by (intro exI [of _ pe] exI [of _ se]) simp
qed

theorem C9_amended_witness:
  "map_option (\<lambda>e. (isDecorative e, altTextStatus (content e)))
     (parsePicture 0 oneSpacePicture 1) = Some (True, Alt_decorative) \<and>
   map_option (\<lambda>e. (isDecorative e, altTextStatus (content e)))
     (parseShape 0 (twoSpaceShape\<lparr>sp_nvSpPr :=
        Some \<lparr>nv_cNvPr = Some (twoSpaceNode\<lparr>cnv_descr := Some '' ''\<rparr>), nv_phType = None\<rparr>\<rparr>) 1) =
     Some (True, Alt_decorative)"
proof -
  have t: "trim '' '' = []" by (simp add: trim_def isWhiteSpace_def)
  from C9_amended [of "twoSpaceNode\<lparr>cnv_descr := Some '' ''\<rparr>" "'' ''" oneSpacePicture
      "twoSpaceShape\<lparr>sp_nvSpPr :=
        Some \<lparr>nv_cNvPr = Some (twoSpaceNode\<lparr>cnv_descr := Some '' ''\<rparr>), nv_phType = None\<rparr>\<rparr>"
      "\<lparr>nv_cNvPr = Some (twoSpaceNode\<lparr>cnv_descr := Some '' ''\<rparr>), nv_phType = None\<rparr>" 0 1] t
  show ?thesis
    by (auto simp: oneSpacePicture_def twoSpaceShape_def)
qed

text \<open>
  Claim C9 as stated fails: a description of two spaces consists of white space only, and
  neither the picture nor the shape carrying it is classified as decorative; the status
  is \<open>missing\<close>.
\<close>

theorem C9_counterexample:
  "cnv_descr twoSpaceNode = Some ''  '' \<and> trim ''  '' = [] \<and>
   map_option (\<lambda>e. (isDecorative e, altTextStatus (content e), altText (content e)))
     (parsePicture 0 twoSpacePicture 1) = Some (False, Alt_missing, Some ''  '') \<and>
   map_option (\<lambda>e. (isDecorative e, altTextStatus (content e), altText (content e)))
     (parseShape 0 twoSpaceShape 1) = Some (False, Alt_missing, Some ''  '')"
  by code_simp

subsection \<open>Table headers\<close>

lemma parseRows_hasHeaderRow:
  "hasHeaderRow (parseRows k rws td) =
     (hasHeaderRow td \<or> (k = 0 \<and> (case rws of [] \<Rightarrow> False | row # rest \<Rightarrow> rowCells row \<noteq> [])))"
proof (induction rws arbitrary: k td)
  case Nil
  then show ?case by simp
next
  case (Cons row rest)
  show ?case by (simp add: Cons.IH Let_def)
qed

lemma parseRows_frame:
  "td_rows (parseRows k rws td) = td_rows td"
  "hasHeaderColumn (parseRows k rws td) = hasHeaderColumn td"
  by (induction rws arbitrary: k td) (simp_all add: Let_def)

lemma parseTable_tableData:
  "\<exists>td. tableData (parseTable tbl ident xfrm n) = Some td \<and>
        td_rows td = int (length (case tbl_rows tbl of None \<Rightarrow> [] | Some rs \<Rightarrow> rs)) \<and>
        \<not> hasHeaderColumn td \<and>
        hasHeaderRow td = (case (case tbl_rows tbl of None \<Rightarrow> [] | Some rs \<Rightarrow> rs) of
                             [] \<Rightarrow> False | row # rest \<Rightarrow> rowCells row \<noteq> [])"
  by (simp add: parseTable_def Let_def parseRows_hasHeaderRow parseRows_frame)

lemma parseTable_issues:
  "el_issues (parseTable tbl ident xfrm n) \<noteq> [] \<longleftrightarrow>
     (case (case tbl_rows tbl of None \<Rightarrow> [] | Some rs \<Rightarrow> rs) of
        [] \<Rightarrow> False | row # rest \<Rightarrow> rowCells row = [] \<and> rest \<noteq> [])"
  by (auto simp: parseTable_def Let_def parseRows_hasHeaderRow parseRows_frame split: list.splits)

text \<open>
  Claim C10, as amended. For every table element produced by the parser whose source
  table's first row has at least one cell, \<open>hasHeaderRow\<close> is true, the parser attaches
  no \<open>table_missing_headers\<close> issue to the element, and the validator's element check
  emits none for it. Conversely, when the parser or the validator's element check emits
  a \<open>table_missing_headers\<close> issue for a parsed table, the table's first row is empty and
  the table has a further row.
\<close>

theorem C10_amended:
  "(let rws = (case tbl_rows tbl of None \<Rightarrow> [] | Some rs \<Rightarrow> rs);
        el = parseTable tbl ident xfrm n
    in ((case rws of [] \<Rightarrow> False | row # rest \<Rightarrow> rowCells row \<noteq> []) \<longrightarrow>
          (\<exists>td. tableData el = Some td \<and> hasHeaderRow td) \<and>
          (\<forall>i \<in> set (el_issues el). issue_type i \<noteq> table_missing_headers) \<and>
          (\<forall>i \<in> set (validateElement el m). issue_type i \<noteq> table_missing_headers)) \<and>
       ((\<exists>i \<in> set (el_issues el @ validateElement el m). issue_type i = table_missing_headers) \<longrightarrow>
          (case rws of [] \<Rightarrow> False | row # rest \<Rightarrow> rowCells row = [] \<and> rest \<noteq> [])))"
proof -
  let ?rws = "case tbl_rows tbl of None \<Rightarrow> [] | Some rs \<Rightarrow> rs"
  let ?el = "parseTable tbl ident xfrm n"
  obtain td where td: "tableData ?el = Some td"
    and rows: "td_rows td = int (length ?rws)"
    and hr: "hasHeaderRow td = (case ?rws of [] \<Rightarrow> False | row # rest \<Rightarrow> rowCells row \<noteq> [])"
    using parseTable_tableData [of tbl ident xfrm n] by blast
  have ty: "el_type ?el = E_table" "hyperlink ?el = None" "isDecorative ?el = False"
    by (simp_all add: parseTable_def Let_def)
  have v: "\<forall>i \<in> set (validateElement ?el m). issue_type i \<noteq> table_missing_headers"
    if "hasHeaderRow td"
    using that td ty
    by (auto simp: validateElement_def validateTableStructure_def emptyElementIssues_def
          split: if_splits)
  have p: "\<forall>i \<in> set (el_issues ?el). issue_type i \<noteq> table_missing_headers"
    if "hasHeaderRow td"
  proof -
    have "el_issues ?el = []"
      using that hr parseTable_issues [of tbl ident xfrm n] by (auto split: list.splits)
    then show ?thesis by simp
  qed
  have conv: "case ?rws of [] \<Rightarrow> False | row # rest \<Rightarrow> rowCells row = [] \<and> rest \<noteq> []"
    if "\<exists>i \<in> set (el_issues ?el @ validateElement ?el m). issue_type i = table_missing_headers"
  proof -
    from that have nh: "\<not> hasHeaderRow td" using v p by auto
    from that consider "el_issues ?el \<noteq> []"
      | "\<exists>i \<in> set (validateElement ?el m). issue_type i = table_missing_headers"
      by (cases "el_issues ?el = []") auto
    then show ?thesis
    proof cases
      case 1
      then show ?thesis using parseTable_issues [of tbl ident xfrm n] by simp
    next
      case 2
      then have "td_rows td > 1"
        using td ty
        by (auto simp: validateElement_def validateTableStructure_def emptyElementIssues_def
              split: if_splits)
      with rows nh hr show ?thesis by (auto split: list.splits)
    qed
  qed
  show ?thesis
    unfolding Let_def using td hr v p conv by auto
qed

theorem C10_amended_witness:
  "map_option hasHeaderRow (tableData (parseTable twoRowTable ''9'' None 1)) = Some True \<and>
   el_issues (parseTable twoRowTable ''9'' None 1) = [] \<and>
   filter (\<lambda>i. issue_type i = table_missing_headers)
     (validateElement (parseTable twoRowTable ''9'' None 1) 1) = []"
proof -
  have h: "(case (case tbl_rows twoRowTable of None \<Rightarrow> [] | Some rs \<Rightarrow> rs) of
             [] \<Rightarrow> False | row # rest \<Rightarrow> rowCells row \<noteq> [])"
    by (simp add: twoRowTable_def rowCells_def)
  have e: "el_issues (parseTable twoRowTable ''9'' None 1) = []"
    by code_simp
  from C10_amended [of twoRowTable "''9''" None 1 1] h e show ?thesis
    by (auto simp: Let_def filter_empty_conv)
qed

text \<open>
  Claim C10 as stated fails: the table below has a row with a cell (its second row), its
  first row is empty, \<open>hasHeaderRow\<close> is false, and both the parser and the validator's
  element check emit a \<open>table_missing_headers\<close> issue for it.
\<close>

theorem C10_counterexample:
  "map (\<lambda>row. length (rowCells row)) (the (tbl_rows emptyFirstRowTable)) = [0, 1] \<and>
   map_option hasHeaderRow (tableData (parseTable emptyFirstRowTable ''9'' None 1)) = Some False \<and>
   map issue_type (el_issues (parseTable emptyFirstRowTable ''9'' None 1)) = [table_missing_headers] \<and>
   map issue_type (validateElement (parseTable emptyFirstRowTable ''9'' None 1) 1) =
     [table_missing_headers]"
  by code_simp

subsection \<open>Issue ids under reordering of the elements\<close>

lemma elementsPermuted_fields:
  assumes "elementsPermuted s s'"
  shows "slide_number s' = slide_number s" "backgroundElements s' = backgroundElements s"
    "readingOrderConfidence s' = readingOrderConfidence s" "slide_issues s' = slide_issues s"
    "mset (elements s') = mset (elements s)" "set (elements s') = set (elements s)"
proof -
  from assms have e: "s' = s\<lparr>elements := elements s'\<rparr>" and m: "mset (elements s') = mset (elements s)"
    by (simp_all add: elementsPermuted_def)
  show "slide_number s' = slide_number s" by (subst e) simp
  show "backgroundElements s' = backgroundElements s" by (subst e) simp
  show "readingOrderConfidence s' = readingOrderConfidence s" by (subst e) simp
  show "slide_issues s' = slide_issues s" by (subst e) simp
  show "mset (elements s') = mset (elements s)" by (rule m)
  show "set (elements s') = set (elements s)" using m by (rule mset_eq_setD)
qed

lemma validatePseudoTables_permuted:
  assumes "elementsPermuted s s'"
  shows "map issue_id (validatePseudoTables s') = map issue_id (validatePseudoTables s)"
proof -
  have m: "mset (filter (\<lambda>e. el_type e = E_textbox) (elements s')) =
           mset (filter (\<lambda>e. el_type e = E_textbox) (elements s))"
    using arg_cong [OF elementsPermuted_fields(5) [OF assms], of "filter_mset (\<lambda>e. el_type e = E_textbox)"]
    by simp
  then have l: "length (filter (\<lambda>e. el_type e = E_textbox) (elements s')) =
           length (filter (\<lambda>e. el_type e = E_textbox) (elements s))"
    by (rule mset_eq_length)
  have k: "mset (map rowKey (filter (\<lambda>e. el_type e = E_textbox) (elements s'))) =
           mset (map rowKey (filter (\<lambda>e. el_type e = E_textbox) (elements s)))"
    using arg_cong [OF m, of "image_mset rowKey"] by simp
  have "validatePseudoTables s' \<noteq> [] \<longleftrightarrow> validatePseudoTables s \<noteq> []"
    unfolding validatePseudoTables_nonempty_iff Let_def l k ..
  then show ?thesis
    unfolding validatePseudoTables_ids elementsPermuted_fields(1) [OF assms] by simp
qed

lemma dedupFrom_ids: "issue_id ` set (dedupFrom seen xs) = issue_id ` set xs - seen"
  by (induction xs arbitrary: seen) auto

lemma report_ids:
  "issue_id ` set (issues (validate p profile clock)) = issue_id ` set (allIssues p)"
  by (simp add: validate_def generateReport_def Let_def deduplicateIssues_def dedupFrom_ids)

lemma validateSlideTitle_permuted:
  assumes "elementsPermuted s s'"
  shows "validateSlideTitle s' = validateSlideTitle s"
proof -
  let ?P = "\<lambda>e. el_type e = E_title \<and> trimmed_truthy (content_text (content e))"
  have "(find ?P (elements s') = None) = (find ?P (elements s) = None)"
    unfolding find_None_iff elementsPermuted_fields(6) [OF assms] ..
  then show ?thesis
    unfolding validateSlideTitle_def elementsPermuted_fields(1) [OF assms]
    by (cases "find ?P (elements s')"; cases "find ?P (elements s)") simp_all
qed

lemma orderUncertainIssues_permuted:
  assumes "elementsPermuted s s'"
  shows "orderUncertainIssues s' = orderUncertainIssues s"
  unfolding orderUncertainIssues_def elementsPermuted_fields(1,3) [OF assms] ..

lemma set_concat_map_cong:
  "set xs = set ys \<Longrightarrow> set (concat (map f xs)) = set (concat (map f ys))"
  by simp

lemma validateSlide_set:
  "set (validateSlide s) =
     set (overlapIssues s) \<union>
     (set (validateSlideTitle s) \<union> set (orderUncertainIssues s) \<union>
      set (concat (map (\<lambda>element. validateElement element (slide_number s)) (elements s))) \<union>
      set (validatePseudoTables s) \<union>
      set (concat (map (\<lambda>bgElement. validateBackgroundElement bgElement (slide_number s))
                (backgroundElements s))))"
  unfolding validateSlide_def validateReadingOrder_def by (simp only: set_append) blast

lemma other_ids_permuted:
  assumes "elementsPermuted s s'"
  shows "issue_id ` (set (validateSlideTitle s') \<union> set (orderUncertainIssues s') \<union>
      set (concat (map (\<lambda>element. validateElement element (slide_number s')) (elements s'))) \<union>
      set (validatePseudoTables s') \<union>
      set (concat (map (\<lambda>bgElement. validateBackgroundElement bgElement (slide_number s'))
                (backgroundElements s')))) =
    issue_id ` (set (validateSlideTitle s) \<union> set (orderUncertainIssues s) \<union>
      set (concat (map (\<lambda>element. validateElement element (slide_number s)) (elements s))) \<union>
      set (validatePseudoTables s) \<union>
      set (concat (map (\<lambda>bgElement. validateBackgroundElement bgElement (slide_number s))
                (backgroundElements s))))"
proof -
  have e: "set (concat (map (\<lambda>element. validateElement element (slide_number s)) (elements s'))) =
           set (concat (map (\<lambda>element. validateElement element (slide_number s)) (elements s)))"
    by (rule set_concat_map_cong) (rule elementsPermuted_fields(6) [OF assms])
  have p: "issue_id ` set (validatePseudoTables s') = issue_id ` set (validatePseudoTables s)"
    using arg_cong [OF validatePseudoTables_permuted [OF assms], of set] by simp
  show ?thesis
    unfolding image_Un validateSlideTitle_permuted [OF assms] orderUncertainIssues_permuted [OF assms]
      elementsPermuted_fields(1,2) [OF assms] e p ..
qed

lemma collected_permuted:
  assumes "elementsPermuted s s'"
  shows "set (slide_issues s' @ concat (map el_issues (elements s'))) =
         set (slide_issues s @ concat (map el_issues (elements s)))"
  unfolding set_append elementsPermuted_fields(4) [OF assms]
    set_concat_map_cong [OF elementsPermuted_fields(6) [OF assms]] ..

lemma list_all2_map_eq:
  "list_all2 R xs ys \<Longrightarrow> (\<And>x y. R x y \<Longrightarrow> F y = F x) \<Longrightarrow> map F ys = map F xs"
  by (induction rule: list_all2_induct) simp_all

lemma overlap_sym: "overlap a b = overlap b a"
  by (auto simp: overlap_def Let_def)

lemma findOverlapping_empty_iff:
  "findOverlappingElements es = [] \<longleftrightarrow>
     (\<forall>a b. a \<in> set es \<and> b \<in> set es \<and> overlap a b \<longrightarrow> a = b \<and> count (mset es) a < 2)"
proof (induction es)
  case Nil
  then show ?case by simp
next
  case (Cons e es)
  let ?R = "\<lambda>xs. \<forall>a b. a \<in> set xs \<and> b \<in> set xs \<and> overlap a b \<longrightarrow> a = b \<and> count (mset xs) a < 2"
  have step: "findOverlappingElements (e # es) = [] \<longleftrightarrow>
      (\<forall>e' \<in> set es. \<not> overlap e e') \<and> ?R es"
    using Cons.IH by (simp add: filter_empty_conv)
  have "((\<forall>e' \<in> set es. \<not> overlap e e') \<and> ?R es) \<longleftrightarrow> ?R (e # es)"
  proof
    assume h: "(\<forall>e' \<in> set es. \<not> overlap e e') \<and> ?R es"
    show "?R (e # es)"
    proof (intro allI impI)
      fix a b
      assume ab: "a \<in> set (e # es) \<and> b \<in> set (e # es) \<and> overlap a b"
      consider "a = e" "b = e" | "a = e" "b \<noteq> e" | "a \<noteq> e" "b = e" | "a \<noteq> e" "b \<noteq> e"
        by blast
      then show "a = b \<and> count (mset (e # es)) a < 2"
      proof cases
        case 1
        with ab have "overlap e e" by simp
        with h have "e \<notin> set es" by blast
        then have "count (mset es) e = 0" by (simp add: count_eq_zero_iff)
        with 1 show ?thesis by simp
      next
        case 2
        with ab have "b \<in> set es" "overlap e b" by auto
        with h show ?thesis by blast
      next
        case 3
        with ab have "a \<in> set es" "overlap a e" by auto
        then have "overlap e a" by (simp add: overlap_sym)
        with h \<open>a \<in> set es\<close> show ?thesis by blast
      next
        case 4
        with ab have "a \<in> set es" "b \<in> set es" "overlap a b" by auto
        with h have "a = b \<and> count (mset es) a < 2" by blast
        with 4 show ?thesis by auto
      qed
    qed
  next
    assume r: "?R (e # es)"
    have 1: "\<not> overlap e e'" if "e' \<in> set es" for e'
    proof
      assume o: "overlap e e'"
      have "e \<in> set (e # es) \<and> e' \<in> set (e # es) \<and> overlap e e'" using that o by simp
      with r have "e = e' \<and> count (mset (e # es)) e < 2" by blast
      then have ee: "e = e'" and c: "count (mset (e # es)) e < 2" by blast+
      from c have "count (mset es) e = 0" by simp
      then have "e \<notin> set es" by (simp add: count_eq_zero_iff)
      with ee that show False by blast
    qed
    have 2: "?R es"
    proof (intro allI impI)
      fix a b
      assume ab: "a \<in> set es \<and> b \<in> set es \<and> overlap a b"
      then have "a \<in> set (e # es) \<and> b \<in> set (e # es) \<and> overlap a b" by simp
      with r have "a = b \<and> count (mset (e # es)) a < 2" by blast
      then have eq: "a = b" and c: "count (mset (e # es)) a < 2" by blast+
      have "count (mset es) a \<le> count (mset (e # es)) a" by simp
      with c have "count (mset es) a < 2" by linarith
      with eq show "a = b \<and> count (mset es) a < 2" by blast
    qed
    from 1 2 show "(\<forall>e' \<in> set es. \<not> overlap e e') \<and> ?R es" by blast
  qed
  with step show ?case by blast
qed

lemma findOverlapping_empty_permuted:
  assumes "mset es' = mset es"
  shows "findOverlappingElements es' = [] \<longleftrightarrow> findOverlappingElements es = []"
  unfolding findOverlapping_empty_iff assms mset_eq_setD [OF assms] ..

lemma overlapIssues_empty_permuted:
  assumes "elementsPermuted s s'"
  shows "overlapIssues s' = [] \<longleftrightarrow> overlapIssues s = []"
  unfolding overlapIssues_def map_is_Nil_conv
  by (rule findOverlapping_empty_permuted) (rule elementsPermuted_fields(5) [OF assms])

lemma overlapIds_empty_iff:
  "overlapIds p = {} \<longleftrightarrow> (\<forall>s \<in> set (slides p). overlapIssues s = [])"
  by (auto simp: overlapIds_def)

lemma overlapIds_empty_permuted:
  assumes "list_all2 elementsPermuted ss ss'"
  shows "overlapIds (p\<lparr>slides := ss'\<rparr>) = {} \<longleftrightarrow> overlapIds (p\<lparr>slides := ss\<rparr>) = {}"
proof -
  have "map (\<lambda>s. overlapIssues s = []) ss' = map (\<lambda>s. overlapIssues s = []) ss"
    using assms by (rule list_all2_map_eq) (rule overlapIssues_empty_permuted)
  then have "(\<lambda>s. overlapIssues s = []) ` set ss' = (\<lambda>s. overlapIssues s = []) ` set ss"
    by (metis set_map)
  then have "(\<forall>s \<in> set ss'. overlapIssues s = []) \<longleftrightarrow> (\<forall>s \<in> set ss. overlapIssues s = [])"
    by (metis (mono_tags, lifting) image_iff)
  then show ?thesis by (simp add: overlapIds_empty_iff)
qed

lemma checkId_validateDocument:
  "i \<in> set (validateDocument p) \<Longrightarrow>
     issue_id i = checkId (issue_type i) (slideNumber i) (elementId i)"
  by (auto simp: validateDocument_def Let_def checkId_def split: if_splits)

lemma checkId_validateSlideTitle:
  "i \<in> set (validateSlideTitle s) \<Longrightarrow>
     issue_id i = checkId (issue_type i) (slideNumber i) (elementId i)"
  by (auto simp: validateSlideTitle_def checkId_def split: option.splits)

lemma checkId_orderUncertainIssues:
  "i \<in> set (orderUncertainIssues s) \<Longrightarrow>
     issue_id i = checkId (issue_type i) (slideNumber i) (elementId i)"
  by (auto simp: orderUncertainIssues_def checkId_def split: if_splits)

lemma checkId_validateImageAltText:
  "i \<in> set (validateImageAltText e n) \<Longrightarrow>
     issue_id i = checkId (issue_type i) (slideNumber i) (elementId i)"
  by (auto simp: validateImageAltText_def checkId_def split: if_splits)

lemma checkId_validateTableStructure:
  "i \<in> set (validateTableStructure e n) \<Longrightarrow>
     issue_id i = checkId (issue_type i) (slideNumber i) (elementId i)"
  by (auto simp: validateTableStructure_def checkId_def split: if_splits option.splits)

lemma checkId_validateLink:
  "i \<in> set (validateLink e n) \<Longrightarrow>
     issue_id i = checkId (issue_type i) (slideNumber i) (elementId i)"
  by (auto simp: validateLink_def Let_def checkId_def split: if_splits)

lemma checkId_emptyElementIssues:
  "i \<in> set (emptyElementIssues e n) \<Longrightarrow>
     issue_id i = checkId (issue_type i) (slideNumber i) (elementId i)"
  by (auto simp: emptyElementIssues_def checkId_def split: if_splits)

lemma checkId_validateElement:
  "i \<in> set (validateElement e n) \<Longrightarrow>
     issue_id i = checkId (issue_type i) (slideNumber i) (elementId i)"
  unfolding validateElement_def
  by (auto dest: checkId_validateImageAltText checkId_validateTableStructure checkId_validateLink
        checkId_emptyElementIssues split: if_splits)

lemma checkId_validatePseudoTables:
  "i \<in> set (validatePseudoTables s) \<Longrightarrow>
     issue_id i = checkId (issue_type i) (slideNumber i) (elementId i)"
  by (auto simp: validatePseudoTables_def Let_def checkId_def split: if_splits)

lemma checkId_validateBackgroundElement:
  "i \<in> set (validateBackgroundElement e n) \<Longrightarrow>
     issue_id i = checkId (issue_type i) (slideNumber i) (elementId i)"
  by (auto simp: validateBackgroundElement_def checkId_def split: if_splits)

lemma overlapIssues_type:
  "i \<in> set (overlapIssues s) \<Longrightarrow> issue_type i = overlapping_elements"
  by (auto simp: overlapIssues_def overlapIssue_def)

lemma checkId_validateSlide:
  assumes "i \<in> set (validateSlide s)" "issue_type i \<noteq> overlapping_elements"
  shows "issue_id i = checkId (issue_type i) (slideNumber i) (elementId i)"
proof -
  from assms overlapIssues_type have "i \<notin> set (overlapIssues s)" by blast
  with assms(1) consider
      "i \<in> set (validateSlideTitle s)"
    | "i \<in> set (orderUncertainIssues s)"
    | e where "i \<in> set (validateElement e (slide_number s))"
    | "i \<in> set (validatePseudoTables s)"
    | e where "i \<in> set (validateBackgroundElement e (slide_number s))"
    unfolding validateSlide_set by auto
  then show ?thesis
    by cases
      (erule checkId_validateSlideTitle checkId_orderUncertainIssues checkId_validateElement
         checkId_validatePseudoTables checkId_validateBackgroundElement)+
qed

lemma checkId_ruleIssues:
  assumes "i \<in> set (ruleIssues p)" "issue_type i \<noteq> overlapping_elements"
  shows "issue_id i = checkId (issue_type i) (slideNumber i) (elementId i)"
  using assms unfolding ruleIssues_def
  by (auto dest: checkId_validateDocument checkId_validateSlide)

lemma allIssues_ids:
  "issue_id ` set (allIssues q) =
     overlapIds q \<union>
     (issue_id ` set (validateDocument q) \<union>
      (\<Union>s \<in> set (slides q).
         issue_id ` (set (validateSlideTitle s) \<union> set (orderUncertainIssues s) \<union>
           set (concat (map (\<lambda>element. validateElement element (slide_number s)) (elements s))) \<union>
           set (validatePseudoTables s) \<union>
           set (concat (map (\<lambda>bgElement. validateBackgroundElement bgElement (slide_number s))
                     (backgroundElements s))))) \<union>
      issue_id ` set (pres_issues q) \<union>
      (\<Union>s \<in> set (slides q). issue_id ` set (slide_issues s @ concat (map el_issues (elements s)))))"
proof -
  define A where "A = issue_id ` set (validateDocument q)"
  define P where "P = issue_id ` set (pres_issues q)"
  define OV where "OV = (\<lambda>s::Slide. issue_id ` set (overlapIssues s))"
  define R where "R = (\<lambda>s::Slide.
         issue_id ` (set (validateSlideTitle s) \<union> set (orderUncertainIssues s) \<union>
           set (concat (map (\<lambda>element. validateElement element (slide_number s)) (elements s))) \<union>
           set (validatePseudoTables s) \<union>
           set (concat (map (\<lambda>bgElement. validateBackgroundElement bgElement (slide_number s))
                     (backgroundElements s)))))"
  define C where "C = (\<lambda>s::Slide. issue_id ` set (slide_issues s @ concat (map el_issues (elements s))))"
  have v: "issue_id ` set (validateSlide s) = OV s \<union> R s" for s
    unfolding OV_def R_def validateSlide_set image_Un ..
  have a: "set (allIssues q) =
      set (validateDocument q) \<union> (\<Union>s \<in> set (slides q). set (validateSlide s)) \<union>
      (set (pres_issues q) \<union>
       (\<Union>s \<in> set (slides q). set (slide_issues s @ concat (map el_issues (elements s)))))"
    unfolding allIssues_def collectPresentationIssues_def by (simp add: Un_assoc)
  have "issue_id ` set (allIssues q) =
      A \<union> (\<Union>s \<in> set (slides q). OV s \<union> R s) \<union> (P \<union> (\<Union>s \<in> set (slides q). C s))"
    unfolding a image_Un image_UN v A_def P_def C_def ..
  also have "\<dots> = (\<Union>s \<in> set (slides q). OV s) \<union>
      (A \<union> (\<Union>s \<in> set (slides q). R s) \<union> P \<union> (\<Union>s \<in> set (slides q). C s))"
    by blast
  also have "(\<Union>s \<in> set (slides q). OV s) = overlapIds q"
    unfolding overlapIds_def OV_def by (simp add: image_UN)
  finally show ?thesis
    unfolding A_def P_def R_def C_def .
qed

lemma count_ge_one_iff: "Suc 0 \<le> count (mset es) a \<longleftrightarrow> a \<in> set es"
  by (simp add: Suc_le_eq)

lemma findOverlapping_mem_Cons:
  "(x, y) \<in> set (findOverlappingElements (e # es)) \<longleftrightarrow>
     (x = e \<and> y \<in> set es \<and> overlap e y) \<or> (x, y) \<in> set (findOverlappingElements es)"
  by auto

lemma findOverlapping_sym_mem:
  "(a, b) \<in> set (findOverlappingElements es) \<or> (b, a) \<in> set (findOverlappingElements es) \<longleftrightarrow>
     overlap a b \<and>
       ((a \<noteq> b \<and> a \<in> set es \<and> b \<in> set es) \<or> (a = b \<and> 2 \<le> count (mset es) a))"
proof (induction es)
  case Nil
  then show ?case by simp
next
  case (Cons e es)
  let ?L = "(a, b) \<in> set (findOverlappingElements es) \<or> (b, a) \<in> set (findOverlappingElements es)"
  have ih: "?L \<longleftrightarrow> overlap a b \<and>
       ((a \<noteq> b \<and> a \<in> set es \<and> b \<in> set es) \<or> (a = b \<and> 2 \<le> count (mset es) a))"
    by (rule Cons.IH)
  have lhs: "((a, b) \<in> set (findOverlappingElements (e # es)) \<or>
              (b, a) \<in> set (findOverlappingElements (e # es))) \<longleftrightarrow>
      (a = e \<and> b \<in> set es \<and> overlap e b) \<or> (b = e \<and> a \<in> set es \<and> overlap e a) \<or> ?L"
    unfolding findOverlapping_mem_Cons by blast
  have two: "2 \<le> count (mset es) x \<Longrightarrow> x \<in> set es" for x
    by (metis count_mset_0_iff not_numeral_le_zero)
  show ?case
  proof (cases "a = e")
    case ae: True
    show ?thesis
    proof (cases "b = e")
      case be: True
      have c: "2 \<le> count (mset (e # es)) e \<longleftrightarrow> e \<in> set es"
        using count_ge_one_iff [of es e] by simp
      show ?thesis
        unfolding lhs ih using ae be c two [of e] by auto
    next
      case be: False
      show ?thesis
        unfolding lhs ih using ae be by auto
    qed
  next
    case ae: False
    show ?thesis
    proof (cases "b = e")
      case be: True
      have s: "overlap e a = overlap a e" by (rule overlap_sym)
      show ?thesis
        unfolding lhs ih s using ae be by auto
    next
      case be: False
      show ?thesis
        unfolding lhs ih using ae be by auto
    qed
  qed
qed

lemma findOverlapping_permuted:
  assumes "mset es' = mset es" and "(a, b) \<in> set (findOverlappingElements es')"
  shows "(a, b) \<in> set (findOverlappingElements es) \<or> (b, a) \<in> set (findOverlappingElements es)"
proof -
  from assms(2) have "(a, b) \<in> set (findOverlappingElements es') \<or>
      (b, a) \<in> set (findOverlappingElements es')" by (rule disjI1)
  then show ?thesis
    unfolding findOverlapping_sym_mem assms(1) mset_eq_setD [OF assms(1)] .
qed

lemma overlapIssues_permuted:
  assumes "elementsPermuted s s'"
  shows "issue_id ` set (overlapIssues s') \<subseteq>
     issue_id ` set (overlapIssues s) \<union>
     issue_id ` set (map (\<lambda>pr. overlapIssue (slide_number s) (snd pr, fst pr))
                       (findOverlappingElements (elements s)))"
proof
  fix x assume "x \<in> issue_id ` set (overlapIssues s')"
  then obtain pr where pr: "pr \<in> set (findOverlappingElements (elements s'))"
    and x: "x = issue_id (overlapIssue (slide_number s) pr)"
    unfolding overlapIssues_def elementsPermuted_fields(1) [OF assms] by auto
  obtain a b where ab: "pr = (a, b)" by (cases pr)
  from pr ab findOverlapping_permuted [OF elementsPermuted_fields(5) [OF assms], of a b]
  consider "pr \<in> set (findOverlappingElements (elements s))"
    | "(snd pr, fst pr) \<in> set (findOverlappingElements (elements s))"
    by auto
  then show "x \<in> issue_id ` set (overlapIssues s) \<union>
     issue_id ` set (map (\<lambda>pr. overlapIssue (slide_number s) (snd pr, fst pr))
                       (findOverlappingElements (elements s)))"
  proof cases
    case 1
    with x show ?thesis unfolding overlapIssues_def by auto
  next
    case 2
    then have "issue_id (overlapIssue (slide_number s) (snd (snd pr, fst pr), fst (snd pr, fst pr)))
        \<in> issue_id ` set (map (\<lambda>pr. overlapIssue (slide_number s) (snd pr, fst pr))
                       (findOverlappingElements (elements s)))"
      unfolding set_map by (intro imageI)
    with x show ?thesis by simp
  qed
qed

lemma overlapIds_permuted:
  assumes "list_all2 elementsPermuted ss ss'"
  shows "overlapIds (p\<lparr>slides := ss'\<rparr>) \<subseteq>
         overlapIds (p\<lparr>slides := ss\<rparr>) \<union> swappedOverlapIds (p\<lparr>slides := ss\<rparr>)"
proof
  fix x assume "x \<in> overlapIds (p\<lparr>slides := ss'\<rparr>)"
  then obtain s' where s': "s' \<in> set ss'" and x: "x \<in> issue_id ` set (overlapIssues s')"
    unfolding overlapIds_def by auto
  from s' assms obtain s where s: "s \<in> set ss" and perm: "elementsPermuted s s'"
    by (metis in_set_conv_nth list_all2_conv_all_nth)
  from overlapIssues_permuted [OF perm] x
  consider "x \<in> issue_id ` set (overlapIssues s)"
    | "x \<in> issue_id ` set (map (\<lambda>pr. overlapIssue (slide_number s) (snd pr, fst pr))
                       (findOverlappingElements (elements s)))"
    by blast
  then show "x \<in> overlapIds (p\<lparr>slides := ss\<rparr>) \<union> swappedOverlapIds (p\<lparr>slides := ss\<rparr>)"
  proof cases
    case 1
    with s show ?thesis unfolding overlapIds_def by auto
  next
    case 2
    with s show ?thesis unfolding swappedOverlapIds_def by auto
  qed
qed

text \<open>The overlap check pairs an element with every later element it overlaps.\<close>

lemma precedes_set: "precedes es a b \<Longrightarrow> a \<in> set es \<and> b \<in> set es"
  by (induction es) auto

lemma findOverlapping_precedes:
  "(a, b) \<in> set (findOverlappingElements es) \<longleftrightarrow> precedes es a b \<and> overlap a b"
  by (induction es) auto

lemma findOverlapping_orderKept:
  assumes "elementsPermuted s s'" "overlapOrderKept s s'"
  shows "set (findOverlappingElements (elements s')) = set (findOverlappingElements (elements s))"
proof -
  have se: "set (elements s') = set (elements s)" by (rule elementsPermuted_fields(6) [OF assms(1)])
  have "(a, b) \<in> set (findOverlappingElements (elements s')) \<longleftrightarrow>
        (a, b) \<in> set (findOverlappingElements (elements s))" for a b
  proof (cases "overlap a b \<and> a \<in> set (elements s) \<and> b \<in> set (elements s)")
    case True
    with assms(2) have "precedes (elements s') a b \<longleftrightarrow> precedes (elements s) a b"
      unfolding overlapOrderKept_def by blast
    then show ?thesis unfolding findOverlapping_precedes by simp
  next
    case False
    then show ?thesis
      unfolding findOverlapping_precedes using precedes_set [of "elements s" a b]
        precedes_set [of "elements s'" a b] se by blast
  qed
  then show ?thesis by auto
qed

lemma overlapIssues_orderKept:
  assumes "elementsPermuted s s'" "overlapOrderKept s s'"
  shows "issue_id ` set (overlapIssues s') = issue_id ` set (overlapIssues s)"
  unfolding overlapIssues_def set_map elementsPermuted_fields(1) [OF assms(1)]
    findOverlapping_orderKept [OF assms] ..

lemma overlapIds_orderKept:
  assumes "list_all2 elementsPermuted ss ss'" "list_all2 overlapOrderKept ss ss'"
  shows "overlapIds (p\<lparr>slides := ss'\<rparr>) = overlapIds (p\<lparr>slides := ss\<rparr>)"
proof -
  from assms have "list_all2 (\<lambda>s s'. elementsPermuted s s' \<and> overlapOrderKept s s') ss ss'"
    by (simp add: list_all2_conv_all_nth)
  then have "map (\<lambda>s. issue_id ` set (overlapIssues s)) ss' =
             map (\<lambda>s. issue_id ` set (overlapIssues s)) ss"
    by (rule list_all2_map_eq) (simp add: overlapIssues_orderKept)
  then have "(\<Union>s \<in> set ss'. issue_id ` set (overlapIssues s)) =
             (\<Union>s \<in> set ss. issue_id ` set (overlapIssues s))"
    by (metis set_map)
  then show ?thesis by (simp add: overlapIds_def image_UN)
qed

lemma overlapIssues_ids:
  "issue_id ` set (overlapIssues s) =
     {''slide-'' @ showInt (slide_number s) @ ''-overlap-'' @ el_id a @ ''-'' @ el_id b | a b.
        precedes (elements s) a b \<and> overlap a b}"
proof -
  have "issue_id ` set (overlapIssues s) =
      (\<lambda>pr. ''slide-'' @ showInt (slide_number s) @ ''-overlap-'' @ el_id (fst pr) @ ''-'' @ el_id (snd pr)) `
        set (findOverlappingElements (elements s))"
    unfolding overlapIssues_def set_map image_image
    by (rule image_cong) (simp_all add: overlapIssue_def case_prod_unfold)
  also have "\<dots> = {''slide-'' @ showInt (slide_number s) @ ''-overlap-'' @ el_id a @ ''-'' @ el_id b | a b.
        (a, b) \<in> set (findOverlappingElements (elements s))}"
  proof (intro set_eqI iffI)
    fix x
    assume "x \<in> (\<lambda>pr. ''slide-'' @ showInt (slide_number s) @ ''-overlap-'' @ el_id (fst pr) @ ''-'' @ el_id (snd pr)) `
        set (findOverlappingElements (elements s))"
    then obtain pr where "pr \<in> set (findOverlappingElements (elements s))"
      "x = ''slide-'' @ showInt (slide_number s) @ ''-overlap-'' @ el_id (fst pr) @ ''-'' @ el_id (snd pr)"
      by blast
    then have "(fst pr, snd pr) \<in> set (findOverlappingElements (elements s)) \<and>
      x = ''slide-'' @ showInt (slide_number s) @ ''-overlap-'' @ el_id (fst pr) @ ''-'' @ el_id (snd pr)"
      by simp
    then show "x \<in> {''slide-'' @ showInt (slide_number s) @ ''-overlap-'' @ el_id a @ ''-'' @ el_id b | a b.
        (a, b) \<in> set (findOverlappingElements (elements s))}" by blast
  next
    fix x
    assume "x \<in> {''slide-'' @ showInt (slide_number s) @ ''-overlap-'' @ el_id a @ ''-'' @ el_id b | a b.
        (a, b) \<in> set (findOverlappingElements (elements s))}"
    then obtain a b where ab: "(a, b) \<in> set (findOverlappingElements (elements s))"
      and x: "x = ''slide-'' @ showInt (slide_number s) @ ''-overlap-'' @ el_id a @ ''-'' @ el_id b"
      by blast
    from x have "x = (\<lambda>pr. ''slide-'' @ showInt (slide_number s) @ ''-overlap-'' @ el_id (fst pr) @ ''-'' @ el_id (snd pr)) (a, b)"
      by simp
    with ab show "x \<in> (\<lambda>pr. ''slide-'' @ showInt (slide_number s) @ ''-overlap-'' @ el_id (fst pr) @ ''-'' @ el_id (snd pr)) `
        set (findOverlappingElements (elements s))" by (rule image_eqI [rotated])
  qed
  finally show ?thesis unfolding findOverlapping_precedes .
qed

lemma precedes_filter:
  "P a \<Longrightarrow> P b \<Longrightarrow> precedes (filter P es) a b = precedes es a b"
  by (induction es) auto

lemma precedes_self_distinct: "distinct es \<Longrightarrow> \<not> precedes es a a"
  by (induction es) auto

lemma unrelatedMoved_orderKept:
  assumes "elementsPermuted s s'" "unrelatedMoved s s'"
  shows "overlapOrderKept s s'"
  unfolding overlapOrderKept_def
proof (intro ballI impI)
  fix a b
  assume a: "a \<in> set (elements s)" and b: "b \<in> set (elements s)" and o: "overlap a b"
  from assms(2) have d: "distinct (elements s)"
    and f: "filter (overlapsAnother s) (elements s') = filter (overlapsAnother s) (elements s)"
    unfolding unrelatedMoved_def by blast+
  have "mset (elements s') = mset (elements s)" by (rule elementsPermuted_fields(5) [OF assms(1)])
  with d have d': "distinct (elements s')" by (metis mset_eq_imp_distinct_iff)
  show "precedes (elements s') a b \<longleftrightarrow> precedes (elements s) a b"
  proof (cases "a = b")
    case True
    with d d' show ?thesis by (simp add: precedes_self_distinct)
  next
    case False
    from False a b o have pa: "overlapsAnother s a" and pb: "overlapsAnother s b"
      unfolding overlapsAnother_def using overlap_sym [of a b] by auto
    have "precedes (elements s') a b = precedes (filter (overlapsAnother s) (elements s')) a b"
      using pa pb by (simp add: precedes_filter)
    also have "\<dots> = precedes (elements s) a b"
      unfolding f using pa pb by (simp add: precedes_filter)
    finally show ?thesis .
  qed
qed

lemma unrelatedMoved_all:
  assumes "list_all2 elementsPermuted ss ss'" "list_all2 unrelatedMoved ss ss'"
  shows "list_all2 overlapOrderKept ss ss'"
proof -
  from assms have "list_all2 (\<lambda>s s'. elementsPermuted s s' \<and> unrelatedMoved s s') ss ss'"
    by (simp add: list_all2_conv_all_nth)
  then show ?thesis
    by (rule list_all2_mono) (simp add: unrelatedMoved_orderKept)
qed

text \<open>
  Claim C4, as amended. Let the slides of a second presentation differ from those of the
  first at most in the order of their elements. If no two overlapping elements of a slide
  have changed their relative order, the two reports carry the same issue ids. In
  particular they do when, on slides that list no element twice, the elements that
  overlap another element are listed in the same order as before: reordering elements
  that overlap nothing changes no id. The id of an overlap finding
  names the two elements of the pair in their order in the elements list:
  \<open>slide-n-overlap-a-b\<close> for \<open>a\<close> listed before \<open>b\<close>. Hence, in general, every issue id
  of the second report is an issue id of the first or the id of an overlapping pair of the
  first with the two element ids in the other order; every id of either report that is
  not an id of its overlap check occurs in the other report; and when no two elements
  overlap, the two reports carry the same ids. For every finding of the validator's own
  checks other than the overlap check, the id is a function (\<^const>\<open>checkId\<close>) of the
  check type, the slide number and the element id.
\<close>

theorem C4_amended:
  assumes "list_all2 elementsPermuted (slides p) ss'"
  shows
  "(let p' = p\<lparr>slides := ss'\<rparr>;
        ids = issue_id ` set (issues (validate p profile clock));
        ids' = issue_id ` set (issues (validate p' profile clock))
    in (list_all2 overlapOrderKept (slides p) ss' \<longrightarrow> ids' = ids) \<and>
       (list_all2 unrelatedMoved (slides p) ss' \<longrightarrow> ids' = ids) \<and>
       ids' \<subseteq> ids \<union> swappedOverlapIds p \<and>
       ids' - overlapIds p' \<subseteq> ids \<and>
       ids - overlapIds p \<subseteq> ids' \<and>
       (overlapIds p = {} \<longrightarrow> ids' = ids) \<and>
       (\<forall>s \<in> set (slides p).
          issue_id ` set (overlapIssues s) =
            {''slide-'' @ showInt (slide_number s) @ ''-overlap-'' @ el_id a @ ''-'' @ el_id b | a b.
               precedes (elements s) a b \<and> overlap a b}) \<and>
       (\<forall>i \<in> set (ruleIssues p). issue_type i \<noteq> overlapping_elements \<longrightarrow>
          issue_id i = checkId (issue_type i) (slideNumber i) (elementId i)))"
proof -
  define oth where "oth = (\<lambda>s::Slide.
         issue_id ` (set (validateSlideTitle s) \<union> set (orderUncertainIssues s) \<union>
           set (concat (map (\<lambda>element. validateElement element (slide_number s)) (elements s))) \<union>
           set (validatePseudoTables s) \<union>
           set (concat (map (\<lambda>bgElement. validateBackgroundElement bgElement (slide_number s))
                     (backgroundElements s)))))"
  define col where "col = (\<lambda>s::Slide. issue_id ` set (slide_issues s @ concat (map el_issues (elements s))))"
  define rest where "rest = (\<lambda>q::Presentation. issue_id ` set (validateDocument q) \<union> (\<Union>s \<in> set (slides q). oth s) \<union>
      issue_id ` set (pres_issues q) \<union> (\<Union>s \<in> set (slides q). col s))"
  let ?p' = "p\<lparr>slides := ss'\<rparr>"
  have ids: "issue_id ` set (issues (validate q profile clock)) = overlapIds q \<union> rest q" for q
    unfolding report_ids allIssues_ids rest_def oth_def col_def ..
  have "map oth ss' = map oth (slides p)"
    using assms
  proof (rule list_all2_map_eq)
    fix s s' assume "elementsPermuted s s'"
    then show "oth s' = oth s" unfolding oth_def by (rule other_ids_permuted)
  qed
  then have o: "(\<Union>s \<in> set ss'. oth s) = (\<Union>s \<in> set (slides p). oth s)"
    by (metis set_map)
  have "map col ss' = map col (slides p)"
    using assms
  proof (rule list_all2_map_eq)
    fix s s' assume "elementsPermuted s s'"
    then show "col s' = col s" unfolding col_def by (simp only: collected_permuted)
  qed
  then have c: "(\<Union>s \<in> set ss'. col s) = (\<Union>s \<in> set (slides p). col s)"
    by (metis set_map)
  have d: "validateDocument ?p' = validateDocument p"
    by (simp add: validateDocument_def)
  have r: "rest ?p' = rest p"
    unfolding rest_def d using o c by simp
  have e: "overlapIds ?p' = {} \<longleftrightarrow> overlapIds p = {}"
    using overlapIds_empty_permuted [OF assms, of p] by simp
  have v: "overlapIds ?p' \<subseteq> overlapIds p \<union> swappedOverlapIds p"
    using overlapIds_permuted [OF assms, of p] by simp
  have k: "\<forall>i \<in> set (ruleIssues p). issue_type i \<noteq> overlapping_elements \<longrightarrow>
          issue_id i = checkId (issue_type i) (slideNumber i) (elementId i)"
    using checkId_ruleIssues by blast
  have w: "overlapIds ?p' = overlapIds p" if "list_all2 overlapOrderKept (slides p) ss'"
    using overlapIds_orderKept [OF assms that, of p] by simp
  have n: "\<forall>s \<in> set (slides p).
          issue_id ` set (overlapIssues s) =
            {''slide-'' @ showInt (slide_number s) @ ''-overlap-'' @ el_id a @ ''-'' @ el_id b | a b.
               precedes (elements s) a b \<and> overlap a b}"
    using overlapIssues_ids by blast
  have u: "overlapIds ?p' = overlapIds p" if "list_all2 unrelatedMoved (slides p) ss'"
    using w [OF unrelatedMoved_all [OF assms that]] .
  have main: "(list_all2 overlapOrderKept (slides p) ss' \<longrightarrow> overlapIds ?p' \<union> rest p = overlapIds p \<union> rest p) \<and>
       (list_all2 unrelatedMoved (slides p) ss' \<longrightarrow> overlapIds ?p' \<union> rest p = overlapIds p \<union> rest p) \<and>
       overlapIds ?p' \<union> rest p \<subseteq> overlapIds p \<union> rest p \<union> swappedOverlapIds p \<and>
       overlapIds ?p' \<union> rest p - overlapIds ?p' \<subseteq> overlapIds p \<union> rest p \<and>
       overlapIds p \<union> rest p - overlapIds p \<subseteq> overlapIds ?p' \<union> rest p \<and>
       (overlapIds p = {} \<longrightarrow> overlapIds ?p' \<union> rest p = overlapIds p \<union> rest p)"
    using e v w u by auto
  show ?thesis
    unfolding Let_def ids r using main n k by blast
qed

lemma overlap_samples_permuted:
  "list_all2 elementsPermuted (slides overlapAB) (slides overlapBA)"
  "overlapBA = overlapAB\<lparr>slides := slides overlapBA\<rparr>"
  by (simp_all add: overlapAB_def overlapBA_def samplePresentation_def elementsPermuted_def
        sampleSlide_def)

lemma overlap_samples_ids:
  "map issue_id (issues (validate overlapAB validatorDefaultProfile (clockAt epoch))) =
     [''slide-1-overlap-a-b'']"
  "map issue_id (issues (validate overlapBA validatorDefaultProfile (clockAt epoch))) =
     [''slide-1-overlap-b-a'']"
  by code_simp+

lemma overlapABC_permuted:
  "list_all2 elementsPermuted (slides overlapABC) overlapCAB"
  "list_all2 overlapOrderKept (slides overlapABC) overlapCAB"
  by (simp_all add: overlapABC_def overlapCAB_def samplePresentation_def elementsPermuted_def
        overlapOrderKept_def sampleSlide_def threeBoxes_def overlap_def sampleElement_def)

lemma overlapABC_unrelatedMoved: "list_all2 unrelatedMoved (slides overlapABC) overlapCAB"
  by code_simp

lemma overlapABC_ids:
  "map issue_id (issues (validate overlapABC validatorDefaultProfile (clockAt epoch))) =
     [''slide-1-overlap-a-b'']"
  by code_simp

theorem C4_amended_witness:
  "map el_id (elements (hd (slides overlapABC))) = [''a'', ''b'', ''c''] \<and>
   map el_id (elements (hd overlapCAB)) = [''c'', ''a'', ''b''] \<and>
   issue_id ` set (issues (validate (overlapABC\<lparr>slides := overlapCAB\<rparr>) validatorDefaultProfile (clockAt epoch))) =
     {''slide-1-overlap-a-b''}"
proof -
  have "issue_id ` set (issues (validate (overlapABC\<lparr>slides := overlapCAB\<rparr>) validatorDefaultProfile (clockAt epoch))) =
      issue_id ` set (issues (validate overlapABC validatorDefaultProfile (clockAt epoch)))"
    using C4_amended [OF overlapABC_permuted(1), of validatorDefaultProfile "clockAt epoch"]
      overlapABC_permuted(2) overlapABC_unrelatedMoved
    by (simp add: Let_def)
  also have "\<dots> = set (map issue_id (issues (validate overlapABC validatorDefaultProfile (clockAt epoch))))"
    by simp
  also have "\<dots> = {''slide-1-overlap-a-b''}"
    unfolding overlapABC_ids by simp
  finally have ids: "issue_id ` set (issues (validate (overlapABC\<lparr>slides := overlapCAB\<rparr>) validatorDefaultProfile (clockAt epoch))) =
     {''slide-1-overlap-a-b''}" .
  have els: "map el_id (elements (hd (slides overlapABC))) = [''a'', ''b'', ''c'']"
    "map el_id (elements (hd overlapCAB)) = [''c'', ''a'', ''b'']"
    by (simp_all add: overlapABC_def overlapCAB_def samplePresentation_def sampleSlide_def
        threeBoxes_def sampleElement_def)
  from ids els show ?thesis by simp
qed

text \<open>
  Claim C4 as stated fails: two elements overlap on the slide below; with the elements in
  the order \<open>a, b\<close> the report carries the id \<open>slide-1-overlap-a-b\<close>, and with the same
  two elements in the order \<open>b, a\<close> it carries \<open>slide-1-overlap-b-a\<close> instead.
\<close>

theorem C4_counterexample:
  "map el_id (elements (hd (slides overlapAB))) = [''a'', ''b''] \<and>
   map el_id (elements (hd (slides overlapBA))) = [''b'', ''a''] \<and>
   mset (elements (hd (slides overlapBA))) = mset (elements (hd (slides overlapAB))) \<and>
   map issue_id (issues (validate overlapAB validatorDefaultProfile (clockAt epoch))) =
     [''slide-1-overlap-a-b''] \<and>
   map issue_id (issues (validate overlapBA validatorDefaultProfile (clockAt epoch))) =
     [''slide-1-overlap-b-a'']"
  using overlap_samples_ids
  by (simp add: overlapAB_def overlapBA_def samplePresentation_def sampleSlide_def sampleElement_def)

subsection \<open>Further properties of the validator\<close>

text \<open>
  The alternative-text quality heuristic on the examples of the specification: a file
  name, the generic words \<open>Bild\<close>, \<open>photo\<close> and \<open>icon\<close> are of low quality; a
  descriptive sentence of six words is not.
\<close>

theorem altText_quality_examples:
  "isLowQualityAltText ''image.jpg'' \<and> isLowQualityAltText ''Bild'' \<and>
   isLowQualityAltText ''photo'' \<and> isLowQualityAltText ''icon'' \<and>
   \<not> isLowQualityAltText ''Bar chart of revenue per year''"
  by code_simp

lemma dedupFrom_duplicate:
  "issue_id n \<in> seen \<union> issue_id ` set xs \<Longrightarrow>
     dedupFrom seen (xs @ n # ys) = dedupFrom seen (xs @ ys)"
proof (induction xs arbitrary: seen)
  case Nil
  then show ?case by simp
next
  case (Cons x xs)
  show ?case
  proof (cases "issue_id x \<in> seen")
    case True
    with Cons.prems have "issue_id n \<in> seen \<union> issue_id ` set xs" by auto
    with True Cons.IH show ?thesis by simp
  next
    case False
    from Cons.prems have "issue_id n \<in> insert (issue_id x) seen \<union> issue_id ` set xs" by auto
    with False Cons.IH show ?thesis by simp
  qed
qed

text \<open>
  A later duplicate never increases counts: an issue whose id already occurs earlier in
  the list is dropped by the deduplication, so the report's issue list, its summary
  counts and its score are those of the list without it.
\<close>

theorem duplicate_never_counts:
  assumes "issue_id n \<in> issue_id ` set xs"
  shows "deduplicateIssues (xs @ n # ys) = deduplicateIssues (xs @ ys) \<and>
         issues (generateReport p clock (xs @ n # ys)) = issues (generateReport p clock (xs @ ys)) \<and>
         summary (generateReport p clock (xs @ n # ys)) = summary (generateReport p clock (xs @ ys)) \<and>
         overallScore (generateReport p clock (xs @ n # ys)) =
           overallScore (generateReport p clock (xs @ ys))"
proof -
  have "deduplicateIssues (xs @ n # ys) = deduplicateIssues (xs @ ys)"
    unfolding deduplicateIssues_def using assms by (intro dedupFrom_duplicate) simp
  then show ?thesis by (simp add: generateReport_def Let_def)
qed

theorem duplicate_never_counts_witness:
  "overallScore (generateReport scenarioPresentation (clockAt epoch)
      ([sampleIssue ''e1'' Sev_error] @ (sampleIssue ''e1'' Sev_warning) # [])) = 85 \<and>
   overallScore (generateReport scenarioPresentation (clockAt epoch)
      ([sampleIssue ''e1'' Sev_error] @ [])) = 85"
proof -
  have h: "issue_id (sampleIssue ''e1'' Sev_warning) \<in> issue_id ` set [sampleIssue ''e1'' Sev_error]"
    by (simp add: sampleIssue_def)
  have v: "overallScore (generateReport scenarioPresentation (clockAt epoch)
      ([sampleIssue ''e1'' Sev_error] @ [])) = 85"
    by (simp add: overallScore_generateReport deduplicateIssues_def countSeverity_def
          calculateScore_def sampleIssue_def)
  from duplicate_never_counts [OF h, of "[]" scenarioPresentation "clockAt epoch"] v
  show ?thesis by simp
qed

text \<open>The overall score of every report lies between 0 and 100.\<close>

theorem score_in_range:
  "0 \<le> overallScore (validate p profile clock) \<and> overallScore (validate p profile clock) \<le> 100"
proof -
  have "0 \<le> calculateScore e w i \<and> calculateScore e w i \<le> 100"
    if "0 \<le> e" "0 \<le> w" "0 \<le> i" for e w i :: int
    using that by (simp add: calculateScore_def Let_def)
  then show ?thesis
    unfolding validate_def overallScore_generateReport
    by (intro conjI; simp add: countSeverity_nonneg)
qed

end
